(* ===== verification/Prelude.thy ===== *)
theory Prelude
  imports Main "HOL-Library.Sublist"
begin

text \<open>
  Shared vocabulary of the development: the collections of facts the components add to, the
  types every component uses (instants, identifiers, JavaScript errors), the few operations of
  the JavaScript standard library the sources call (\<open>String.prototype.includes\<close>,
  \<open>startsWith\<close>, truthiness of an optional string, \<open>Buffer.from\<close> on text), and generic
  lemmas on lists and maps.

  Strings are lists of characters of one code unit each; a \<open>string\<close> of the model is a
  JavaScript string whose code units are below 256. Instants are milliseconds since the epoch:
  where the sources render a date with \<open>toISOString\<close> the model keeps the instant itself.
\<close>

named_theorems io_defs \<open>definitions of the effect combinators\<close>
named_theorems io_rules \<open>rules that build a specification of a composed effect\<close>
named_theorems env_rules \<open>rules for the readings of the environment\<close>
named_theorems store_defs \<open>definitions of the operations of the stores\<close>

type_synonym timestamp = nat
type_synonym uuid = string

datatype error = Error (message: string)

type_synonym 'a result = "error + 'a"

subsection \<open>JavaScript strings\<close>

definition truthy :: "string option \<Rightarrow> bool" where
  "truthy s = (case s of None \<Rightarrow> False | Some t \<Rightarrow> t \<noteq> [])"

fun starts_with :: "string \<Rightarrow> string \<Rightarrow> bool" where
  "starts_with [] s = True"
| "starts_with (c # cs) [] = False"
| "starts_with (c # cs) (d # ds) = (c = d \<and> starts_with cs ds)"

fun str_includes :: "string \<Rightarrow> string \<Rightarrow> bool" where
  "str_includes needle [] = (needle = [])"
| "str_includes needle (c # cs) = (starts_with needle (c # cs) \<or> str_includes needle cs)"

text \<open>\<open>Buffer.from\<close> of a string: its UTF-8 bytes.\<close>

fun utf8_char :: "char \<Rightarrow> nat list" where
  "utf8_char c =
     (let n = (of_char c :: nat) in if n < 128 then [n] else [192 + n div 64, 128 + n mod 64])"

definition utf8 :: "string \<Rightarrow> nat list" where
  "utf8 s = concat (map utf8_char s)"

text \<open>Decimal digits of a number.\<close>

fun show_nat :: "nat \<Rightarrow> string" where
  "show_nat n = (if n < 10 then [char_of (48 + n)] else show_nat (n div 10) @ [char_of (48 + n mod 10)])"

declare show_nat.simps [simp del]

subsection \<open>Facts about them\<close>

lemma starts_with_prefix: "starts_with p s = prefix p s"
  by (induction p s rule: starts_with.induct) auto

lemma str_includes_sublist: "str_includes needle s = sublist needle s"
  by (induction needle s rule: str_includes.induct)
     (auto simp: starts_with_prefix sublist_Cons_right)

lemma truthy_iff: "truthy s \<longleftrightarrow> (\<exists>t. s = Some t \<and> t \<noteq> [])"
  by (cases s) (auto simp: truthy_def)

lemma utf8_char_nonempty: "utf8_char c \<noteq> []"
  by (simp add: Let_def)

lemma utf8_char_inj_append:
  assumes "utf8_char c @ xs = utf8_char d @ ys"
  shows "c = d \<and> xs = ys"
proof -
  define m n where "m = (of_char c :: nat)" and "n = (of_char d :: nat)"
  have bounds: "m < 256" "n < 256"
    by (simp_all add: m_def n_def)
  have "m = n \<and> xs = ys"
    using assms bounds by (auto simp: m_def [symmetric] n_def [symmetric] Let_def split: if_splits)
       (metis add_left_cancel mult_div_mod_eq)+
  then show ?thesis
    by (simp add: m_def n_def)
qed

lemma utf8_inj: "utf8 s = utf8 t \<longleftrightarrow> s = t"
proof
  show "utf8 s = utf8 t \<Longrightarrow> s = t"
  proof (induction s arbitrary: t)
    case Nil
    then show ?case
      using utf8_char_nonempty by (cases t) (auto simp: utf8_def simp del: utf8_char.simps)
  next
    case (Cons c s)
    then obtain d t' where t: "t = d # t'"
      using utf8_char_nonempty by (cases t) (auto simp: utf8_def simp del: utf8_char.simps)
    with Cons.prems have "utf8_char c @ utf8 s = utf8_char d @ utf8 t'"
      by (simp add: utf8_def)
    then have "c = d" and "utf8 s = utf8 t'"
      using utf8_char_inj_append by blast+
    with Cons.IH t show ?case
      by simp
  qed
qed simp

subsection \<open>Lists and maps\<close>

lemma find_filter_hd: "find P xs = (case filter P xs of [] \<Rightarrow> None | x # _ \<Rightarrow> Some x)"
  by (induction xs) auto

lemma find_append: "find P (xs @ ys) = (case find P xs of None \<Rightarrow> find P ys | Some x \<Rightarrow> Some x)"
  by (induction xs) auto

lemma find_map: "find P (map f xs) = map_option f (find (\<lambda>x. P (f x)) xs)"
  by (induction xs) auto

lemma find_SomeD: "find P xs = Some x \<Longrightarrow> x \<in> set xs \<and> P x"
  by (auto simp: find_Some_iff)

lemma find_unique:
  assumes "x \<in> set xs" and "P x" and "\<And>y. y \<in> set xs \<Longrightarrow> P y \<Longrightarrow> y = x"
  shows "find P xs = Some x"
proof (cases "find P xs")
  case None
  with assms(1,2) show ?thesis by (auto simp: find_None_iff)
next
  case (Some y)
  with find_SomeD [OF Some] assms(3) show ?thesis by simp
qed

lemma map_upd_agree: "k \<noteq> k' \<Longrightarrow> (m(k \<mapsto> v)) k' = m k'"
  by simp

lemma set_filter_map_if:
  "set (map (\<lambda>x. if P x then f x else x) xs) = f ` {x \<in> set xs. P x} \<union> {x \<in> set xs. \<not> P x}"
  by (induction xs) auto

lemma map_if_same_key:
  assumes "\<And>x. g (f x) = g x"
  shows "map g (map (\<lambda>x. if P x then f x else x) xs) = map g xs"
  using assms by (induction xs) auto

lemma filter_map_if_absorb:
  assumes "\<And>x. P x \<Longrightarrow> \<not> Q x" and "\<And>x. P x \<Longrightarrow> \<not> Q (f x)"
  shows "filter Q (map (\<lambda>x. if P x then f x else x) xs) = filter Q xs"
  using assms by (induction xs) auto

end
