(* ===== verification/JsRegex.thy ===== *)
theory JsRegex
  imports Prelude
begin

text \<open>
  The part of JavaScript's regular expressions the sources use: literals, character classes,
  sequence, ordered choice, greedy repetition, word boundaries, the end of the text, and the flags
  \<open>i\<close> and \<open>g\<close>. A place is a position of a text, given by what stands before it, last character
  first, and what stands after it. \<open>matches r p\<close> lists where a match of \<open>r\<close> from \<open>p\<close> may end,
  in the order in which the backtracking matcher of ECMAScript tries them, so that its head is
  the match the engine reports; a repetition gives up a turn that consumed nothing.
  \<open>search\<close>, \<open>regex_test\<close> and \<open>replace_all\<close> are \<open>exec\<close>, \<open>test\<close> and \<open>replace\<close> with the flag \<open>g\<close>,
  the last for a replacement text without \<open>$\<close>.

  The lemmas describe the set of ends of a match, its greedy choice, and what a replacement leaves
  of a text: up to the first character of an inserted text the result is the original.
\<close>

named_theorems regex_in \<open>where the matches of a regular expression may end\<close>
named_theorems spans_rules \<open>which texts a regular expression matches\<close>

section \<open>Characters\<close>

abbreviation code :: "char \<Rightarrow> nat" where
  "code c \<equiv> of_char c"

definition is_upper :: "char \<Rightarrow> bool" where
  "is_upper c \<longleftrightarrow> 65 \<le> code c \<and> code c \<le> 90"

definition is_lower :: "char \<Rightarrow> bool" where
  "is_lower c \<longleftrightarrow> 97 \<le> code c \<and> code c \<le> 122"

definition is_alpha :: "char \<Rightarrow> bool" where
  "is_alpha c \<longleftrightarrow> is_upper c \<or> is_lower c"

definition digit_char :: "char \<Rightarrow> bool" where
  "digit_char c \<longleftrightarrow> 48 \<le> code c \<and> code c \<le> 57"

text \<open>\<open>\w\<close> and \<open>\s\<close>, the latter on code units below 256: tab to carriage return, blank, and the
  no-break space.\<close>

definition is_word :: "char \<Rightarrow> bool" where
  "is_word c \<longleftrightarrow> is_alpha c \<or> digit_char c \<or> c = CHR ''_''"

definition is_space :: "char \<Rightarrow> bool" where
  "is_space c \<longleftrightarrow> 9 \<le> code c \<and> code c \<le> 13 \<or> code c = 32 \<or> code c = 160"

definition to_upper :: "char \<Rightarrow> char" where
  "to_upper c = (if is_lower c then char_of (code c - 32) else c)"

definition to_lower :: "char \<Rightarrow> char" where
  "to_lower c = (if is_upper c then char_of (code c + 32) else c)"

text \<open>The flag \<open>i\<close> on a class of ASCII characters.\<close>

definition ignore_case :: "(char \<Rightarrow> bool) \<Rightarrow> char \<Rightarrow> bool" where
  "ignore_case P c \<longleftrightarrow> P c \<or> P (to_upper c) \<or> P (to_lower c)"

lemmas char_class_defs = is_upper_def is_lower_def is_alpha_def digit_char_def is_word_def is_space_def

section \<open>Matching\<close>

type_synonym place = "string \<times> string"

definition word_at :: "string \<Rightarrow> bool" where
  "word_at s = (case s of [] \<Rightarrow> False | c # _ \<Rightarrow> is_word c)"

definition boundary :: "place \<Rightarrow> bool" where
  "boundary p \<longleftrightarrow> word_at (fst p) \<noteq> word_at (snd p)"

datatype regex =
    Eps
  | Cls "char \<Rightarrow> bool"
  | Boundary
  | End
  | Seq regex regex
  | Alt regex regex
  | Star regex

function matches :: "regex \<Rightarrow> place \<Rightarrow> place list" where
  "matches Eps p = [p]"
| "matches (Cls P) p =
     (case snd p of [] \<Rightarrow> [] | c # rest \<Rightarrow> if P c then [(c # fst p, rest)] else [])"
| "matches Boundary p = (if boundary p then [p] else [])"
| "matches End p = (if snd p = [] then [p] else [])"
| "matches (Seq a b) p = concat (map (matches b) (matches a p))"
| "matches (Alt a b) p = matches a p @ matches b p"
| "matches (Star a) p =
     concat (map (\<lambda>q. if length (snd q) < length (snd p) then matches (Star a) q else []) (matches a p))
     @ [p]"
  by pat_completeness auto
termination
  by (relation "measures [\<lambda>(r, p). size r, \<lambda>(r, p). length (snd p)]") auto

declare matches.simps(7) [simp del]

text \<open>\<open>a+\<close>, \<open>a?\<close>, \<open>a{2,}\<close>, a sequence of several terms, and a literal text under the flag \<open>i\<close>.\<close>

definition Plus :: "regex \<Rightarrow> regex" where
  "Plus a = Seq a (Star a)"

definition Opt :: "regex \<Rightarrow> regex" where
  "Opt a = Alt a Eps"

definition At_least_two :: "regex \<Rightarrow> regex" where
  "At_least_two a = Seq a (Seq a (Star a))"

primrec seq :: "regex list \<Rightarrow> regex" where
  "seq [] = Eps"
| "seq (a # as) = Seq a (seq as)"

primrec lit_i :: "string \<Rightarrow> regex" where
  "lit_i [] = Eps"
| "lit_i (c # cs) = Seq (Cls (ignore_case (\<lambda>x. x = c))) (lit_i cs)"

fun search :: "regex \<Rightarrow> string \<Rightarrow> string \<Rightarrow> (place \<times> place) option" where
  "search r pre [] = (case matches r (pre, []) of [] \<Rightarrow> None | q # _ \<Rightarrow> Some ((pre, []), q))"
| "search r pre (c # rest) =
     (case matches r (pre, c # rest) of
        [] \<Rightarrow> search r (c # pre) rest
      | q # _ \<Rightarrow> Some ((pre, c # rest), q))"

definition regex_test :: "regex \<Rightarrow> string \<Rightarrow> bool" where
  "regex_test r s \<longleftrightarrow> search r [] s \<noteq> None"

text \<open>After an empty match the search goes on one character further.\<close>

function replace_from :: "regex \<Rightarrow> string \<Rightarrow> string \<Rightarrow> string \<Rightarrow> string" where
  "replace_from r new pre rest =
     (case matches r (pre, rest) of
        [] \<Rightarrow> (case rest of [] \<Rightarrow> [] | c # cs \<Rightarrow> c # replace_from r new (c # pre) cs)
      | q # _ \<Rightarrow>
          if length (snd q) < length rest then new @ replace_from r new (fst q) (snd q)
          else new @ (case rest of [] \<Rightarrow> [] | c # cs \<Rightarrow> c # replace_from r new (c # pre) cs))"
  by pat_completeness auto
termination
  by (relation "measure (\<lambda>(r, new, pre, rest). length rest)") auto

declare replace_from.simps [simp del]

definition replace_all :: "regex \<Rightarrow> string \<Rightarrow> string \<Rightarrow> string" where
  "replace_all r new s = replace_from r new [] s"

section \<open>Where a match may end\<close>

lemma in_Star:
  "q \<in> set (matches (Star a) p) \<longleftrightarrow>
     q = p \<or> (\<exists>m \<in> set (matches a p). length (snd m) < length (snd p) \<and> q \<in> set (matches (Star a) m))"
  by (subst matches.simps(7)) (auto split: if_splits)

lemma matches_forward:
  "(pre', rest') \<in> set (matches r (pre, rest)) \<Longrightarrow> \<exists>u. rest = u @ rest' \<and> pre' = rev u @ pre"
proof (induction r "(pre, rest)" arbitrary: pre rest pre' rest' rule: matches.induct)
  case (2 P)
  then show ?case by (auto split: list.splits if_splits intro: exI [of _ "[x]" for x])
next
  case (5 a b)
  then obtain p1 r1 where 1: "(p1, r1) \<in> set (matches a (pre, rest))" "(pre', rest') \<in> set (matches b (p1, r1))"
    by auto
  obtain u where "rest = u @ r1" "p1 = rev u @ pre" using 5(1) [OF 1(1)] by blast
  moreover obtain v where "r1 = v @ rest'" "pre' = rev v @ p1" using 5(2) [OF 1] by blast
  ultimately show ?case by (intro exI [of _ "u @ v"]) simp
next
  case (7 a)
  consider "(pre', rest') = (pre, rest)"
    | p1 r1 where "(p1, r1) \<in> set (matches a (pre, rest))" "length r1 < length rest"
        "(pre', rest') \<in> set (matches (Star a) (p1, r1))"
    using 7(3) unfolding in_Star [of _ a "(pre, rest)"] by force
  then show ?case
  proof cases
    case (2 p1 r1)
    obtain u where "rest = u @ r1" "p1 = rev u @ pre" using 7(1) [OF 2(1)] by blast
    moreover obtain v where "r1 = v @ rest'" "pre' = rev v @ p1" using 7(2) [OF 2(1) _ 2(3)] 2(2) by auto
    ultimately show ?thesis by (intro exI [of _ "u @ v"]) simp
  qed simp
qed (auto split: if_splits)

lemma nonempty_iff: "xs \<noteq> [] \<longleftrightarrow> (\<exists>x. x \<in> set xs)"
  by (cases xs) auto

lemma in_Eps [regex_in]: "q \<in> set (matches Eps p) \<longleftrightarrow> q = p"
  by simp

lemma in_Cls [regex_in]:
  "q \<in> set (matches (Cls P) (pre, rest)) \<longleftrightarrow> (\<exists>c cs. rest = c # cs \<and> P c \<and> q = (c # pre, cs))"
  by (auto split: list.splits)

lemma in_Boundary [regex_in]: "q \<in> set (matches Boundary p) \<longleftrightarrow> boundary p \<and> q = p"
  by auto

lemma in_Seq [regex_in]:
  "q \<in> set (matches (Seq a b) p) \<longleftrightarrow> (\<exists>m. m \<in> set (matches a p) \<and> q \<in> set (matches b m))"
  by auto

lemma in_Alt [regex_in]: "q \<in> set (matches (Alt a b) p) \<longleftrightarrow> q \<in> set (matches a p) \<or> q \<in> set (matches b p)"
  by simp

lemma Star_Cls:
  "matches (Star (Cls P)) (pre, rest) =
     (case rest of [] \<Rightarrow> [(pre, rest)]
      | c # cs \<Rightarrow> if P c then matches (Star (Cls P)) (c # pre, cs) @ [(pre, rest)] else [(pre, rest)])"
  by (subst matches.simps(7)) (simp split: list.split)

lemma in_Star_Cls [regex_in]:
  "q \<in> set (matches (Star (Cls P)) (pre, rest)) \<longleftrightarrow>
     (\<exists>u cs. rest = u @ cs \<and> list_all P u \<and> q = (rev u @ pre, cs))"
proof (induction rest arbitrary: pre)
  case (Cons c cs)
  show ?case
    unfolding Star_Cls [of P pre "c # cs"]
  proof (cases "P c", goal_cases)
    case 1
    then have "q \<in> set (matches (Star (Cls P)) (c # pre, cs)) \<longleftrightarrow>
        (\<exists>u ds. c # cs = (c # u) @ ds \<and> list_all P (c # u) \<and> q = (rev (c # u) @ pre, ds))"
      by (simp add: Cons.IH)
    with 1 show ?case
      by (auto simp: Cons_eq_append_conv intro: exI [of _ "[]"]) 
  next
    case 2
    then show ?case by (auto simp: Cons_eq_append_conv)
  qed
qed (simp add: Star_Cls)

text \<open>\<open>spans r L\<close>: from every place \<open>r\<close> matches exactly the texts in \<open>L\<close>.\<close>

definition spans :: "regex \<Rightarrow> (string \<Rightarrow> bool) \<Rightarrow> bool" where
  "spans r L \<longleftrightarrow>
     (\<forall>pre rest q. q \<in> set (matches r (pre, rest)) \<longleftrightarrow>
        (\<exists>u cs. rest = u @ cs \<and> L u \<and> q = (rev u @ pre, cs)))"

definition same_text :: "string \<Rightarrow> string \<Rightarrow> bool" where
  "same_text w u \<longleftrightarrow> list_all2 (\<lambda>c x. ignore_case (\<lambda>y. y = c) x) w u"

definition followed_by :: "(string \<Rightarrow> bool) \<Rightarrow> (string \<Rightarrow> bool) \<Rightarrow> string \<Rightarrow> bool" where
  "followed_by A B u \<longleftrightarrow> (\<exists>x y. u = x @ y \<and> A x \<and> B y)"

lemma followed_byI: "A x \<Longrightarrow> B y \<Longrightarrow> followed_by A B (x @ y)"
  by (auto simp: followed_by_def)

lemma followed_byE: "followed_by A B u \<Longrightarrow> (\<And>x y. u = x @ y \<Longrightarrow> A x \<Longrightarrow> B y \<Longrightarrow> thesis) \<Longrightarrow> thesis"
  by (auto simp: followed_by_def)

lemma followed_by_single:
  "followed_by (\<lambda>u. \<exists>c. u = [c] \<and> P c) B u \<longleftrightarrow> (\<exists>c v. u = c # v \<and> P c \<and> B v)"
proof
  assume "\<exists>c v. u = c # v \<and> P c \<and> B v"
  then obtain c v where "u = [c] @ v" "P c" "B v" by auto
  then show "followed_by (\<lambda>u. \<exists>c. u = [c] \<and> P c) B u"
    by (auto intro!: followed_byI simp del: append_Cons)
qed (auto simp: followed_by_def)

lemma spansD:
  "spans r L \<Longrightarrow> q \<in> set (matches r (pre, rest)) \<longleftrightarrow> (\<exists>u cs. rest = u @ cs \<and> L u \<and> q = (rev u @ pre, cs))"
  unfolding spans_def by blast

lemma spans_Eps [spans_rules]: "spans Eps (\<lambda>u. u = [])"
  by (auto simp: spans_def)

lemma spans_Cls [spans_rules]: "spans (Cls P) (\<lambda>u. \<exists>c. u = [c] \<and> P c)"
  unfolding spans_def in_Cls by auto

lemma spans_Alt [spans_rules]: "spans a A \<Longrightarrow> spans b B \<Longrightarrow> spans (Alt a b) (\<lambda>u. A u \<or> B u)"
  by (simp add: spans_def ex_disj_distrib conj_disj_distribL conj_disj_distribR)

lemma spans_Seq [spans_rules]:
  assumes "spans a A" and "spans b B"
  shows "spans (Seq a b) (followed_by A B)"
  unfolding spans_def
proof (intro allI iffI)
  fix pre rest q
  assume "q \<in> set (matches (Seq a b) (pre, rest))"
  then obtain x cs where "rest = x @ cs" "A x" "q \<in> set (matches b (rev x @ pre, cs))"
    unfolding in_Seq spansD [OF assms(1)] by blast
  moreover then obtain y ds where "cs = y @ ds" "B y" "q = (rev y @ rev x @ pre, ds)"
    unfolding spansD [OF assms(2)] by blast
  ultimately show "\<exists>u cs. rest = u @ cs \<and> followed_by A B u \<and> q = (rev u @ pre, cs)"
    by (intro exI [of _ "x @ y"] exI [of _ ds]) (auto simp: followed_by_def)
next
  fix pre rest q
  assume "\<exists>u cs. rest = u @ cs \<and> followed_by A B u \<and> q = (rev u @ pre, cs)"
  then obtain x y cs where "rest = x @ y @ cs" "A x" "B y" "q = (rev y @ rev x @ pre, cs)"
    by (auto simp: followed_by_def)
  then show "q \<in> set (matches (Seq a b) (pre, rest))"
    unfolding in_Seq
    by (intro exI [of _ "(rev x @ pre, y @ cs)"]) (auto simp: spansD [OF assms(1)] spansD [OF assms(2)])
qed

lemma spans_seq_Cons [spans_rules]:
  "spans a A \<Longrightarrow> spans (seq (b # bs)) B \<Longrightarrow> spans (seq (a # b # bs)) (followed_by A B)"
  by (simp add: spans_Seq)

lemma spans_seq_single [spans_rules]: "spans a A \<Longrightarrow> spans (seq [a]) A"
proof -
  have "followed_by A (\<lambda>u. u = []) = A"
    by (simp add: fun_eq_iff followed_by_def)
  then show "spans a A \<Longrightarrow> spans (seq [a]) A"
    using spans_Seq [OF _ spans_Eps, of a A] by simp
qed

lemma spans_Star_Cls [spans_rules]: "spans (Star (Cls P)) (list_all P)"
  unfolding spans_def in_Star_Cls by blast

lemma spans_lit_i [spans_rules]: "spans (lit_i w) (same_text w)"
proof (induction w)
  case Nil
  then show ?case using spans_Eps by (simp add: same_text_def)
next
  case (Cons c w)
  have "same_text (c # w) = followed_by (\<lambda>u. \<exists>d. u = [d] \<and> ignore_case (\<lambda>z. z = c) d) (same_text w)"
    by (auto simp: same_text_def list_all2_Cons1 fun_eq_iff followed_by_single)
  then show ?case
    using spans_Seq [OF spans_Cls Cons] by simp
qed

lemma spans_Plus_Cls [spans_rules]: "spans (Plus (Cls P)) (\<lambda>u. u \<noteq> [] \<and> list_all P u)"
proof -
  have "(\<lambda>u. u \<noteq> [] \<and> list_all P u) = followed_by (\<lambda>u. \<exists>c. u = [c] \<and> P c) (list_all P)"
    by (auto simp: fun_eq_iff neq_Nil_conv followed_by_single)
  then show ?thesis
    unfolding Plus_def using spans_Seq [OF spans_Cls spans_Star_Cls] by simp
qed

lemma spans_Opt_Cls [spans_rules]: "spans (Opt (Cls P)) (\<lambda>u. (\<exists>c. u = [c] \<and> P c) \<or> u = [])"
  unfolding Opt_def by (intro spans_rules)

lemma spans_At_least_two_Cls [spans_rules]:
  "spans (At_least_two (Cls P)) (\<lambda>u. 2 \<le> length u \<and> list_all P u)"
proof -
  have "(\<lambda>u. 2 \<le> length u \<and> list_all P u) =
      followed_by (\<lambda>u. \<exists>c. u = [c] \<and> P c) (\<lambda>u. u \<noteq> [] \<and> list_all P u)"
    by (auto simp: fun_eq_iff neq_Nil_conv followed_by_single Suc_le_length_iff numeral_2_eq_2)
  then show ?thesis
    using spans_Seq [OF spans_Cls spans_Plus_Cls] by (simp add: At_least_two_def Plus_def)
qed

lemma bounded_nonempty:
  assumes "spans r L"
  shows "matches (Seq Boundary r) (pre, s) \<noteq> [] \<longleftrightarrow> boundary (pre, s) \<and> (\<exists>u cs. s = u @ cs \<and> L u)"
  unfolding nonempty_iff in_Seq in_Boundary using spansD [OF assms, of _ pre s] by blast

section \<open>The greedy choice\<close>

lemma Star_nonempty [simp]: "matches (Star a) p \<noteq> []"
  by (subst matches.simps(7)) simp

lemma hd_Star_Cls: "hd (matches (Star (Cls P)) (pre, rest)) = (rev (takeWhile P rest) @ pre, dropWhile P rest)"
proof (induction rest arbitrary: pre)
  case (Cons c cs)
  then show ?case
    unfolding Star_Cls [of P pre "c # cs"] by (simp del: matches.simps)
qed (simp add: Star_Cls)

lemma hd_Seq_Star:
  "matches a p \<noteq> [] \<Longrightarrow> hd (matches (Seq a (Star b)) p) = hd (matches (Star b) (hd (matches a p)))"
  by (cases "matches a p") simp_all

lemma Seq_Star_nonempty: "matches (Seq a (Star b)) p \<noteq> [] \<longleftrightarrow> matches a p \<noteq> []"
  by (cases "matches a p") simp_all

lemma Seq_assoc: "matches (Seq (Seq a b) c) p = matches (Seq a (Seq b c)) p"
proof -
  have "concat (map f (concat (map g xs))) = concat (map (\<lambda>x. concat (map f (g x))) xs)" for f g and xs :: "place list"
    by (induction xs) auto
  moreover have "matches (Seq b c) = (\<lambda>p. concat (map (matches c) (matches b p)))"
    by (rule ext) simp
  ultimately show ?thesis by simp
qed

lemma Seq_cong: "(\<And>p. matches b p = matches c p) \<Longrightarrow> matches (Seq a b) p = matches (Seq a c) p"
  by (simp add: ext [of "matches b" "matches c"])

lemma seq_snoc: "matches (seq (as @ [a])) p = matches (Seq (seq as) a) p"
proof (induction as arbitrary: p)
  case Nil
  have "concat (map (matches Eps) xs) = xs" for xs
    by (induction xs) auto
  then show ?case by simp
next
  case (Cons b as)
  have "matches (seq ((b # as) @ [a])) p = matches (Seq b (Seq (seq as) a)) p"
    unfolding append_Cons seq.simps by (rule Seq_cong) (rule Cons)
  then show ?case
    unfolding seq.simps Seq_assoc .
qed

lemma greedy_end:
  assumes "matches (Seq a (Star (Cls P))) p = q # qs"
  shows "snd q = [] \<or> \<not> P (hd (snd q))"
proof -
  have "matches a p \<noteq> []"
    using assms Seq_Star_nonempty [of a "Cls P" p] by simp
  then have "q = hd (matches (Star (Cls P)) (hd (matches a p)))"
    using hd_Seq_Star [of a p "Cls P"] assms by simp
  then show ?thesis
    by (cases "hd (matches a p)") (use hd_dropWhile [of P] in \<open>auto simp: hd_Star_Cls\<close>)
qed

lemma matches_hd: "matches r p \<noteq> [] \<Longrightarrow> hd (matches r p) \<in> set (matches r p)"
  by simp

section \<open>Occurrences\<close>

fun occurs :: "regex \<Rightarrow> string \<Rightarrow> string \<Rightarrow> bool" where
  "occurs r pre [] = (matches r (pre, []) \<noteq> [])"
| "occurs r pre (c # rest) = (matches r (pre, c # rest) \<noteq> [] \<or> occurs r (c # pre) rest)"

lemma search_iff_occurs: "search r pre rest \<noteq> None \<longleftrightarrow> occurs r pre rest"
  by (induction r pre rest rule: search.induct) (auto split: list.splits)

lemma regex_test_iff: "regex_test r s \<longleftrightarrow> (\<exists>u v. s = u @ v \<and> matches r (rev u, v) \<noteq> [])"
proof -
  have "occurs r pre rest \<longleftrightarrow> (\<exists>u v. rest = u @ v \<and> matches r (rev u @ pre, v) \<noteq> [])" for pre rest
  proof (induction r pre rest rule: occurs.induct)
    case (2 r pre c rest)
    have "(\<exists>u v. c # rest = u @ v \<and> Q u v) \<longleftrightarrow> Q [] (c # rest) \<or> (\<exists>u v. rest = u @ v \<and> Q (c # u) v)" for Q
      by (auto simp: Cons_eq_append_conv)
    then show ?case using 2 by simp
  qed simp
  from this [of "[]" s] show ?thesis
    unfolding regex_test_def search_iff_occurs by simp
qed

lemma occurs_append:
  "occurs r pre (u @ v) \<longleftrightarrow>
     (\<exists>k < length u. matches r (rev (take k u) @ pre, drop k u @ v) \<noteq> []) \<or> occurs r (rev u @ pre) v"
proof (induction u arbitrary: pre)
  case (Cons c u)
  have "(\<exists>k < length (c # u). Q k) \<longleftrightarrow> Q 0 \<or> (\<exists>k < length u. Q (Suc k))" for Q
    by (auto simp: less_Suc_eq_0_disj)
  with Cons show ?case by simp
qed simp

section \<open>What a replacement leaves\<close>

text \<open>
  A replacement whose pattern consumes a character at every match and whose text begins with a
  mark and ends outside a word.
\<close>

locale marked_replacement =
  fixes r :: regex and new :: string and mark :: char
  assumes consumes: "q \<in> set (matches r p) \<Longrightarrow> length (snd q) < length (snd p)"
    and marked: "new \<noteq> []" "hd new = mark" "\<not> is_word (last new)"
begin

lemma replace_miss:
  "matches r (pre, c # cs) = [] \<Longrightarrow>
   replace_from r new pre (c # cs) = c # replace_from r new (c # pre) cs"
  by (subst replace_from.simps) simp

lemma replace_hit:
  "matches r (pre, rest) = q # qs \<Longrightarrow>
   replace_from r new pre rest = new @ replace_from r new (fst q) (snd q)"
  using consumes [of q "(pre, rest)"] by (subst replace_from.simps) simp

lemma no_match_at_end: "matches r (pre, []) = []"
  using consumes [of _ "(pre, [])"] by (cases "matches r (pre, [])") auto

lemma replace_end: "replace_from r new pre [] = []"
  by (subst replace_from.simps) (simp add: no_match_at_end)

lemma replaced_first:
  assumes "replace_from r new pre rest = c # out"
  obtains (copied) cs where "rest = c # cs" and "out = replace_from r new (c # pre) cs"
    and "matches r (pre, rest) = []"
  | (inserted) d cs where "rest = d # cs" and "matches r (pre, rest) \<noteq> []" and "c = mark"
proof (cases "matches r (pre, rest)")
  case Nil
  then obtain d cs where rest: "rest = d # cs"
    using assms replace_end by (cases rest) auto
  with Nil assms show ?thesis
    by (intro copied) (auto simp: replace_miss)
next
  case (Cons q qs)
  moreover obtain d cs where "rest = d # cs"
    using Cons no_match_at_end by (cases rest) auto
  ultimately show ?thesis
    using assms marked(1,2) replace_hit [OF Cons] by (intro inserted) (auto simp: Cons_eq_append_conv)
qed

lemma copied_prefix:
  assumes "replace_from r new pre rest = u @ out" and "mark \<notin> set u"
  obtains rest' where "rest = u @ rest'" and "out = replace_from r new (rev u @ pre) rest'"
  using assms
proof (induction u arbitrary: pre rest thesis)
  case (Cons c u)
  from Cons.prems(2,3) have first: "replace_from r new pre rest = c # (u @ out)" by simp
  then show ?case
  proof (cases rule: replaced_first)
    case (copied cs)
    then show ?thesis
      using Cons.IH [of cs "c # pre" thesis] Cons.prems by auto
  next
    case (inserted d cs)
    then show ?thesis using Cons.prems(3) by simp
  qed
qed simp

lemma replaced_to_nothing: "replace_from r new pre rest = [] \<Longrightarrow> rest = []"
  using replace_hit [of pre rest] replace_miss [of pre] marked(1)
  by (cases "matches r (pre, rest)"; cases rest) auto

end

text \<open>
  A pattern \<open>P\<close> no match of which begins in the inserted text, and every match of which that
  begins at a copied character was already a match there.
\<close>

locale absent_after = marked_replacement +
  fixes P :: regex
  assumes starts: "k < length new \<Longrightarrow> matches P (rev (take k new) @ pre', drop k new @ out) = []"
    and transfers: "matches r (pre, rest) = [] \<Longrightarrow> boundary (pre', rest) \<longrightarrow> boundary (pre, rest) \<Longrightarrow>
      matches P (pre', replace_from r new pre rest) \<noteq> [] \<Longrightarrow> matches P (pre, rest) \<noteq> []"
    and separates: "matches r p = q # qs \<Longrightarrow> \<not> (word_at (fst q) \<and> word_at (snd q))"
begin

lemma replaced_absent:
  assumes "boundary (pre', rest) \<longrightarrow> boundary (pre, rest)"
    and "\<And>u v. rest = u @ v \<Longrightarrow> matches r (rev u @ pre, v) = [] \<Longrightarrow> matches P (rev u @ pre, v) = []"
  shows "\<not> occurs P pre' (replace_from r new pre rest)"
  using assms
proof (induction "length rest" arbitrary: rest pre pre' rule: less_induct)
  case less
  note near = less(2) and gaps = less(3)
  show ?case
  proof (cases "matches r (pre, rest)")
    case Nil
    have here: "matches P (pre', replace_from r new pre rest) = []"
      using transfers [OF Nil near] gaps [of "[]" rest] Nil by auto
    show ?thesis
    proof (cases rest)
      case Nil
      then show ?thesis using here by (simp add: replace_end)
    next
      case (Cons c cs)
      have "\<not> occurs P (c # pre') (replace_from r new (c # pre) cs)"
      proof (rule less(1))
        show "boundary (c # pre', cs) \<longrightarrow> boundary (c # pre, cs)"
          by (simp add: boundary_def word_at_def)
        show "matches P (rev u @ c # pre, v) = []" if "cs = u @ v" "matches r (rev u @ c # pre, v) = []" for u v
          using gaps [of "c # u" v] that Cons by simp
      qed (simp add: Cons)
      with here Nil Cons show ?thesis by (simp add: replace_miss)
    qed
  next
    case (Cons q qs)
    obtain u where u: "rest = u @ snd q" "fst q = rev u @ pre"
      using matches_forward [of "fst q" "snd q" r pre rest] Cons by auto
    have "\<not> occurs P (rev new @ pre') (replace_from r new (fst q) (snd q))"
    proof (rule less(1))
      show "length (snd q) < length rest"
        using consumes [of q "(pre, rest)"] Cons by simp
      have "\<not> word_at (rev new @ pre')"
        using marked by (cases new rule: rev_cases) (auto simp: word_at_def)
      then show "boundary (rev new @ pre', snd q) \<longrightarrow> boundary (fst q, snd q)"
        using separates [OF Cons] by (auto simp: boundary_def)
      show "matches P (rev x @ fst q, v) = []" if "snd q = x @ v" "matches r (rev x @ fst q, v) = []" for x v
        using gaps [of "u @ x" v] that u by simp
    qed
    then show ?thesis
      unfolding replace_hit [OF Cons] occurs_append using starts by auto
  qed
qed

lemma replace_all_absent:
  assumes "\<And>u v. s = u @ v \<Longrightarrow> matches r (rev u, v) = [] \<Longrightarrow> matches P (rev u, v) = []"
  shows "\<not> regex_test P (replace_all r new s)"
  using replaced_absent [of "[]" s "[]"] assms
  unfolding replace_all_def regex_test_def search_iff_occurs by simp

end

end
