(* ===== verification/Redaction.thy ===== *)
theory Redaction
  imports JsRegex
begin

text \<open>
  The last pass over operational text (\<open>services/control-plane/src/redaction.ts\<close>): three patterns,
  for bearer tokens, for assignments to a name that speaks of a secret, and for mail addresses,
  each replaced wherever it occurs, and the result cut to 500 characters.
\<close>

section \<open>The patterns\<close>

definition token_char :: "char \<Rightarrow> bool" where
  "token_char c \<longleftrightarrow> is_alpha c \<or> digit_char c \<or> c \<in> set ''._~+/-''"

definition value_char :: "char \<Rightarrow> bool" where
  "value_char c \<longleftrightarrow> \<not> (is_space c \<or> c = CHR '','' \<or> c = CHR '';'')"

definition local_char :: "char \<Rightarrow> bool" where
  "local_char c \<longleftrightarrow> is_alpha c \<or> digit_char c \<or> c \<in> set ''._%+-''"

definition domain_char :: "char \<Rightarrow> bool" where
  "domain_char c \<longleftrightarrow> is_alpha c \<or> digit_char c \<or> c \<in> set ''.-''"

definition secret_name :: regex where
  "secret_name =
     Alt (seq [lit_i ''api'', Opt (Cls (\<lambda>c. c = CHR ''_'' \<or> c = CHR ''-'')), lit_i ''key''])
    (Alt (lit_i ''token'') (Alt (lit_i ''password'') (lit_i ''credential'')))"

definition bearer_pattern :: regex where
  "bearer_pattern =
     seq [Boundary, lit_i ''Bearer'', Plus (Cls is_space), Plus (Cls (ignore_case token_char)),
          Star (Cls (\<lambda>c. c = CHR ''=''))]"

definition assignment_pattern :: regex where
  "assignment_pattern =
     seq [Boundary, secret_name, Star (Cls is_space), Cls (\<lambda>c. c = CHR '':'' \<or> c = CHR ''=''),
          Star (Cls is_space), Plus (Cls value_char)]"

definition mail_pattern :: regex where
  "mail_pattern =
     seq [Boundary, Plus (Cls local_char), Cls (\<lambda>c. c = CHR ''@''), Plus (Cls domain_char),
          Cls (\<lambda>c. c = CHR ''.''), At_least_two (Cls is_alpha), Boundary]"

definition secretPatterns :: "regex list" where
  "secretPatterns = [bearer_pattern, assignment_pattern, mail_pattern]"

definition redacted_mark :: string where
  "redacted_mark = ''[REDACTED]''"

text \<open>The \<open>reduce\<close> over the patterns, before the cut.\<close>

definition redact_all :: "string \<Rightarrow> string" where
  "redact_all value = fold (\<lambda>pattern safe. replace_all pattern redacted_mark safe) secretPatterns value"

definition redactOperationalText :: "string \<Rightarrow> string" where
  "redactOperationalText value = take 500 (redact_all value)"

definition safeErrorClass :: "'e \<Rightarrow> string option \<Rightarrow> string" where
  "safeErrorClass err fallback =
     (case fallback of None \<Rightarrow> ''runtime_operation_failed'' | Some f \<Rightarrow> f)"

section \<open>Where the patterns match\<close>

abbreviation chars :: "(char \<Rightarrow> bool) \<Rightarrow> string \<Rightarrow> bool" where
  "chars P u \<equiv> u \<noteq> [] \<and> list_all P u"

definition secret_name_text :: "string \<Rightarrow> bool" where
  "secret_name_text u \<longleftrightarrow>
     followed_by (same_text ''api'')
       (followed_by (\<lambda>m. (\<exists>c. m = [c] \<and> (c = CHR ''_'' \<or> c = CHR ''-'')) \<or> m = []) (same_text ''key'')) u \<or>
     same_text ''token'' u \<or> same_text ''password'' u \<or> same_text ''credential'' u"

definition bearer_text :: "string \<Rightarrow> bool" where
  "bearer_text =
     followed_by (same_text ''Bearer'') (followed_by (chars is_space)
       (followed_by (chars (ignore_case token_char)) (list_all (\<lambda>c. c = CHR ''=''))))"

definition assignment_text :: "string \<Rightarrow> bool" where
  "assignment_text =
     followed_by secret_name_text (followed_by (list_all is_space)
       (followed_by (\<lambda>u. \<exists>c. u = [c] \<and> (c = CHR '':'' \<or> c = CHR ''=''))
         (followed_by (list_all is_space) (chars value_char))))"

definition mail_text :: "string \<Rightarrow> bool" where
  "mail_text =
     followed_by (chars local_char) (followed_by (\<lambda>u. \<exists>c. u = [c] \<and> c = CHR ''@'')
       (followed_by (chars domain_char) (followed_by (\<lambda>u. \<exists>c. u = [c] \<and> c = CHR ''.'')
         (\<lambda>u. 2 \<le> length u \<and> list_all is_alpha u))))"

lemma spans_secret_name [spans_rules]: "spans secret_name secret_name_text"
  unfolding secret_name_def secret_name_text_def by (intro spans_rules)

lemma bearer_iff:
  "matches bearer_pattern (pre, s) \<noteq> [] \<longleftrightarrow> boundary (pre, s) \<and> (\<exists>u cs. s = u @ cs \<and> bearer_text u)"
  unfolding bearer_pattern_def bearer_text_def seq.simps(2) [of Boundary]
  by (intro bounded_nonempty spans_rules)

lemma assignment_iff:
  "matches assignment_pattern (pre, s) \<noteq> [] \<longleftrightarrow>
     boundary (pre, s) \<and> (\<exists>u cs. s = u @ cs \<and> assignment_text u)"
  unfolding assignment_pattern_def assignment_text_def seq.simps(2) [of Boundary]
  by (intro bounded_nonempty spans_rules)

lemma in_mail:
  "q \<in> set (matches mail_pattern (pre, s)) \<longleftrightarrow>
     boundary (pre, s) \<and> boundary q \<and> (\<exists>u cs. s = u @ cs \<and> mail_text u \<and> q = (rev u @ pre, cs))"
proof -
  let ?parts = "[Plus (Cls local_char), Cls (\<lambda>c. c = CHR ''@''), Plus (Cls domain_char),
    Cls (\<lambda>c. c = CHR ''.''), At_least_two (Cls is_alpha)]"
  have spans: "spans (seq ?parts) mail_text"
    unfolding mail_text_def by (intro spans_rules)
  have "matches mail_pattern (pre, s) = matches (Seq (seq (Boundary # ?parts)) Boundary) (pre, s)"
    unfolding mail_pattern_def using seq_snoc [of "Boundary # ?parts" Boundary "(pre, s)"]
    by (simp only: append_Cons append_Nil)
  then show ?thesis
    unfolding seq.simps(2) [of Boundary] in_Seq in_Boundary using spansD [OF spans, of q pre s] by auto
qed

lemma mail_iff:
  "matches mail_pattern (pre, s) \<noteq> [] \<longleftrightarrow>
     boundary (pre, s) \<and> (\<exists>u cs. s = u @ cs \<and> mail_text u \<and> boundary (rev u @ pre, cs))"
  unfolding nonempty_iff in_mail by blast

subsection \<open>Characters of the matched texts\<close>

lemma alpha_ignore_case: "ignore_case (\<lambda>y. y = c) x \<Longrightarrow> is_alpha c \<Longrightarrow> is_alpha x"
  by (auto simp: ignore_case_def to_upper_def to_lower_def is_alpha_def split: if_splits)

lemmas ignore_case_defs = ignore_case_def to_upper_def to_lower_def char_class_defs char_of_eq_iff

lemma same_text_alpha: "same_text w u \<Longrightarrow> list_all is_alpha w \<Longrightarrow> list_all is_alpha u"
  unfolding same_text_def by (induction rule: list_all2_induct) (auto intro: alpha_ignore_case)

lemma same_text_length: "same_text w u \<Longrightarrow> length u = length w"
  by (simp add: same_text_def list_all2_lengthD)

lemma alpha_words: 
  "list_all is_alpha ''Bearer''" "list_all is_alpha ''api''" "list_all is_alpha ''key''"
  "list_all is_alpha ''token''" "list_all is_alpha ''password''" "list_all is_alpha ''credential''"
  by (simp_all add: char_class_defs)

lemma mark_classes [simp]:
  "\<not> is_alpha CHR ''[''" "\<not> digit_char CHR ''[''" "\<not> is_space CHR ''[''" "\<not> is_word CHR ''[''"
  "\<not> token_char CHR ''[''" "\<not> ignore_case token_char CHR ''[''" "value_char CHR ''[''"
  "\<not> local_char CHR ''[''" "\<not> domain_char CHR ''[''"
  by (simp_all add: char_class_defs token_char_def ignore_case_def to_upper_def to_lower_def
      value_char_def local_char_def domain_char_def)

lemma word_classes:
  "is_alpha c \<Longrightarrow> is_word c" "is_word c \<Longrightarrow> ignore_case token_char c" "is_space c \<Longrightarrow> \<not> is_word c"
  "is_alpha c \<Longrightarrow> value_char c" "local_char c \<Longrightarrow> value_char c"
  by (auto simp: char_class_defs token_char_def ignore_case_def value_char_def local_char_def)

lemma not_in_list_all: "list_all P u \<Longrightarrow> \<not> P c \<Longrightarrow> c \<notin> set u"
  by (auto simp: list_all_iff)

lemma secret_name_chars:
  assumes "secret_name_text u"
  shows "u \<noteq> []" "is_alpha (hd u)" "CHR ''['' \<notin> set u"
proof -
  have word: "v \<noteq> [] \<and> is_alpha (hd v) \<and> CHR ''['' \<notin> set v"
    if "same_text w v" "list_all is_alpha w" "w \<noteq> []" for w v
    using same_text_alpha [OF that(1,2)] same_text_length [OF that(1)] that(3)
    by (cases v) (auto dest: not_in_list_all [where c = "CHR ''[''"])
  have "u \<noteq> [] \<and> is_alpha (hd u) \<and> CHR ''['' \<notin> set u"
    using assms alpha_words unfolding secret_name_text_def
    by (elim disjE followed_byE) (auto dest!: word)
  then show "u \<noteq> []" "is_alpha (hd u)" "CHR ''['' \<notin> set u" by simp_all
qed

lemma bearer_parts:
  assumes "bearer_text u"
  obtains b w c v where "u = b @ w @ c # v" and "same_text ''Bearer'' b" and "chars is_space w"
    and "ignore_case token_char c"
proof -
  from assms obtain b w x y where "u = b @ w @ x @ y" "same_text ''Bearer'' b" "chars is_space w"
      "chars (ignore_case token_char) x"
    unfolding bearer_text_def by (elim followed_byE) simp
  then show thesis by (cases x) (auto intro: that)
qed

lemma bearer_textI:
  assumes "same_text ''Bearer'' b" and "chars is_space w" and "ignore_case token_char c"
  shows "bearer_text (b @ w @ [c])"
proof -
  have "followed_by (chars (ignore_case token_char)) (list_all (\<lambda>c. c = CHR ''='')) ([c] @ [])"
    by (intro followed_byI) (simp_all add: assms(3))
  then show ?thesis
    unfolding bearer_text_def by (intro followed_byI assms(1,2)) simp
qed

lemma assignment_parts:
  assumes "assignment_text u"
  obtains n w s x c v where "u = n @ w @ s # x @ c # v" and "secret_name_text n" and "list_all is_space w"
    and "s = CHR '':'' \<or> s = CHR ''=''" and "list_all is_space x" and "value_char c"
proof -
  from assms obtain n w s x y where "u = n @ w @ s # x @ y" "secret_name_text n" "list_all is_space w"
      "s = CHR '':'' \<or> s = CHR ''=''" "list_all is_space x" "chars value_char y"
    unfolding assignment_text_def by (elim followed_byE exE conjE) simp
  then show thesis by (cases y) (auto intro: that)
qed

lemma assignment_textI:
  assumes "secret_name_text n" and "list_all is_space w" and "s = CHR '':'' \<or> s = CHR ''=''"
    and "list_all is_space x" and "value_char c"
  shows "assignment_text (n @ w @ [s] @ x @ [c])"
  unfolding assignment_text_def by (intro followed_byI assms) (use assms in auto)

lemma mail_parts:
  assumes "mail_text u"
  obtains x d y where "u = x @ CHR ''@'' # d @ CHR ''.'' # y" and "chars local_char x" and "chars domain_char d"
    and "2 \<le> length y" and "list_all is_alpha y"
  using assms unfolding mail_text_def by (elim followed_byE exE conjE) (auto intro: that)

lemma mail_chars:
  assumes "mail_text u"
  shows "u \<noteq> []" "is_alpha (last u)" "local_char (hd u)" "CHR ''['' \<notin> set u"
proof -
  from assms obtain x d y where u: "u = x @ CHR ''@'' # d @ CHR ''.'' # y" "chars local_char x"
      "chars domain_char d" "2 \<le> length y" "list_all is_alpha y"
    by (rule mail_parts)
  then show "u \<noteq> []" "local_char (hd u)" "CHR ''['' \<notin> set u"
    by (auto simp: hd_append list_all_iff)
  show "is_alpha (last u)"
    using u(1,4,5) by (cases y rule: rev_cases) auto
qed

lemma bearer_nonempty: "bearer_text u \<Longrightarrow> u \<noteq> []"
  by (erule bearer_parts) simp

lemma assignment_nonempty: "assignment_text u \<Longrightarrow> u \<noteq> []"
  by (erule assignment_parts) simp

subsection \<open>Where a match ends\<close>

lemma bearer_separates:
  assumes "matches bearer_pattern p = q # qs"
  shows "\<not> (word_at (fst q) \<and> word_at (snd q))"
proof -
  let ?eq = "Star (Cls (\<lambda>c. c = CHR ''=''))" and ?tok = "Cls (ignore_case token_char)"
    and ?lead = "[Boundary, lit_i ''Bearer'', Plus (Cls is_space)]"
  have pat: "matches bearer_pattern p = matches (Seq (seq (?lead @ [Plus ?tok])) ?eq) p"
    using seq_snoc [of "?lead @ [Plus ?tok]" ?eq p] by (simp only: bearer_pattern_def append_Cons append_Nil)
  define m where "m = hd (matches (seq (?lead @ [Plus ?tok])) p)"
  have some: "matches (seq (?lead @ [Plus ?tok])) p \<noteq> []"
    using assms Seq_Star_nonempty pat by (metis list.distinct(1))
  have parts: "matches (seq (?lead @ [Plus ?tok])) p = matches (Seq (Seq (seq ?lead) ?tok) (Star ?tok)) p"
    unfolding seq_snoc Plus_def Seq_assoc ..
  have "matches (seq (?lead @ [Plus ?tok])) p = m # tl (matches (seq (?lead @ [Plus ?tok])) p)"
    unfolding m_def by (rule list.collapse [OF some, symmetric])
  from greedy_end [OF trans [OF parts [symmetric] this]]
  have stop: "snd m = [] \<or> \<not> ignore_case token_char (hd (snd m))" .
  have "q = hd (matches ?eq m)"
    using hd_Seq_Star [OF some, of "Cls (\<lambda>c. c = CHR ''='')"] assms pat by (simp add: m_def)
  then have q: "fst q = rev (takeWhile (\<lambda>c. c = CHR ''='') (snd m)) @ fst m"
      "snd q = dropWhile (\<lambda>c. c = CHR ''='') (snd m)"
    by (cases m; simp add: hd_Star_Cls)+
  show ?thesis
  proof (cases "takeWhile (\<lambda>c. c = CHR ''='') (snd m)" rule: rev_cases)
    case Nil
    then have "snd q = snd m"
      using q(2) takeWhile_dropWhile_id [of "\<lambda>c. c = CHR ''=''" "snd m"] by simp
    then show ?thesis
      using stop word_classes(2) by (cases "snd m") (auto simp: word_at_def)
  next
    case (snoc ys y)
    then have "y = CHR ''=''"
      using set_takeWhileD [of y "\<lambda>c. c = CHR ''=''" "snd m"] by simp
    then show ?thesis
      using q(1) snoc by (simp add: word_at_def char_class_defs)
  qed
qed

lemma assignment_separates:
  assumes "matches assignment_pattern p = q # qs"
  shows "\<not> (word_at (fst q) \<and> word_at (snd q))"
proof -
  let ?lead = "[Boundary, secret_name, Star (Cls is_space), Cls (\<lambda>c. c = CHR '':'' \<or> c = CHR ''=''),
    Star (Cls is_space)]"
  have "matches assignment_pattern p = matches (Seq (Seq (seq ?lead) (Cls value_char)) (Star (Cls value_char))) p"
    using seq_snoc [of ?lead "Plus (Cls value_char)" p]
    unfolding assignment_pattern_def Plus_def Seq_assoc by (simp only: append_Cons append_Nil)
  then have "snd q = [] \<or> \<not> value_char (hd (snd q))"
    using assms greedy_end by metis
  then show ?thesis
    by (cases "snd q") (auto simp: word_at_def value_char_def char_class_defs)
qed

lemma mail_separates:
  assumes "matches mail_pattern p = q # qs"
  shows "\<not> (word_at (fst q) \<and> word_at (snd q))"
  using assms in_mail [of q "fst p" "snd p"] by (auto simp: boundary_def)

section \<open>Replacement by the mark\<close>

lemma mark_facts: "redacted_mark \<noteq> []" "hd redacted_mark = CHR ''[''" "\<not> is_word (last redacted_mark)"
  by (simp_all add: redacted_mark_def char_class_defs)

lemma bearer_consumes: "q \<in> set (matches bearer_pattern p) \<Longrightarrow> length (snd q) < length (snd p)"
proof -
  have "spans (seq [lit_i ''Bearer'', Plus (Cls is_space), Plus (Cls (ignore_case token_char)),
      Star (Cls (\<lambda>c. c = CHR ''=''))]) bearer_text"
    unfolding bearer_text_def by (intro spans_rules)
  from spansD [OF this, of q "fst p" "snd p"] show "q \<in> set (matches bearer_pattern p) \<Longrightarrow> ?thesis"
    unfolding bearer_pattern_def seq.simps(2) [of Boundary] in_Seq in_Boundary
    using bearer_nonempty by auto
qed

lemma assignment_consumes: "q \<in> set (matches assignment_pattern p) \<Longrightarrow> length (snd q) < length (snd p)"
proof -
  have "spans (seq [secret_name, Star (Cls is_space), Cls (\<lambda>c. c = CHR '':'' \<or> c = CHR ''=''),
      Star (Cls is_space), Plus (Cls value_char)]) assignment_text"
    unfolding assignment_text_def by (intro spans_rules)
  from spansD [OF this, of q "fst p" "snd p"] show "q \<in> set (matches assignment_pattern p) \<Longrightarrow> ?thesis"
    unfolding assignment_pattern_def seq.simps(2) [of Boundary] in_Seq in_Boundary
    using assignment_nonempty by auto
qed

lemma mail_consumes: "q \<in> set (matches mail_pattern p) \<Longrightarrow> length (snd q) < length (snd p)"
  using in_mail [of q "fst p" "snd p"] mail_chars(1) by auto

interpretation bearer: marked_replacement bearer_pattern redacted_mark "CHR ''[''"
  by unfold_locales (fact bearer_consumes mark_facts)+

interpretation assignment: marked_replacement assignment_pattern redacted_mark "CHR ''[''"
  by unfold_locales (fact assignment_consumes mark_facts)+

interpretation mail: marked_replacement mail_pattern redacted_mark "CHR ''[''"
  by unfold_locales (fact mail_consumes mark_facts)+

text \<open>No pattern matches from inside the mark.\<close>

lemma mark_position:
  assumes "k < length redacted_mark"
  obtains "k = 0" | "k = 1" | "k = 9" | "2 \<le> k" and "k \<le> 8"
  using assms by (force simp: redacted_mark_def)

lemma mark_start:
  assumes "k < length redacted_mark" and "boundary (rev (take k redacted_mark) @ pre, drop k redacted_mark @ out)"
  obtains v where "drop k redacted_mark @ out = CHR ''['' # v"
  | "drop k redacted_mark @ out = ''REDACTED]'' @ out"
  | "drop k redacted_mark @ out = CHR '']'' # out"
  using assms(1)
proof (cases rule: mark_position)
  case 4
  then consider "k = 2" | "k = 3" | "k = 4" | "k = 5" | "k = 6" | "k = 7" | "k = 8" by linarith
  then show ?thesis
    using assms(2) by cases (simp_all add: redacted_mark_def boundary_def word_at_def char_class_defs)
qed (auto simp: redacted_mark_def intro: that)

lemma bearer_starts:
  assumes "k < length redacted_mark"
  shows "matches bearer_pattern (rev (take k redacted_mark) @ pre, drop k redacted_mark @ out) = []"
proof (rule ccontr)
  assume "matches bearer_pattern (rev (take k redacted_mark) @ pre, drop k redacted_mark @ out) \<noteq> []"
  then obtain u cs where b: "boundary (rev (take k redacted_mark) @ pre, drop k redacted_mark @ out)"
    and u: "drop k redacted_mark @ out = u @ cs" "bearer_text u"
    unfolding bearer_iff by blast
  from u(2) obtain x v where "u = x # v" "ignore_case (\<lambda>y. y = CHR ''B'') x"
    by (rule bearer_parts) (auto simp: same_text_def list_all2_Cons1)
  then have "hd (drop k redacted_mark @ out) = x" "ignore_case (\<lambda>y. y = CHR ''B'') x"
    using u(1) by auto
  from assms b show False
    by (cases rule: mark_start)
       (use \<open>hd (drop k redacted_mark @ out) = x\<close> \<open>ignore_case (\<lambda>y. y = CHR ''B'') x\<close> in \<open>auto simp: ignore_case_defs split: if_splits\<close>)
qed

lemma secret_name_start:
  "secret_name_text u \<Longrightarrow> \<exists>x v c. u = x # v \<and> c \<in> set ''atpc'' \<and> ignore_case (\<lambda>y. y = c) x"
  unfolding secret_name_text_def
  by (elim disjE followed_byE) (auto simp: same_text_def list_all2_Cons1)

lemma assignment_starts:
  assumes "k < length redacted_mark"
  shows "matches assignment_pattern (rev (take k redacted_mark) @ pre, drop k redacted_mark @ out) = []"
proof (rule ccontr)
  assume "matches assignment_pattern (rev (take k redacted_mark) @ pre, drop k redacted_mark @ out) \<noteq> []"
  then obtain u cs where b: "boundary (rev (take k redacted_mark) @ pre, drop k redacted_mark @ out)"
    and u: "drop k redacted_mark @ out = u @ cs" "assignment_text u"
    unfolding assignment_iff by blast
  from u(2) obtain x v c where "u = x # v" "c \<in> set ''atpc''" "ignore_case (\<lambda>y. y = c) x"
    by (rule assignment_parts) (auto dest!: secret_name_start)
  then have "hd (drop k redacted_mark @ out) = x" "\<exists>c \<in> set ''atpc''. ignore_case (\<lambda>y. y = c) x"
    using u(1) by auto
  from assms b show False
    by (cases rule: mark_start)
       (use \<open>hd (drop k redacted_mark @ out) = x\<close> \<open>\<exists>c \<in> set ''atpc''. ignore_case (\<lambda>y. y = c) x\<close> in \<open>auto simp: ignore_case_defs split: if_splits\<close>)
qed

lemma mail_starts:
  assumes "k < length redacted_mark"
  shows "matches mail_pattern (rev (take k redacted_mark) @ pre, drop k redacted_mark @ out) = []"
proof (rule ccontr)
  assume "matches mail_pattern (rev (take k redacted_mark) @ pre, drop k redacted_mark @ out) \<noteq> []"
  then obtain u cs where b: "boundary (rev (take k redacted_mark) @ pre, drop k redacted_mark @ out)"
    and u: "drop k redacted_mark @ out = u @ cs" "mail_text u"
    unfolding mail_iff by blast
  from u(2) obtain x v where x: "u = x @ CHR ''@'' # v" "chars local_char x"
    by (rule mail_parts) auto
  then have first: "local_char (hd (drop k redacted_mark @ out))"
    unfolding u(1) by (cases x) auto
  have "dropWhile local_char (drop k redacted_mark @ out) = CHR ''@'' # v @ cs"
    unfolding u(1) x(1) using x(2) by (simp add: dropWhile_append2 list_all_iff) (simp add: local_char_def char_class_defs)
  note rest = this
  from assms b show False
    by (cases rule: mark_start) (use rest first in \<open>auto simp: local_char_def char_class_defs\<close>)
qed

text \<open>A match that begins at a copied character was a match of the text before the replacement.\<close>

lemma boundary_copied:
  assumes "boundary (pre', rest) \<longrightarrow> boundary (pre, rest)" and "boundary (pre', u @ out)"
    and "rest = u @ rest'" and "u \<noteq> []"
  shows "boundary (pre, rest)"
  using assms by (cases u) (auto simp: boundary_def word_at_def)

lemma bearer_transfers:
  assumes "marked_replacement r redacted_mark (CHR ''['')" and "boundary (pre', rest) \<longrightarrow> boundary (pre, rest)"
    and "matches bearer_pattern (pre', replace_from r redacted_mark pre rest) \<noteq> []"
  shows "matches bearer_pattern (pre, rest) \<noteq> []"
proof -
  from assms(3) obtain u cs where out: "boundary (pre', replace_from r redacted_mark pre rest)"
      "replace_from r redacted_mark pre rest = u @ cs" "bearer_text u"
    unfolding bearer_iff by blast
  from out(3) obtain b w c v where u: "u = b @ w @ c # v" "same_text ''Bearer'' b" "chars is_space w"
      "ignore_case token_char c"
    by (rule bearer_parts)
  have split: "replace_from r redacted_mark pre rest = (b @ w @ [c]) @ v @ cs"
    using out(2) u(1) by simp
  moreover have "CHR ''['' \<notin> set (b @ w @ [c])"
    using same_text_alpha [OF u(2) alpha_words(1)] u(3,4) by (auto simp: list_all_iff)
  ultimately obtain rest' where rest: "rest = (b @ w @ [c]) @ rest'"
    by (rule marked_replacement.copied_prefix [OF assms(1)])
  have "boundary (pre, rest)"
    using boundary_copied [OF assms(2) _ rest, of "v @ cs"] out(1) split by simp
  with rest bearer_textI [OF u(2-4)] show ?thesis
    unfolding bearer_iff by blast
qed

lemma assignment_transfers:
  assumes "marked_replacement r redacted_mark (CHR ''['')" and "boundary (pre', rest) \<longrightarrow> boundary (pre, rest)"
    and "matches assignment_pattern (pre', replace_from r redacted_mark pre rest) \<noteq> []"
    and "\<forall>p d cs. matches r (p, d # cs) \<noteq> [] \<longrightarrow> value_char d"
  shows "matches assignment_pattern (pre, rest) \<noteq> []"
proof -
  from assms(3) obtain u cs where out: "boundary (pre', replace_from r redacted_mark pre rest)"
      "replace_from r redacted_mark pre rest = u @ cs" "assignment_text u"
    unfolding assignment_iff by blast
  from out(3) obtain n w s x c v where u: "u = n @ w @ s # x @ c # v" "secret_name_text n" "list_all is_space w"
      "s = CHR '':'' \<or> s = CHR ''=''" "list_all is_space x" "value_char c"
    by (rule assignment_parts)
  let ?lead = "n @ w @ [s] @ x"
  have split: "replace_from r redacted_mark pre rest = ?lead @ c # v @ cs"
    using out(2) u(1) by simp
  moreover have "CHR ''['' \<notin> set ?lead"
    using secret_name_chars(3) [OF u(2)] u(3-5) by (auto simp: list_all_iff)
  ultimately obtain rest' where rest: "rest = ?lead @ rest'"
      "c # v @ cs = replace_from r redacted_mark (rev ?lead @ pre) rest'"
    by (rule marked_replacement.copied_prefix [OF assms(1)])
  from rest(2) [symmetric] obtain d ds where "rest' = d # ds" "value_char d"
    by (rule marked_replacement.replaced_first [OF assms(1)]) (use u(6) assms(4) in \<open>blast+\<close>)
  then have "rest = (n @ w @ [s] @ x @ [d]) @ ds"
    using rest(1) by simp
  moreover have "boundary (pre, rest)"
    using boundary_copied [OF assms(2) _ rest(1), of "c # v @ cs"] out(1) split by simp
  ultimately show ?thesis
    using assignment_textI [OF u(2-5) \<open>value_char d\<close>] unfolding assignment_iff by blast
qed

lemma mail_transfers:
  assumes "boundary (pre', rest) \<longrightarrow> boundary (pre, rest)"
    and "matches mail_pattern (pre', replace_from mail_pattern redacted_mark pre rest) \<noteq> []"
  shows "matches mail_pattern (pre, rest) \<noteq> []"
proof -
  from assms(2) obtain u cs where out: "boundary (pre', replace_from mail_pattern redacted_mark pre rest)"
      "replace_from mail_pattern redacted_mark pre rest = u @ cs" "mail_text u" "boundary (rev u @ pre', cs)"
    unfolding mail_iff by blast
  from out(2) mail_chars(4) [OF out(3)] obtain rest' where rest: "rest = u @ rest'"
      "cs = replace_from mail_pattern redacted_mark (rev u @ pre) rest'"
    by (rule mail.copied_prefix)
  have word: "word_at (rev u @ p)" for p
    using mail_chars(1,2) [OF out(3)] word_classes(1) by (cases u rule: rev_cases) (auto simp: word_at_def)
  have "boundary (rev u @ pre, rest')"
  proof (cases cs)
    case Nil
    then show ?thesis
      using mail.replaced_to_nothing [OF rest(2) [symmetric, unfolded Nil]] word by (simp add: boundary_def word_at_def)
  next
    case (Cons c v)
    then have "\<not> is_word c"
      using out(4) word by (simp add: boundary_def word_at_def)
    from rest(2) [symmetric, unfolded Cons] show ?thesis
    proof (cases rule: mail.replaced_first)
      case (copied ds)
      then show ?thesis using word \<open>\<not> is_word c\<close> by (simp add: boundary_def word_at_def)
    next
      case (inserted d ds)
      then show ?thesis unfolding mail_iff by blast
    qed
  qed
  moreover have "boundary (pre, rest)"
    using boundary_copied [OF assms(1) _ rest(1), of cs] out(1,2) mail_chars(1) [OF out(3)] by simp
  ultimately show ?thesis
    using rest(1) out(3) unfolding mail_iff by blast
qed

lemma value_char_first:
  "\<forall>p d cs. matches assignment_pattern (p, d # cs) \<noteq> [] \<longrightarrow> value_char d"
  "\<forall>p d cs. matches mail_pattern (p, d # cs) \<noteq> [] \<longrightarrow> value_char d"
proof (safe del: notI)
  fix p d cs
  assume "matches assignment_pattern (p, d # cs) \<noteq> []"
  then obtain u es where "d # cs = u @ es" "assignment_text u"
    unfolding assignment_iff by blast
  moreover from this(2) have "u \<noteq> [] \<and> is_alpha (hd u)"
    by (rule assignment_parts) (use secret_name_chars(1,2) in auto)
  ultimately show "value_char d"
    using word_classes(4) by (cases u) auto
next
  fix p d cs
  assume "matches mail_pattern (p, d # cs) \<noteq> []"
  then obtain u es where "d # cs = u @ es" "mail_text u"
    unfolding mail_iff by blast
  then show "value_char d"
    using mail_chars(1,3) [of u] word_classes(5) by (cases u) auto
qed

section \<open>What the passes leave\<close>

interpretation bearer_bearer: absent_after bearer_pattern redacted_mark "CHR ''[''" bearer_pattern
  by unfold_locales
     (erule bearer_starts,
      erule (1) bearer_transfers [OF bearer.marked_replacement_axioms],
      erule bearer_separates)

interpretation assignment_bearer: absent_after assignment_pattern redacted_mark "CHR ''[''" bearer_pattern
  by unfold_locales
     (erule bearer_starts,
      erule (1) bearer_transfers [OF assignment.marked_replacement_axioms],
      erule assignment_separates)

interpretation assignment_assignment: absent_after assignment_pattern redacted_mark "CHR ''[''" assignment_pattern
  by unfold_locales
     (erule assignment_starts,
      erule (1) assignment_transfers [OF assignment.marked_replacement_axioms _ _ value_char_first(1)],
      erule assignment_separates)

interpretation mail_bearer: absent_after mail_pattern redacted_mark "CHR ''[''" bearer_pattern
  by unfold_locales
     (erule bearer_starts,
      erule (1) bearer_transfers [OF mail.marked_replacement_axioms],
      erule mail_separates)

interpretation mail_assignment: absent_after mail_pattern redacted_mark "CHR ''[''" assignment_pattern
  by unfold_locales
     (erule assignment_starts,
      erule (1) assignment_transfers [OF mail.marked_replacement_axioms _ _ value_char_first(2)],
      erule mail_separates)

interpretation mail_mail: absent_after mail_pattern redacted_mark "CHR ''[''" mail_pattern
  by unfold_locales
     (erule mail_starts,
      erule (1) mail_transfers,
      erule mail_separates)

lemma absentD: "\<not> regex_test r s \<Longrightarrow> s = u @ v \<Longrightarrow> matches r (rev u, v) = []"
  unfolding regex_test_iff by blast

lemma redact_absent: "\<forall>pattern \<in> set secretPatterns. \<not> regex_test pattern (redact_all value)"
proof -
  define one where "one = replace_all bearer_pattern redacted_mark value"
  define two where "two = replace_all assignment_pattern redacted_mark one"
  have result: "redact_all value = replace_all mail_pattern redacted_mark two"
    by (simp add: redact_all_def secretPatterns_def one_def two_def)
  have one: "\<not> regex_test bearer_pattern one"
    unfolding one_def by (rule bearer_bearer.replace_all_absent)
  have two: "\<not> regex_test bearer_pattern two" "\<not> regex_test assignment_pattern two"
    unfolding two_def
    by (rule assignment_bearer.replace_all_absent [OF absentD [OF one]])
       (assumption | rule assignment_assignment.replace_all_absent)+
  have "\<not> regex_test bearer_pattern (redact_all value)" "\<not> regex_test assignment_pattern (redact_all value)"
      "\<not> regex_test mail_pattern (redact_all value)"
    unfolding result
    by (rule mail_bearer.replace_all_absent [OF absentD [OF two(1)]], assumption)
       (rule mail_assignment.replace_all_absent [OF absentD [OF two(2)]], assumption,
        rule mail_mail.replace_all_absent, assumption)
  then show ?thesis
    by (simp add: secretPatterns_def)
qed

lemma replace_absent:
  "\<not> occurs r pre s \<Longrightarrow> replace_from r new pre s = s"
proof (induction s arbitrary: pre)
  case Nil
  then show ?case by (subst replace_from.simps) simp
next
  case (Cons c s)
  then show ?case by (subst replace_from.simps) simp
qed

lemma replace_all_clean: "\<not> regex_test r s \<Longrightarrow> replace_all r new s = s"
  unfolding regex_test_def search_iff_occurs replace_all_def by (rule replace_absent)

lemma redact_clean: "\<forall>r \<in> set secretPatterns. \<not> regex_test r s \<Longrightarrow> redact_all s = s"
  by (simp add: secretPatterns_def redact_all_def replace_all_clean)

text \<open>
  C32. Redaction removes what its patterns describe. Whatever the text, after the passes no bearer
  token, no assignment to a secret name and no mail address, as the three patterns describe them,
  occurs anywhere in it: neither left over, nor put together from the text around a replaced part,
  nor uncovered by a later pass. What \<open>redactOperationalText\<close> returns is a beginning of that text
  of at most 500 characters, and the passes are idempotent.
\<close>
theorem redaction_complete:
  "\<not> regex_test bearer_pattern (redact_all value) \<and> \<not> regex_test assignment_pattern (redact_all value) \<and>
   \<not> regex_test mail_pattern (redact_all value) \<and>
   prefix (redactOperationalText value) (redact_all value) \<and> length (redactOperationalText value) \<le> 500 \<and>
   redact_all (redact_all value) = redact_all value"
proof -
  note absent = redact_absent [of "value"]
  then have "redact_all (redact_all value) = redact_all value"
    by (simp add: redact_clean)
  with absent show ?thesis
    by (simp add: secretPatterns_def redactOperationalText_def take_is_prefix)
qed

text \<open>
  Redaction leaves alone what is clean: a text of at most 500 characters in which no pattern
  occurs comes out unchanged.
\<close>
theorem redaction_keeps_clean:
  assumes "\<forall>pattern \<in> set secretPatterns. \<not> regex_test pattern value" and "length value \<le> 500"
  shows "redactOperationalText value = value"
  using assms by (simp add: redactOperationalText_def redact_clean)

theorem redaction_keeps_clean_witness:
  "redactOperationalText ''Approval recorded; run re-queued'' = ''Approval recorded; run re-queued''"
proof -
  have "\<not> regex_test bearer_pattern ''Approval recorded; run re-queued''"
       "\<not> regex_test assignment_pattern ''Approval recorded; run re-queued''"
       "\<not> regex_test mail_pattern ''Approval recorded; run re-queued''"
    by code_simp+
  then show ?thesis
    using redaction_keeps_clean [of "''Approval recorded; run re-queued''"] by (simp add: secretPatterns_def)
qed

text \<open>
  Forms the second pattern does not cover: a name with a word character before it, and a quoted
  member of a JSON text. Both pass through in clear.
\<close>

lemma redaction_gaps:
  "redactOperationalText ''access_token=abc'' = ''access_token=abc''"
  "redactOperationalText ''{\"token\":\"abc\"}'' = ''{\"token\":\"abc\"}''"
proof -
  have "list_all (\<lambda>r. \<not> regex_test r ''access_token=abc'') secretPatterns"
       "list_all (\<lambda>r. \<not> regex_test r ''{\"token\":\"abc\"}'') secretPatterns"
    by code_simp+
  then show "redactOperationalText ''access_token=abc'' = ''access_token=abc''"
    "redactOperationalText ''{\"token\":\"abc\"}'' = ''{\"token\":\"abc\"}''"
    by (simp_all add: redactOperationalText_def redact_clean list_all_iff)
qed

end
