(* ===== verification/Contracts.thy ===== *)
theory Contracts
  imports Prelude Complex_Main "HOL-Library.Monad_Syntax" "HOL-Library.Char_ord"
begin

text \<open>
  The contracts package (\<open>packages/contracts/src/index.ts\<close>): run states and their allowed
  transitions, workflow steps and definitions, run requests and run events, and the schemas that
  decode a JSON body into them.

  A schema is a decoder from a JSON value, \<open>None\<close> when the schema reports an issue. The schema
  library is used only through its documented checks: an object schema reads the named keys and
  drops the others, a default stands in for an absent key only, a string check bounds the number
  of code units, a discriminated union selects by its literal key. The format check
  \<open>z.uuid()\<close> is a parameter, \<open>is_uuid\<close>. The issues a failed check lists are not kept,
  except those the sources add themselves (\<open>superRefine\<close>).
\<close>

section \<open>Run states and transitions\<close>

datatype run_state =
  Queued | Leased | Running | Awaiting_approval | Succeeded | Failed | Cancelled | Uncertain

definition runStates :: "run_state list" where
  "runStates =
     [Queued, Leased, Running, Awaiting_approval, Succeeded, Failed, Cancelled, Uncertain]"

fun run_state_name :: "run_state \<Rightarrow> string" where
  "run_state_name Queued = ''queued''"
| "run_state_name Leased = ''leased''"
| "run_state_name Running = ''running''"
| "run_state_name Awaiting_approval = ''awaiting_approval''"
| "run_state_name Succeeded = ''succeeded''"
| "run_state_name Failed = ''failed''"
| "run_state_name Cancelled = ''cancelled''"
| "run_state_name Uncertain = ''uncertain''"

definition runStateSchema :: "string \<Rightarrow> run_state option" where
  "runStateSchema s = map_of (map (\<lambda>x. (run_state_name x, x)) runStates) s"

fun allowedTransitions :: "run_state \<Rightarrow> run_state list" where
  "allowedTransitions Queued = [Leased, Cancelled]"
| "allowedTransitions Leased = [Running, Queued, Failed, Uncertain, Cancelled]"
| "allowedTransitions Running = [Awaiting_approval, Succeeded, Failed, Uncertain, Cancelled]"
| "allowedTransitions Awaiting_approval = [Queued, Cancelled]"
| "allowedTransitions Succeeded = []"
| "allowedTransitions Failed = []"
| "allowedTransitions Cancelled = []"
| "allowedTransitions Uncertain = []"

definition assertTransition :: "run_state \<Rightarrow> run_state \<Rightarrow> unit result" where
  "assertTransition from to =
     (if to \<in> set (allowedTransitions from) then Inr ()
      else Inl (Error (''Invalid run transition: '' @ run_state_name from @ '' -> '' @
                       run_state_name to)))"

definition terminal :: "run_state \<Rightarrow> bool" where
  "terminal s \<longleftrightarrow> allowedTransitions s = []"

section \<open>Run events\<close>

datatype event_type =
    Ev_created | Ev_leased | Ev_started | Ev_approval_requested | Ev_approved | Ev_cancelled
  | Ev_succeeded | Ev_failed | Ev_uncertain

fun event_type_name :: "event_type \<Rightarrow> string" where
  "event_type_name Ev_created = ''created''"
| "event_type_name Ev_leased = ''leased''"
| "event_type_name Ev_started = ''started''"
| "event_type_name Ev_approval_requested = ''approval_requested''"
| "event_type_name Ev_approved = ''approved''"
| "event_type_name Ev_cancelled = ''cancelled''"
| "event_type_name Ev_succeeded = ''succeeded''"
| "event_type_name Ev_failed = ''failed''"
| "event_type_name Ev_uncertain = ''uncertain''"

record run_event =
  ev_at :: timestamp
  ev_type :: event_type
  ev_detail :: string
  ev_traceId :: "string option"

section \<open>Workflow definitions\<close>

datatype model_provider = Mock_provider | Openai_compatible

fun provider_name :: "model_provider \<Rightarrow> string" where
  "provider_name Mock_provider = ''mock''"
| "provider_name Openai_compatible = ''openai_compatible''"

datatype transform_operation = Extract_json | Template

fun operation_name :: "transform_operation \<Rightarrow> string" where
  "operation_name Extract_json = ''extract_json''"
| "operation_name Template = ''template''"

datatype tool_name = Allowlisted_http_fetch | Mock_ticket_write | Mock_data_read

fun tool_id :: "tool_name \<Rightarrow> string" where
  "tool_id Allowlisted_http_fetch = ''allowlisted_http_fetch''"
| "tool_id Mock_ticket_write = ''mock_ticket_write''"
| "tool_id Mock_data_read = ''mock_data_read''"

datatype workflow_step =
    Model model_provider string
  | Transform transform_operation string
  | Tool tool_name bool
  | Approval string

record workflow_definition =
  wf_schemaVersion :: string
  wf_name :: string
  wf_version :: string
  wf_steps :: "workflow_step list"
  wf_budgetCents :: int
  wf_allowedHosts :: "string list"

section \<open>JSON values and the checks of a schema\<close>

datatype json =
    JNull
  | JBool bool
  | JNum rat
  | JStr string
  | JArr "json list"
  | JObj "(string \<times> json) list"

definition length_in :: "nat \<Rightarrow> nat option \<Rightarrow> string \<Rightarrow> bool" where
  "length_in lo hi s \<longleftrightarrow> lo \<le> length s \<and> (case hi of None \<Rightarrow> True | Some n \<Rightarrow> length s \<le> n)"

definition z_string :: "nat \<Rightarrow> nat option \<Rightarrow> json option \<Rightarrow> string option" where
  "z_string lo hi j =
     (case j of Some (JStr s) \<Rightarrow> if length_in lo hi s then Some s else None | _ \<Rightarrow> None)"

definition z_enum :: "(string \<times> 'a) list \<Rightarrow> json option \<Rightarrow> 'a option" where
  "z_enum table j = (case j of Some (JStr s) \<Rightarrow> map_of table s | _ \<Rightarrow> None)"

definition z_boolean_default :: "bool \<Rightarrow> json option \<Rightarrow> bool option" where
  "z_boolean_default d j =
     (case j of None \<Rightarrow> Some d | Some (JBool b) \<Rightarrow> Some b | _ \<Rightarrow> None)"

definition z_int :: "int \<Rightarrow> int \<Rightarrow> json option \<Rightarrow> int option" where
  "z_int lo hi j =
     (case j of
        Some (JNum r) \<Rightarrow>
          (if of_int \<lfloor>r\<rfloor> = r \<and> lo \<le> \<lfloor>r\<rfloor> \<and> \<lfloor>r\<rfloor> \<le> hi then Some \<lfloor>r\<rfloor> else None)
      | _ \<Rightarrow> None)"

definition z_array :: "nat \<Rightarrow> nat \<Rightarrow> (json \<Rightarrow> 'a option) \<Rightarrow> json option \<Rightarrow> 'a list option" where
  "z_array lo hi item j =
     (case j of
        Some (JArr js) \<Rightarrow>
          (if lo \<le> length js \<and> length js \<le> hi then those (map item js) else None)
      | _ \<Rightarrow> None)"

definition z_default :: "'a \<Rightarrow> (json option \<Rightarrow> 'a option) \<Rightarrow> json option \<Rightarrow> 'a option" where
  "z_default d schema j = (case j of None \<Rightarrow> Some d | Some v \<Rightarrow> schema (Some v))"

definition providers :: "(string \<times> model_provider) list" where
  "providers = map (\<lambda>p. (provider_name p, p)) [Mock_provider, Openai_compatible]"

definition operations :: "(string \<times> transform_operation) list" where
  "operations = map (\<lambda>p. (operation_name p, p)) [Extract_json, Template]"

definition tools :: "(string \<times> tool_name) list" where
  "tools = map (\<lambda>t. (tool_id t, t)) [Allowlisted_http_fetch, Mock_ticket_write, Mock_data_read]"

section \<open>The schemas\<close>

definition model_step_schema :: "(string \<times> json) list \<Rightarrow> workflow_step option" where
  "model_step_schema obj = do {
     p \<leftarrow> z_enum providers (map_of obj ''provider'');
     t \<leftarrow> z_string 1 (Some 20000) (map_of obj ''promptTemplate'');
     Some (Model p t) }"

definition transform_step_schema :: "(string \<times> json) list \<Rightarrow> workflow_step option" where
  "transform_step_schema obj = do {
     op \<leftarrow> z_enum operations (map_of obj ''operation'');
     i \<leftarrow> z_string 1 (Some 4000) (map_of obj ''input'');
     Some (Transform op i) }"

definition tool_step_schema :: "(string \<times> json) list \<Rightarrow> workflow_step option" where
  "tool_step_schema obj = do {
     t \<leftarrow> z_enum tools (map_of obj ''tool'');
     b \<leftarrow> z_boolean_default False (map_of obj ''sideEffect'');
     Some (Tool t b) }"

definition approval_step_schema :: "(string \<times> json) list \<Rightarrow> workflow_step option" where
  "approval_step_schema obj = do {
     r \<leftarrow> z_string 1 (Some 500) (map_of obj ''reason'');
     Some (Approval r) }"

definition workflowStepSchema :: "json \<Rightarrow> workflow_step option" where
  "workflowStepSchema j =
     (case j of
        JObj obj \<Rightarrow>
          (let kind = map_of obj ''kind'' in
           if kind = Some (JStr ''model'') then model_step_schema obj
           else if kind = Some (JStr ''transform'') then transform_step_schema obj
           else if kind = Some (JStr ''tool'') then tool_step_schema obj
           else if kind = Some (JStr ''approval'') then approval_step_schema obj
           else None)
      | _ \<Rightarrow> None)"

definition lower_alnum_dash :: "char \<Rightarrow> bool" where
  "lower_alnum_dash c \<longleftrightarrow>
     (CHR ''a'' \<le> c \<and> c \<le> CHR ''z'') \<or> (CHR ''0'' \<le> c \<and> c \<le> CHR ''9'') \<or> c = CHR ''-''"

definition is_digit :: "char \<Rightarrow> bool" where
  "is_digit c \<longleftrightarrow> CHR ''0'' \<le> c \<and> c \<le> CHR ''9''"

definition name_pattern :: "string \<Rightarrow> bool" where
  "name_pattern s \<longleftrightarrow> s \<noteq> [] \<and> list_all lower_alnum_dash s"

definition version_pattern :: "string \<Rightarrow> bool" where
  "version_pattern s \<longleftrightarrow>
     (case s of [] \<Rightarrow> False | c # ds \<Rightarrow> c = CHR ''v'' \<and> ds \<noteq> [] \<and> list_all is_digit ds)"

fun is_approval :: "workflow_step \<Rightarrow> bool" where
  "is_approval (Approval _) = True"
| "is_approval _ = False"

fun is_side_effect_tool :: "workflow_step \<Rightarrow> bool" where
  "is_side_effect_tool (Tool _ b) = b"
| "is_side_effect_tool _ = False"

text \<open>The indices \<open>superRefine\<close> reports: \<open>steps[index - 1]?.kind\<close> is undefined at 0.\<close>

definition superRefine_issues :: "workflow_step list \<Rightarrow> nat list" where
  "superRefine_issues steps =
     filter (\<lambda>i. is_side_effect_tool (steps ! i) \<and> \<not> (0 < i \<and> is_approval (steps ! (i - 1))))
       [0..<length steps]"

definition workflowDefinitionSchema :: "json option \<Rightarrow> workflow_definition option" where
  "workflowDefinitionSchema body =
     (case body of
        Some (JObj obj) \<Rightarrow> do {
          sv \<leftarrow> z_default ''1'' (z_enum [(''1'', ''1'')]) (map_of obj ''schemaVersion'');
          n \<leftarrow> z_string 3 (Some 80) (map_of obj ''name'');
          v \<leftarrow> z_string 0 None (map_of obj ''version'');
          ss \<leftarrow> z_array 1 20 workflowStepSchema (map_of obj ''steps'');
          b \<leftarrow> z_int 0 100000 (map_of obj ''budgetCents'');
          hs \<leftarrow> z_default [] (z_array 0 20 (\<lambda>j. z_string 1 None (Some j)))
                 (map_of obj ''allowedHosts'');
          if name_pattern n \<and> version_pattern v \<and> superRefine_issues ss = []
          then Some \<lparr>wf_schemaVersion = sv, wf_name = n, wf_version = v, wf_steps = ss,
                     wf_budgetCents = b, wf_allowedHosts = hs\<rparr>
          else None }
      | _ \<Rightarrow> None)"

record create_run =
  cr_workflowId :: string
  cr_input :: "(string \<times> json) list"
  cr_providerCredential :: "string option"

definition z_record :: "json option \<Rightarrow> (string \<times> json) list option" where
  "z_record j = (case j of Some (JObj obj) \<Rightarrow> Some obj | _ \<Rightarrow> None)"

definition z_optional :: "(json option \<Rightarrow> 'a option) \<Rightarrow> json option \<Rightarrow> 'a option option" where
  "z_optional schema j =
     (case j of None \<Rightarrow> Some None | Some v \<Rightarrow> map_option Some (schema (Some v)))"

definition createRunSchema :: "(string \<Rightarrow> bool) \<Rightarrow> json option \<Rightarrow> create_run option" where
  "createRunSchema is_uuid body =
     (case body of
        Some (JObj obj) \<Rightarrow> do {
          w \<leftarrow> z_string 0 None (map_of obj ''workflowId'');
          i \<leftarrow> z_default [] z_record (map_of obj ''input'');
          c \<leftarrow> z_optional (z_string 20 (Some 512)) (map_of obj ''providerCredential'');
          if is_uuid w
          then Some \<lparr>cr_workflowId = w, cr_input = i, cr_providerCredential = c\<rparr>
          else None }
      | _ \<Rightarrow> None)"

section \<open>A definition as JSON\<close>

text \<open>\<open>JSON.stringify\<close> of a step and of a definition, as the stores persist it.\<close>

fun step_json :: "workflow_step \<Rightarrow> json" where
  "step_json (Model p t) =
     JObj [(''kind'', JStr ''model''), (''provider'', JStr (provider_name p)),
           (''promptTemplate'', JStr t)]"
| "step_json (Transform op i) =
     JObj [(''kind'', JStr ''transform''), (''operation'', JStr (operation_name op)),
           (''input'', JStr i)]"
| "step_json (Tool t b) =
     JObj [(''kind'', JStr ''tool''), (''tool'', JStr (tool_id t)), (''sideEffect'', JBool b)]"
| "step_json (Approval r) = JObj [(''kind'', JStr ''approval''), (''reason'', JStr r)]"

definition definition_json :: "workflow_definition \<Rightarrow> json" where
  "definition_json w = JObj
     [(''schemaVersion'', JStr (wf_schemaVersion w)), (''name'', JStr (wf_name w)),
      (''version'', JStr (wf_version w)), (''steps'', JArr (map step_json (wf_steps w))),
      (''budgetCents'', JNum (of_int (wf_budgetCents w))),
      (''allowedHosts'', JArr (map JStr (wf_allowedHosts w)))]"

section \<open>What the schemas accept\<close>

fun valid_step :: "workflow_step \<Rightarrow> bool" where
  "valid_step (Model p t) = length_in 1 (Some 20000) t"
| "valid_step (Transform op i) = length_in 1 (Some 4000) i"
| "valid_step (Tool t b) = True"
| "valid_step (Approval r) = length_in 1 (Some 500) r"

definition valid_definition :: "workflow_definition \<Rightarrow> bool" where
  "valid_definition w \<longleftrightarrow>
     wf_schemaVersion w = ''1'' \<and>
     length_in 3 (Some 80) (wf_name w) \<and> name_pattern (wf_name w) \<and>
     version_pattern (wf_version w) \<and>
     1 \<le> length (wf_steps w) \<and> length (wf_steps w) \<le> 20 \<and> list_all valid_step (wf_steps w) \<and>
     superRefine_issues (wf_steps w) = [] \<and>
     0 \<le> wf_budgetCents w \<and> wf_budgetCents w \<le> 100000 \<and>
     length (wf_allowedHosts w) \<le> 20 \<and> list_all (\<lambda>h. h \<noteq> []) (wf_allowedHosts w)"

inductive run_path :: "run_state \<Rightarrow> run_state \<Rightarrow> bool" where
  path_refl: "run_path s s"
| path_step: "run_path s t \<Longrightarrow> assertTransition t u = Inr () \<Longrightarrow> run_path s u"

subsection \<open>Checks of a schema\<close>

lemma z_string_Some [simp]: "z_string lo hi j = Some s \<longleftrightarrow> j = Some (JStr s) \<and> length_in lo hi s"
  by (auto simp: z_string_def split: option.splits json.splits)

lemma z_int_Some [simp]:
  "z_int lo hi j = Some n \<longleftrightarrow> j = Some (JNum (of_int n)) \<and> lo \<le> n \<and> n \<le> hi"
  by (auto simp: z_int_def split: option.splits json.splits)

lemma those_map_Some_iff:
  "those (map f xs) = Some ys \<longleftrightarrow> list_all2 (\<lambda>x y. f x = Some y) xs ys"
proof (induction xs arbitrary: ys)
  case Nil
  then show ?case by auto
next
  case (Cons x xs)
  then show ?case
    by (cases ys) (auto split: option.splits)
qed

lemma those_map_inverse:
  "list_all (\<lambda>y. f (g y) = Some y) ys \<Longrightarrow> those (map f (map g ys)) = Some ys"
  by (induction ys) auto

lemma z_array_Some [simp]:
  "z_array lo hi f j = Some ys \<longleftrightarrow>
     (\<exists>js. j = Some (JArr js) \<and> lo \<le> length js \<and> length js \<le> hi \<and> those (map f js) = Some ys)"
  by (auto simp: z_array_def split: option.splits json.splits)

lemma those_map_length: "those (map f xs) = Some ys \<Longrightarrow> length ys = length xs"
  unfolding those_map_Some_iff by (simp add: list_all2_lengthD)

lemma those_map_all:
  assumes "those (map f xs) = Some ys" and "\<And>x y. f x = Some y \<Longrightarrow> P y"
  shows "list_all P ys"
  using assms unfolding those_map_Some_iff
  by (auto simp: list_all_length list_all2_conv_all_nth)

lemma provider_lookup [simp]: "map_of providers (provider_name p) = Some p"
  by (cases p) (simp_all add: providers_def)

lemma operation_lookup [simp]: "map_of operations (operation_name op) = Some op"
  by (cases op) (simp_all add: operations_def)

lemma tool_lookup [simp]: "map_of tools (tool_id t) = Some t"
  by (cases t) (simp_all add: tools_def)

lemma z_enum_JStr [simp]: "z_enum table (Some (JStr s)) = map_of table s"
  by (simp add: z_enum_def)

lemma z_enum_schemaVersion: "z_enum [(''1'', ''1'')] j = Some v \<Longrightarrow> v = ''1''"
  by (auto simp: z_enum_def split: option.splits json.splits if_splits)

lemmas step_schema_defs = workflowStepSchema_def model_step_schema_def transform_step_schema_def
  tool_step_schema_def approval_step_schema_def

lemma workflowStepSchema_valid: "workflowStepSchema j = Some s \<Longrightarrow> valid_step s"
  by (auto simp: step_schema_defs Let_def split: json.splits if_splits Option.bind_splits)

lemma workflowStepSchema_step_json: "workflowStepSchema (step_json s) = Some s" if "valid_step s"
  using that
  by (cases s) (auto simp: step_schema_defs z_boolean_default_def z_string_def)

lemma workflowStepSchema_step_json_iff:
  "workflowStepSchema (step_json s) = Some s \<longleftrightarrow> valid_step s"
  using workflowStepSchema_valid workflowStepSchema_step_json by blast

lemma workflowDefinitionSchema_SomeE:
  assumes "workflowDefinitionSchema body = Some w"
  obtains obj js where "body = Some (JObj obj)"
    and "z_default ''1'' (z_enum [(''1'', ''1'')]) (map_of obj ''schemaVersion'')
         = Some (wf_schemaVersion w)"
    and "length_in 3 (Some 80) (wf_name w)" and "name_pattern (wf_name w)"
    and "version_pattern (wf_version w)"
    and "map_of obj ''steps'' = Some (JArr js)" and "1 \<le> length js" and "length js \<le> 20"
    and "those (map workflowStepSchema js) = Some (wf_steps w)"
    and "superRefine_issues (wf_steps w) = []"
    and "0 \<le> wf_budgetCents w" and "wf_budgetCents w \<le> 100000"
    and "z_default [] (z_array 0 20 (\<lambda>j. z_string 1 None (Some j))) (map_of obj ''allowedHosts'')
         = Some (wf_allowedHosts w)"
proof -
  from assms obtain obj where "body = Some (JObj obj)"
    by (auto simp: workflowDefinitionSchema_def split: option.splits json.splits)
  with assms show thesis
    by (auto simp: workflowDefinitionSchema_def bind_eq_Some_conv split: if_splits intro: that)
qed

lemma hosts_default_valid:
  assumes "z_default [] (z_array 0 20 (\<lambda>j. z_string 1 None (Some j))) j = Some hs"
  shows "length hs \<le> 20 \<and> list_all (\<lambda>h. h \<noteq> []) hs"
proof (cases j)
  case None
  with assms show ?thesis by (simp add: z_default_def)
next
  case (Some v)
  with assms obtain js where "length js \<le> 20"
    and hs: "those (map (\<lambda>j. z_string 1 None (Some j)) js) = Some hs"
    by (auto simp: z_default_def)
  have "list_all (\<lambda>h. h \<noteq> []) hs"
    by (rule those_map_all [OF hs]) (auto simp: length_in_def)
  with \<open>length js \<le> 20\<close> show ?thesis
    using those_map_length [OF hs] by simp
qed

lemma workflowDefinitionSchema_valid:
  assumes "workflowDefinitionSchema body = Some w"
  shows "valid_definition w"
  using assms
proof (rule workflowDefinitionSchema_SomeE)
  fix obj js
  assume sv: "z_default ''1'' (z_enum [(''1'', ''1'')]) (map_of obj ''schemaVersion'')
      = Some (wf_schemaVersion w)"
    and steps: "those (map workflowStepSchema js) = Some (wf_steps w)"
    and hosts: "z_default [] (z_array 0 20 (\<lambda>j. z_string 1 None (Some j)))
      (map_of obj ''allowedHosts'') = Some (wf_allowedHosts w)"
    and rest: "length_in 3 (Some 80) (wf_name w)" "name_pattern (wf_name w)"
      "version_pattern (wf_version w)" "1 \<le> length js" "length js \<le> 20"
      "superRefine_issues (wf_steps w) = []" "0 \<le> wf_budgetCents w" "wf_budgetCents w \<le> 100000"
  have "wf_schemaVersion w = ''1''"
    using sv z_enum_schemaVersion by (auto simp: z_default_def split: option.splits)
  moreover have "list_all valid_step (wf_steps w)"
    using those_map_all [OF steps workflowStepSchema_valid] .
  ultimately show ?thesis
    using rest those_map_length [OF steps] hosts_default_valid [OF hosts]
    by (simp add: valid_definition_def)
qed

lemma workflowDefinitionSchema_definition_json:
  assumes "valid_definition w"
  shows "workflowDefinitionSchema (Some (definition_json w)) = Some w"
proof -
  have "those (map workflowStepSchema (map step_json (wf_steps w))) = Some (wf_steps w)"
    using assms
    by (intro those_map_inverse)
       (simp add: valid_definition_def workflowStepSchema_step_json_iff)
  moreover have "those (map (\<lambda>j. z_string 1 None (Some j)) (map JStr (wf_allowedHosts w)))
      = Some (wf_allowedHosts w)"
    using assms
    by (intro those_map_inverse)
       (auto simp: valid_definition_def z_string_def length_in_def list_all_iff Suc_le_eq)
  ultimately show ?thesis
    using assms
    by (simp add: workflowDefinitionSchema_def definition_json_def valid_definition_def
        z_default_def z_array_def z_string_def z_int_def length_in_def)
qed

subsection \<open>States and transitions\<close>

lemma runStateSchema_name [simp]: "runStateSchema (run_state_name s) = Some s"
  by (cases s) (simp_all add: runStateSchema_def runStates_def)

lemma assertTransition_ok_iff:
  "assertTransition s t = Inr () \<longleftrightarrow> t \<in> set (allowedTransitions s)"
  by (simp add: assertTransition_def)

lemma terminal_iff: "terminal s \<longleftrightarrow> s \<in> {Succeeded, Failed, Cancelled, Uncertain}"
  by (cases s) (simp_all add: terminal_def)

lemma terminal_no_transition: "terminal s \<Longrightarrow> assertTransition s t \<noteq> Inr ()"
  by (simp add: assertTransition_def terminal_def)

lemmas run_path_refl [simp, intro] = path_refl

lemma run_path_single: "assertTransition s t = Inr () \<Longrightarrow> run_path s t"
  by (rule path_step [OF path_refl])

lemma run_path_terminal: "run_path s t \<Longrightarrow> terminal s \<Longrightarrow> t = s"
  by (induction rule: run_path.induct) (auto dest: terminal_no_transition)

lemma run_path_trans: "run_path s t \<Longrightarrow> run_path t u \<Longrightarrow> run_path s u"
  by (rotate_tac, induction rule: run_path.induct) (auto intro: run_path.intros)

lemma superRefine_issues_empty_iff:
  "superRefine_issues steps = [] \<longleftrightarrow>
     (\<forall>i < length steps. is_side_effect_tool (steps ! i) \<longrightarrow> 0 < i \<and> is_approval (steps ! (i - 1)))"
  by (auto simp: superRefine_issues_def filter_empty_conv)

section \<open>Properties\<close>

definition sample_definition :: workflow_definition where
  "sample_definition =
     \<lparr>wf_schemaVersion = ''1'', wf_name = ''research-demo'', wf_version = ''v1'',
      wf_steps = [Tool Mock_data_read False, Approval ''Confirm mock ticket creation'',
                  Tool Mock_ticket_write True],
      wf_budgetCents = 100, wf_allowedHosts = [''example.test'']\<rparr>"

lemma sample_definition_valid: "valid_definition sample_definition"
  by (simp add: sample_definition_def valid_definition_def length_in_def name_pattern_def
      version_pattern_def lower_alnum_dash_def is_digit_def superRefine_issues_def
      less_eq_char_def upt_rec)

lemma sample_definition_accepted:
  "workflowDefinitionSchema (Some (definition_json sample_definition)) = Some sample_definition"
  by (rule workflowDefinitionSchema_definition_json [OF sample_definition_valid])

text \<open>
  C24. A definition the schema accepts, written back as JSON and parsed again, is accepted and
  unchanged: the definition a store persists with \<open>JSON.stringify\<close> always re-parses to itself.
\<close>
theorem workflow_schema_roundtrip:
  assumes "workflowDefinitionSchema body = Some w"
  shows "workflowDefinitionSchema (Some (definition_json w)) = Some w"
  using assms
  by (intro workflowDefinitionSchema_definition_json workflowDefinitionSchema_valid)

theorem workflow_schema_roundtrip_witness:
  "workflowDefinitionSchema (Some (definition_json sample_definition)) = Some sample_definition"
  using workflow_schema_roundtrip [OF sample_definition_accepted] .

text \<open>
  C25. The schema accepts a JSON rendering of a definition exactly when the definition meets every
  bound of the contract: lengths, patterns, 1 to 20 valid steps, budget 0 to 100000, at most 20
  non-empty hosts, and each side-effecting tool right after an approval.
\<close>
theorem workflow_schema_accepts_iff:
  "workflowDefinitionSchema (Some (definition_json w)) = Some w \<longleftrightarrow> valid_definition w"
  using workflowDefinitionSchema_valid workflowDefinitionSchema_definition_json by blast

text \<open>
  C8. In every accepted workflow a tool step declared side-effecting is never the first step and
  the step before it is an approval.
\<close>
theorem side_effect_follows_approval:
  assumes "workflowDefinitionSchema body = Some w"
    and "i < length (wf_steps w)" and "wf_steps w ! i = Tool t True"
  shows "0 < i \<and> (\<exists>reason. wf_steps w ! (i - 1) = Approval reason)"
proof -
  have "superRefine_issues (wf_steps w) = []"
    using workflowDefinitionSchema_valid [OF assms(1)] by (simp add: valid_definition_def)
  then have "0 < i \<and> is_approval (wf_steps w ! (i - 1))"
    using assms(2,3) by (auto simp: superRefine_issues_empty_iff)
  then show ?thesis
    by (cases "wf_steps w ! (i - 1)") auto
qed

theorem side_effect_follows_approval_witness:
  "0 < (2 :: nat) \<and> (\<exists>reason. wf_steps sample_definition ! (2 - 1) = Approval reason)"
  by (rule side_effect_follows_approval [OF sample_definition_accepted, where t = Mock_ticket_write])
     (simp_all add: sample_definition_def)

text \<open>
  C18. The transition table: a state that allows a transition always allows cancellation, the four
  terminal states allow nothing, and a terminal state is left by no path of checked transitions.
\<close>
theorem terminal_states_absorbing:
  "(assertTransition s Cancelled = Inr () \<longleftrightarrow> \<not> terminal s) \<and>
   (terminal s \<longleftrightarrow> s \<in> {Succeeded, Failed, Cancelled, Uncertain}) \<and>
   (run_path s t \<longrightarrow> terminal s \<longrightarrow> t = s)"
proof (intro conjI impI)
  show "assertTransition s Cancelled = Inr () \<longleftrightarrow> \<not> terminal s"
    by (cases s) (simp_all add: assertTransition_def terminal_def)
  show "terminal s \<longleftrightarrow> s \<in> {Succeeded, Failed, Cancelled, Uncertain}"
    by (rule terminal_iff)
  assume "run_path s t" and "terminal s"
  then show "t = s"
    by (rule run_path_terminal)
qed

theorem terminal_states_absorbing_witness:
  "assertTransition Queued Cancelled = Inr () \<and> terminal Cancelled \<and>
   {t. run_path Cancelled t} = {Cancelled}"
  using terminal_states_absorbing [of Queued Queued] terminal_states_absorbing [of Cancelled]
  by (auto simp: terminal_iff intro: path_refl)

end
