(* ===== verification/Effects.thy ===== *)
theory Effects
  imports Prelude
begin

text \<open>
  Effects of the control plane. Everything a call reads from outside the program is a field of
  \<open>env\<close>: the clock (\<open>Date.now\<close>, \<open>new Date\<close>, PostgreSQL's \<open>now\<close>), the identifier
  source (\<open>randomUUID\<close>, \<open>gen_random_uuid\<close>), the fate of each database call, the text of
  database errors and of the error a failed schema parse throws, the text-to-uuid conversion of
  PostgreSQL and SHA-256. Each is an arbitrary
  function; the counters say how much of it was used. An operation maps the environment and the
  state to a result, which is a thrown error or a value, and to the environment and state after.

  \<open>io_spec P m Q E\<close> is the Hoare triple of such an operation: from a state with \<open>P\<close> a
  returned value satisfies \<open>Q\<close> and a thrown error \<open>E\<close>.
\<close>

datatype db_error =
    UniqueViolation string
  | CheckViolation string
  | ForeignKeyViolation string
  | InvalidUuidText string
  | PermissionDenied string
  | Raised string

text \<open>
  The fate of one round trip to the database: it is performed; it fails and is not performed;
  or the connection is lost after the server performed it, so that the caller sees an error.
\<close>

datatype db_fate = Performed | NotPerformed string | PerformedButLost string

record env =
  clock :: "nat \<Rightarrow> timestamp"
  ticks :: nat
  uuids :: "nat \<Rightarrow> uuid"
  issued :: nat
  fates :: "nat \<Rightarrow> db_fate"
  roundtrips :: nat
  db_message :: "db_error \<Rightarrow> string"
  parse_uuid :: "string \<Rightarrow> uuid option"
  sha256_hex :: "string \<Rightarrow> string"
  zod_message :: string

type_synonym 's world = "env \<times> 's"
type_synonym ('s, 'a) io = "'s world \<Rightarrow> 'a result \<times> 's world"

definition io_return :: "'a \<Rightarrow> ('s, 'a) io" where
  [io_defs]: "io_return x = (\<lambda>w. (Inr x, w))"

definition io_throw :: "error \<Rightarrow> ('s, 'a) io" where
  [io_defs]: "io_throw e = (\<lambda>w. (Inl e, w))"

definition io_bind :: "('s, 'a) io \<Rightarrow> ('a \<Rightarrow> ('s, 'b) io) \<Rightarrow> ('s, 'b) io" where
  [io_defs]: "io_bind m f =
     (\<lambda>w. case m w of (Inl e, w') \<Rightarrow> (Inl e, w') | (Inr x, w') \<Rightarrow> f x w')"

definition io_catch :: "('s, 'a) io \<Rightarrow> (error \<Rightarrow> ('s, 'a) io) \<Rightarrow> ('s, 'a) io" where
  [io_defs]: "io_catch m h =
     (\<lambda>w. case m w of (Inl e, w') \<Rightarrow> h e w' | (Inr x, w') \<Rightarrow> (Inr x, w'))"

definition io_finally :: "('s, 'a) io \<Rightarrow> ('s, unit) io \<Rightarrow> ('s, 'a) io" where
  [io_defs]: "io_finally m f =
     (\<lambda>w. case m w of (r, w') \<Rightarrow>
        (case f w' of (Inl e, w'') \<Rightarrow> (Inl e, w'') | (Inr _, w'') \<Rightarrow> (r, w'')))"

definition io_get :: "('s \<Rightarrow> 'a) \<Rightarrow> ('s, 'a) io" where
  [io_defs]: "io_get f = (\<lambda>w. (Inr (f (snd w)), w))"

definition io_modify :: "('s \<Rightarrow> 's) \<Rightarrow> ('s, unit) io" where
  [io_defs]: "io_modify f = (\<lambda>w. (Inr (), (fst w, f (snd w))))"

definition io_env :: "(env \<Rightarrow> 'a) \<Rightarrow> ('s, 'a) io" where
  [io_defs]: "io_env f = (\<lambda>w. (Inr (f (fst w)), w))"

definition next_clock :: "('s, timestamp) io" where
  [io_defs]: "next_clock =
     (\<lambda>(e, s). (Inr (clock e (ticks e)), (e\<lparr>ticks := Suc (ticks e)\<rparr>, s)))"

definition next_uuid :: "('s, uuid) io" where
  [io_defs]: "next_uuid =
     (\<lambda>(e, s). (Inr (uuids e (issued e)), (e\<lparr>issued := Suc (issued e)\<rparr>, s)))"

definition next_fate :: "('s, db_fate) io" where
  [io_defs]: "next_fate =
     (\<lambda>(e, s). (Inr (fates e (roundtrips e)), (e\<lparr>roundtrips := Suc (roundtrips e)\<rparr>, s)))"

text \<open>An operation on a part of the state, given how to read and write the part.\<close>

definition io_zoom :: "('s \<Rightarrow> 't) \<Rightarrow> ('t \<Rightarrow> 's \<Rightarrow> 's) \<Rightarrow> ('t, 'a) io \<Rightarrow> ('s, 'a) io" where
  [io_defs]: "io_zoom get put m =
     (\<lambda>(e, s). case m (e, get s) of (r, (e', t)) \<Rightarrow> (r, (e', put t s)))"

definition io_spec ::
  "('s world \<Rightarrow> bool) \<Rightarrow> ('s, 'a) io \<Rightarrow> ('a \<Rightarrow> 's world \<Rightarrow> bool) \<Rightarrow>
   (error \<Rightarrow> 's world \<Rightarrow> bool) \<Rightarrow> bool" where
  "io_spec P m Q E \<longleftrightarrow>
     (\<forall>w. P w \<longrightarrow> (case m w of (Inl e, w') \<Rightarrow> E e w' | (Inr x, w') \<Rightarrow> Q x w'))"

abbreviation io_keeps :: "('s world \<Rightarrow> bool) \<Rightarrow> ('s, 'a) io \<Rightarrow> bool" where
  "io_keeps P m \<equiv> io_spec P m (\<lambda>_. P) (\<lambda>_. P)"

text \<open>The part of the environment no operation changes.\<close>

definition same_sources :: "env \<Rightarrow> env \<Rightarrow> bool" where
  "same_sources e e' \<longleftrightarrow>
     clock e' = clock e \<and> uuids e' = uuids e \<and> fates e' = fates e \<and>
     db_message e' = db_message e \<and> parse_uuid e' = parse_uuid e \<and>
     sha256_hex e' = sha256_hex e \<and> zod_message e' = zod_message e \<and>
     ticks e \<le> ticks e' \<and> issued e \<le> issued e' \<and> roundtrips e \<le> roundtrips e'"

subsection \<open>Equations of the combinators\<close>

lemma io_bind_return [simp]: "io_bind (io_return x) f = f x"
  by (simp add: io_defs)

lemma io_bind_throw [simp]: "io_bind (io_throw e) f = io_throw e"
  by (simp add: io_defs)

lemma io_bind_assoc: "io_bind (io_bind m f) g = io_bind m (\<lambda>x. io_bind (f x) g)"
  by (auto simp: io_bind_def fun_eq_iff split: prod.splits sum.splits)

lemma io_bind_Inr: "m w = (Inr x, w') \<Longrightarrow> io_bind m f w = f x w'"
  by (simp add: io_bind_def)

lemma io_bind_Inl: "m w = (Inl e, w') \<Longrightarrow> io_bind m f w = (Inl e, w')"
  by (simp add: io_bind_def)

lemma io_bind_eq_Inr:
  "io_bind m f w = (Inr y, w'') \<longleftrightarrow> (\<exists>x w'. m w = (Inr x, w') \<and> f x w' = (Inr y, w''))"
  by (auto simp: io_bind_def split: prod.splits sum.splits)

lemma io_bind_first_eq_Inr:
  "io_bind m (\<lambda>xs. case xs of [] \<Rightarrow> io_throw err | y # ys \<Rightarrow> f y ys) w = (Inr x, w') \<longleftrightarrow>
   (\<exists>y ys w1. m w = (Inr (y # ys), w1) \<and> f y ys w1 = (Inr x, w'))"
  unfolding io_bind_eq_Inr
proof
  assume "\<exists>xs w1. m w = (Inr xs, w1) \<and>
    (case xs of [] \<Rightarrow> io_throw err | y # ys \<Rightarrow> f y ys) w1 = (Inr x, w')"
  then obtain xs w1 where "m w = (Inr xs, w1)"
    and "(case xs of [] \<Rightarrow> io_throw err | y # ys \<Rightarrow> f y ys) w1 = (Inr x, w')"
    by blast
  then show "\<exists>y ys w1. m w = (Inr (y # ys), w1) \<and> f y ys w1 = (Inr x, w')"
    by (cases xs) (auto simp: io_throw_def)
next
  assume "\<exists>y ys w1. m w = (Inr (y # ys), w1) \<and> f y ys w1 = (Inr x, w')"
  then obtain y ys w1 where "m w = (Inr (y # ys), w1)" and "f y ys w1 = (Inr x, w')" by blast
  then show "\<exists>xs w1. m w = (Inr xs, w1) \<and>
    (case xs of [] \<Rightarrow> io_throw err | y # ys \<Rightarrow> f y ys) w1 = (Inr x, w')"
    by (intro exI [of _ "y # ys"]) auto
qed

lemma io_check_eq_Inr:
  "(case z of Inl err \<Rightarrow> io_throw err | Inr u \<Rightarrow> m u) w = (Inr x, w') \<longleftrightarrow>
   z = Inr () \<and> m () w = (Inr x, w')"
  by (cases z) (auto simp: io_throw_def)

lemma io_catch_Inr: "m w = (Inr x, w') \<Longrightarrow> io_catch m h w = (Inr x, w')"
  by (simp add: io_catch_def)

lemma io_catch_Inl: "m w = (Inl e, w') \<Longrightarrow> io_catch m h w = h e w'"
  by (simp add: io_catch_def)

subsection \<open>The triple\<close>

lemma io_specI:
  assumes "\<And>w e w'. P w \<Longrightarrow> m w = (Inl e, w') \<Longrightarrow> E e w'"
    and "\<And>w x w'. P w \<Longrightarrow> m w = (Inr x, w') \<Longrightarrow> Q x w'"
  shows "io_spec P m Q E"
  unfolding io_spec_def
proof (intro allI impI)
  fix w
  assume P: "P w"
  obtain r w' where m: "m w = (r, w')"
    by (rule prod.exhaust)
  show "case m w of (Inl e, w') \<Rightarrow> E e w' | (Inr x, w') \<Rightarrow> Q x w'"
  proof (cases r)
    case (Inl e)
    then show ?thesis using assms(1) [OF P, of e w'] m by simp
  next
    case (Inr x)
    then show ?thesis using assms(2) [OF P, of x w'] m by simp
  qed
qed

lemma io_spec_at:
  "io_spec P m Q E \<Longrightarrow> P w \<Longrightarrow>
   (case m w of (Inl e, w') \<Rightarrow> E e w' | (Inr x, w') \<Rightarrow> Q x w')"
  unfolding io_spec_def by (drule spec [of _ w]) (erule mp)

lemma io_specD_Inr: "io_spec P m Q E \<Longrightarrow> P w \<Longrightarrow> m w = (Inr x, w') \<Longrightarrow> Q x w'"
  by (drule (1) io_spec_at) simp

lemma io_specD_Inl: "io_spec P m Q E \<Longrightarrow> P w \<Longrightarrow> m w = (Inl e, w') \<Longrightarrow> E e w'"
  by (drule (1) io_spec_at) simp

lemma io_keepsD: "io_keeps P m \<Longrightarrow> P w \<Longrightarrow> P (snd (m w))"
  by (drule (1) io_spec_at) (auto split: prod.splits sum.splits)

lemma io_spec_weaken:
  assumes "io_spec P m Q E" and "\<And>w. P' w \<Longrightarrow> P w"
    and "\<And>x w. Q x w \<Longrightarrow> Q' x w" and "\<And>e w. E e w \<Longrightarrow> E' e w"
  shows "io_spec P' m Q' E'"
proof (rule io_specI)
  show "E' e w'" if "P' w" "m w = (Inl e, w')" for w e w'
    using io_specD_Inl [OF assms(1) _ that(2)] that(1) assms(2,4) by blast
  show "Q' x w'" if "P' w" "m w = (Inr x, w')" for w x w'
    using io_specD_Inr [OF assms(1) _ that(2)] that(1) assms(2,3) by blast
qed

lemma io_spec_ex:
  assumes "\<And>n. io_spec (P n) m Q E"
  shows "io_spec (\<lambda>w. \<exists>n. P n w) m Q E"
proof (rule io_specI)
  show "E e w'" if "\<exists>n. P n w" and "m w = (Inl e, w')" for w e w'
    using that io_specD_Inl [OF assms] by blast
  show "Q x w'" if "\<exists>n. P n w" and "m w = (Inr x, w')" for w x w'
    using that io_specD_Inr [OF assms] by blast
qed

lemma io_spec_never: "(\<And>w. \<not> P w) \<Longrightarrow> io_spec P m Q E"
  unfolding io_spec_def by blast

lemma io_spec_return [io_rules]: "(\<And>w. P w \<Longrightarrow> Q x w) \<Longrightarrow> io_spec P (io_return x) Q E"
  by (simp add: io_spec_def io_defs)

lemma io_spec_throw [io_rules]: "(\<And>w. P w \<Longrightarrow> E e w) \<Longrightarrow> io_spec P (io_throw e) Q E"
  by (simp add: io_spec_def io_defs)

lemma io_spec_bind:
  assumes "io_spec P m R E" and "\<And>x. io_spec (R x) (f x) Q E"
  shows "io_spec P (io_bind m f) Q E"
  by (rule io_specI)
     (auto simp: io_bind_def split: prod.splits sum.splits
       dest: io_specD_Inr [OF assms(1)] io_specD_Inl [OF assms(1)]
             io_specD_Inr [OF assms(2)] io_specD_Inl [OF assms(2)])

lemma io_keeps_bind [io_rules]:
  "io_keeps P m \<Longrightarrow> (\<And>x. io_keeps P (f x)) \<Longrightarrow> io_keeps P (io_bind m f)"
  by (rule io_spec_bind)

lemma io_keeps_catch [io_rules]:
  assumes "io_keeps P m" and "\<And>e. io_keeps P (h e)"
  shows "io_keeps P (io_catch m h)"
  by (rule io_specI)
     (auto simp: io_catch_def split: prod.splits sum.splits
       dest: io_specD_Inr [OF assms(1)] io_specD_Inl [OF assms(1)]
             io_specD_Inr [OF assms(2)] io_specD_Inl [OF assms(2)])

lemma io_keeps_get [io_rules]: "io_keeps P (io_get f)"
  by (simp add: io_spec_def io_defs)

lemma io_keeps_env [io_rules]: "io_keeps P (io_env f)"
  by (simp add: io_spec_def io_defs)

lemma io_keeps_modify [io_rules]:
  "(\<And>e s. P (e, s) \<Longrightarrow> P (e, f s)) \<Longrightarrow> io_keeps P (io_modify f)"
  by (auto simp: io_spec_def io_defs)

lemma io_keeps_if [io_rules]:
  "(b \<Longrightarrow> io_keeps P m) \<Longrightarrow> (\<not> b \<Longrightarrow> io_keeps P n) \<Longrightarrow> io_keeps P (if b then m else n)"
  by simp

lemma io_keeps_case_option [io_rules]:
  "(x = None \<Longrightarrow> io_keeps P m) \<Longrightarrow> (\<And>y. x = Some y \<Longrightarrow> io_keeps P (f y)) \<Longrightarrow>
   io_keeps P (case x of None \<Rightarrow> m | Some y \<Rightarrow> f y)"
  by (cases x) auto

text \<open>Predicates of the state alone are kept by the readings of the environment.\<close>

lemma io_keeps_readings [io_rules]:
  "io_keeps (\<lambda>w. P (snd w)) next_clock"
  "io_keeps (\<lambda>w. P (snd w)) next_uuid"
  "io_keeps (\<lambda>w. P (snd w)) next_fate"
  by (auto simp: io_spec_def io_defs)

lemma same_sources_refl [simp]: "same_sources e e"
  by (simp add: same_sources_def)

lemma same_sources_trans: "same_sources e e' \<Longrightarrow> same_sources e' e'' \<Longrightarrow> same_sources e e''"
  by (auto simp: same_sources_def)

lemma same_sources_readings [simp]:
  "same_sources e (e\<lparr>ticks := Suc (ticks e)\<rparr>)"
  "same_sources e (e\<lparr>issued := Suc (issued e)\<rparr>)"
  "same_sources e (e\<lparr>roundtrips := Suc (roundtrips e)\<rparr>)"
  by (simp_all add: same_sources_def)

section \<open>A concrete environment\<close>

definition sample_env :: env where
  "sample_env =
     \<lparr>clock = (\<lambda>n. n), ticks = 0, uuids = (\<lambda>n. replicate (Suc n) CHR ''a''), issued = 0,
      fates = (\<lambda>_. Performed), roundtrips = 0, db_message = (\<lambda>_. ''database error''),
      parse_uuid = Some, sha256_hex = (\<lambda>k. k),
      zod_message = ''parse error''\<rparr>"

lemma sample_env_simps [simp]:
  "clock sample_env n = n" "ticks sample_env = 0" "issued sample_env = 0"
  "uuids sample_env n = replicate (Suc n) CHR ''a''" "fates sample_env n = Performed"
  "roundtrips sample_env = 0" "parse_uuid sample_env = Some" "sha256_hex sample_env k = k"
  "db_message sample_env d = ''database error''"
  by (simp_all add: sample_env_def)

lemma inj_sample_uuids: "inj (uuids sample_env)"
  by (rule injI) (metis Suc_inject length_replicate sample_env_simps(4))

end
