(* ===== verification/JsValues.thy ===== *)
theory JsValues
  imports Contracts Effects
begin

text \<open>
  JSON values as JavaScript programs read them without a schema, for the console and the check of
  the evidence files. \<open>None\<close> is \<open>undefined\<close>. \<open>js_get\<close> is member access, which throws on \<open>undefined\<close> and
  \<open>null\<close>, and \<open>js_optional_get\<close> is \<open>?.\<close>; none of the member names the sources use is a property of
  a string, a number, a truth value or an array. \<open>platform\<close> has what the engine supplies: the text
  of a type error, of a JSON value that is not a string where a text is needed, of a time of day,
  of an amount that is not a whole number of cents, and the number an object, an array or a
  string is turned into where a number is needed, \<open>None\<close> standing for \<open>NaN\<close>.
\<close>

section \<open>Values\<close>

record platform =
  pf_typeError :: string
  pf_toText :: "json \<Rightarrow> string"
  pf_time :: "json option \<Rightarrow> string"
  pf_amount :: "json option \<Rightarrow> string"
  pf_toNumber :: "json \<Rightarrow> rat option"

fun js_get :: "platform \<Rightarrow> json option \<Rightarrow> string \<Rightarrow> json option result" where
  "js_get pf None k = Inl (Error (pf_typeError pf))"
| "js_get pf (Some JNull) k = Inl (Error (pf_typeError pf))"
| "js_get pf (Some (JObj ms)) k = Inr (map_of ms k)"
| "js_get pf (Some j) k = Inr None"

fun js_optional_get :: "json option \<Rightarrow> string \<Rightarrow> json option" where
  "js_optional_get (Some (JObj ms)) k = map_of ms k"
| "js_optional_get j k = None"

fun js_truthy :: "json option \<Rightarrow> bool" where
  "js_truthy None = False"
| "js_truthy (Some JNull) = False"
| "js_truthy (Some (JBool b)) = b"
| "js_truthy (Some (JNum r)) = (r \<noteq> 0)"
| "js_truthy (Some (JStr s)) = (s \<noteq> [])"
| "js_truthy (Some j) = True"

fun js_text :: "platform \<Rightarrow> json option \<Rightarrow> string" where
  "js_text pf None = ''undefined''"
| "js_text pf (Some (JStr s)) = s"
| "js_text pf (Some j) = pf_toText pf j"

definition result_bind :: "'a result \<Rightarrow> ('a \<Rightarrow> 'b result) \<Rightarrow> 'b result" where
  "result_bind r f = (case r of Inl e \<Rightarrow> Inl e | Inr x \<Rightarrow> f x)"

fun js_number :: "platform \<Rightarrow> json option \<Rightarrow> rat option" where
  "js_number pf None = None"
| "js_number pf (Some JNull) = Some 0"
| "js_number pf (Some (JBool b)) = Some (if b then 1 else 0)"
| "js_number pf (Some (JNum r)) = Some r"
| "js_number pf (Some j) = pf_toNumber pf j"

definition js_le :: "platform \<Rightarrow> json option \<Rightarrow> rat \<Rightarrow> bool" where
  "js_le pf j n = (case js_number pf j of None \<Rightarrow> False | Some r \<Rightarrow> r \<le> n)"

definition js_ge :: "platform \<Rightarrow> json option \<Rightarrow> rat \<Rightarrow> bool" where
  "js_ge pf j n = (case js_number pf j of None \<Rightarrow> False | Some r \<Rightarrow> n \<le> r)"

text \<open>\<open>Array.isArray(x) && x.length > 0\<close>.\<close>

fun nonempty_array :: "json option \<Rightarrow> bool" where
  "nonempty_array (Some (JArr js)) = (js \<noteq> [])"
| "nonempty_array j = False"

end
