(* ===== verification/Console.thy ===== *)
theory Console
  imports JsValues
begin

text \<open>
  The console (\<open>apps/console/src/App.tsx\<close>): the state of the page, the four actions behind its
  buttons, the condition under which it polls, and what it shows.

  Values the page receives are JSON values and the page reads their members without checking
  them, so a run is whatever the server answered. \<open>fetch\<close> is an argument of the actions, the
  network and the server behind it; \<open>'w\<close> is their state. An action runs from the click to its
  end; a click that comes while it waits is not modelled, the buttons are disabled then. The three
  dots of the texts are an ellipsis in the source.
\<close>

section \<open>Numbers as text\<close>

text \<open>\<open>(cents / 100).toFixed(2)\<close> on a whole number of cents.\<close>

definition show_cents :: "platform \<Rightarrow> json option \<Rightarrow> string" where
  "show_cents pf j =
     (case j of
        Some (JNum r) \<Rightarrow>
          if 0 \<le> r \<and> of_int \<lfloor>r\<rfloor> = r
          then (let n = nat \<lfloor>r\<rfloor> in
                show_nat (n div 100) @ ''.'' @ show_nat (n mod 100 div 10) @ show_nat (n mod 10))
          else pf_amount pf j
      | _ \<Rightarrow> pf_amount pf j)"

section \<open>The page\<close>

record console =
  c_apiUrl :: string
  c_tenantId :: string
  c_apiKey :: string
  c_run :: "json option"
  c_message :: string
  c_busy :: bool

definition initial_console :: console where
  "initial_console =
     \<lparr>c_apiUrl = ''http://127.0.0.1:3001'', c_tenantId = ''demo-tenant'',
      c_apiKey = ''replace-with-a-long-local-key'', c_run = None,
      c_message = ''Connect locally, then create a synthetic approval-gated run.'', c_busy = False\<rparr>"

definition demoWorkflow :: "(string \<times> json) list" where
  "demoWorkflow =
     [(''name'', JStr ''research-demo''), (''version'', JStr ''v1''), (''budgetCents'', JNum 100),
      (''allowedHosts'', JArr [JStr ''example.test'']),
      (''steps'', JArr
        [JObj [(''kind'', JStr ''tool''), (''tool'', JStr ''mock_data_read''), (''sideEffect'', JBool False)],
         JObj [(''kind'', JStr ''transform''), (''operation'', JStr ''extract_json''),
               (''input'', JStr ''summarize fixture findings'')],
         JObj [(''kind'', JStr ''approval''), (''reason'', JStr ''Confirm mock ticket creation'')],
         JObj [(''kind'', JStr ''tool''), (''tool'', JStr ''mock_ticket_write''), (''sideEffect'', JBool True)]])]"

definition stateLabel :: "platform \<Rightarrow> json option \<Rightarrow> string result" where
  "stateLabel pf state =
     (case state of
        None \<Rightarrow> Inr ''not started''
      | Some JNull \<Rightarrow> Inr ''not started''
      | Some (JStr s) \<Rightarrow> Inr (map (\<lambda>c. if c = CHR ''_'' then CHR '' '' else c) s)
      | Some _ \<Rightarrow> Inl (Error (pf_typeError pf)))"

record http_call =
  ca_method :: string
  ca_url :: string
  ca_headers :: "(string \<times> string) list"
  ca_body :: "json option"

text \<open>A response: its status and its body, \<open>None\<close> when that is no JSON text.\<close>

record http_response =
  re_status :: nat
  re_body :: "json option"

record 'w tab =
  tab_page :: console
  tab_outside :: 'w

type_synonym 'w fetch = "http_call \<Rightarrow> ('w, http_response) io"

record request_init =
  in_method :: string
  in_headers :: "(string \<times> string) list"
  in_body :: "json option"

abbreviation outside :: "('w, 'a) io \<Rightarrow> ('w tab, 'a) io" where
  "outside \<equiv> io_zoom tab_outside (\<lambda>w t. t\<lparr>tab_outside := w\<rparr>)"

definition set_page :: "(console \<Rightarrow> console) \<Rightarrow> ('w tab, unit) io" where
  "set_page f = io_modify (\<lambda>t. t\<lparr>tab_page := f (tab_page t)\<rparr>)"

definition setRun :: "json option \<Rightarrow> ('w tab, unit) io" where
  "setRun run = set_page (\<lambda>p. p\<lparr>c_run := run\<rparr>)"

definition setMessage :: "string \<Rightarrow> ('w tab, unit) io" where
  "setMessage m = set_page (\<lambda>p. p\<lparr>c_message := m\<rparr>)"

definition setBusy :: "bool \<Rightarrow> ('w tab, unit) io" where
  "setBusy b = set_page (\<lambda>p. p\<lparr>c_busy := b\<rparr>)"

text \<open>What the three inputs do at a change.\<close>

definition setApiUrl :: "string \<Rightarrow> ('w tab, unit) io" where
  "setApiUrl u = set_page (\<lambda>p. p\<lparr>c_apiUrl := u\<rparr>)"

definition setTenantId :: "string \<Rightarrow> ('w tab, unit) io" where
  "setTenantId x = set_page (\<lambda>p. p\<lparr>c_tenantId := x\<rparr>)"

definition setApiKey :: "string \<Rightarrow> ('w tab, unit) io" where
  "setApiKey k = set_page (\<lambda>p. p\<lparr>c_apiKey := k\<rparr>)"

definition io_try :: "'a result \<Rightarrow> ('s, 'a) io" where
  "io_try r = (case r of Inl e \<Rightarrow> io_throw e | Inr x \<Rightarrow> io_return x)"

text \<open>\<open>{ ...left, ...right }\<close>: the members of the left with the values of the right, then the rest.\<close>

definition spread :: "(string \<times> 'v) list \<Rightarrow> (string \<times> 'v) list \<Rightarrow> (string \<times> 'v) list" where
  "spread left right =
     map (\<lambda>(k, v). (k, case map_of right k of None \<Rightarrow> v | Some x \<Rightarrow> x)) left @
     filter (\<lambda>(k, v). k \<notin> set (map fst left)) right"

definition page_headers :: "console \<Rightarrow> (string \<times> string) list" where
  "page_headers p =
     [(''content-type'', ''application/json''), (''x-tenant-id'', c_tenantId p), (''x-api-key'', c_apiKey p)]"

definition request_call :: "console \<Rightarrow> string \<Rightarrow> request_init \<Rightarrow> http_call" where
  "request_call page path init =
     (let merged = spread (page_headers page) (in_headers init);
          requestHeaders = (if in_body init = None then filter (\<lambda>(k, v). k \<noteq> ''content-type'') merged
                            else merged) in
      \<lparr>ca_method = in_method init, ca_url = c_apiUrl page @ path, ca_headers = requestHeaders,
       ca_body = in_body init\<rparr>)"

definition request :: "platform \<Rightarrow> 'w fetch \<Rightarrow> string \<Rightarrow> request_init \<Rightarrow> ('w tab, json option) io" where
  "request pf fetch path init =
     io_bind (io_get tab_page) (\<lambda>page.
     io_bind (outside (fetch (request_call page path init))) (\<lambda>response.
     let body = Some (case re_body response of None \<Rightarrow> JObj [] | Some j \<Rightarrow> j) in
     if 200 \<le> re_status response \<and> re_status response < 300 then io_return body
     else io_bind (io_try (js_get pf body ''error'')) (\<lambda>reason.
       io_throw (Error
         (if reason = None \<or> reason = Some JNull
          then ''Request failed ('' @ show_nat (re_status response) @ '')''
          else js_text pf reason)))))"

definition post :: "json option \<Rightarrow> (string \<times> string) list \<Rightarrow> request_init" where
  "post body headers = \<lparr>in_method = ''POST'', in_headers = headers, in_body = body\<rparr>"

definition get_init :: request_init where
  "get_init = \<lparr>in_method = ''GET'', in_headers = [], in_body = None\<rparr>"

section \<open>The actions\<close>

definition create_work :: "platform \<Rightarrow> 'w fetch \<Rightarrow> ('w tab, unit) io" where
  "create_work pf fetch =
     io_bind next_uuid (\<lambda>ending.
     io_bind (request pf fetch ''/v1/workflows'' (post
       (Some (JObj (spread demoWorkflow [(''name'', JStr (''research-demo-'' @ take 8 ending))]))) [])) (\<lambda>workflow.
     io_bind (setMessage ''Queueing an idempotent run. No provider key or real external action is used.'') (\<lambda>_.
     io_bind next_uuid (\<lambda>key.
     io_bind (io_try (js_get pf workflow ''workflow'')) (\<lambda>inner.
     io_bind (io_try (js_get pf inner ''id'')) (\<lambda>workflowId.
     io_bind (request pf fetch ''/v1/runs'' (post
       (Some (JObj ((case workflowId of None \<Rightarrow> [] | Some j \<Rightarrow> [(''workflowId'', j)]) @
          [(''input'', JObj [(''query'', JStr ''synthetic safe fixture'')])])))
       [(''idempotency-key'', key)])) (\<lambda>created.
     io_bind (io_try (js_get pf created ''run'')) (\<lambda>run.
     io_bind (setRun run) (\<lambda>_.
     setMessage ''Run queued. The worker will stop at approval before the mock side effect.'')))))))))"

definition createDemoRun :: "platform \<Rightarrow> 'w fetch \<Rightarrow> ('w tab, unit) io" where
  "createDemoRun pf fetch =
     io_bind (setBusy True) (\<lambda>_.
     io_bind (setMessage ''Creating immutable workflow definition...'') (\<lambda>_.
     io_finally (io_catch (create_work pf fetch) (\<lambda>err. setMessage (message err))) (setBusy False)))"

text \<open>The three actions on the run shown: they do nothing without one.\<close>

definition run_url :: "string \<Rightarrow> string" where
  "run_url i = ''/v1/runs/'' @ i"

definition approve_url :: "string \<Rightarrow> string" where
  "approve_url i = ''/v1/runs/'' @ i @ ''/approve''"

definition cancel_url :: "string \<Rightarrow> string" where
  "cancel_url i = ''/v1/runs/'' @ i @ ''/cancel''"

definition run_work ::
  "platform \<Rightarrow> 'w fetch \<Rightarrow> (string \<Rightarrow> string) \<Rightarrow> request_init \<Rightarrow> string \<Rightarrow> json option \<Rightarrow> ('w tab, unit) io" where
  "run_work pf fetch path init text run =
     io_bind (io_try (js_get pf run ''id'')) (\<lambda>i.
     io_bind (request pf fetch (path (js_text pf i)) init) (\<lambda>result.
     io_bind (io_try (js_get pf result ''run'')) (\<lambda>updated.
     io_bind (setRun updated) (\<lambda>_.
     setMessage text))))"

definition on_run ::
  "platform \<Rightarrow> 'w fetch \<Rightarrow> (string \<Rightarrow> string) \<Rightarrow> request_init \<Rightarrow> string \<Rightarrow> ('w tab, unit) io" where
  "on_run pf fetch path init text =
     io_bind (io_get (\<lambda>t. c_run (tab_page t))) (\<lambda>run.
     if \<not> js_truthy run then io_return ()
     else
       io_bind (setBusy True) (\<lambda>_.
       io_finally (io_catch (run_work pf fetch path init text run) (\<lambda>err. setMessage (message err)))
         (setBusy False)))"

definition refresh :: "platform \<Rightarrow> 'w fetch \<Rightarrow> ('w tab, unit) io" where
  "refresh pf fetch = on_run pf fetch run_url get_init ''Run refreshed.''"

definition approve :: "platform \<Rightarrow> 'w fetch \<Rightarrow> ('w tab, unit) io" where
  "approve pf fetch = on_run pf fetch approve_url (post None [])
     ''Approval recorded. The run is safely re-queued at the next step.''"

definition cancel :: "platform \<Rightarrow> 'w fetch \<Rightarrow> ('w tab, unit) io" where
  "cancel pf fetch = on_run pf fetch cancel_url (post None [])
     ''Cancellation recorded. No new work will be leased.''"

definition polls :: "json option \<Rightarrow> bool" where
  "polls run \<longleftrightarrow>
     js_truthy run \<and>
     (case run of
        Some (JObj ms) \<Rightarrow> map_of ms ''state'' \<notin> (Some \<circ> JStr) `
          set [''succeeded'', ''failed'', ''cancelled'', ''uncertain'', ''awaiting_approval'']
      | _ \<Rightarrow> True)"

section \<open>What the page shows\<close>

datatype button = Refresh_timeline | Approve_mock_ticket | Cancel_run

record page_view =
  vw_inputs :: "string list"
  vw_createLabel :: string
  vw_createDisabled :: bool
  vw_notice :: string
  vw_status :: string
  vw_summary :: string
  vw_buttons :: "(button \<times> bool) list"
  vw_timeline :: "(string \<times> string \<times> json option) list"

definition state_is :: "json option \<Rightarrow> string \<Rightarrow> bool" where
  "state_is state name \<longleftrightarrow> state = Some (JStr name)"

definition js_slice8 :: "platform \<Rightarrow> json option \<Rightarrow> string result" where
  "js_slice8 pf j =
     (case j of
        Some (JStr s) \<Rightarrow> Inr (take 8 s)
      | Some (JArr js) \<Rightarrow> Inr (pf_toText pf (JArr (take 8 js)))
      | _ \<Rightarrow> Inl (Error (pf_typeError pf)))"

definition run_summary :: "platform \<Rightarrow> json option \<Rightarrow> string result" where
  "run_summary pf run =
     (if \<not> js_truthy run then Inr ''No run created yet''
      else result_bind (js_get pf run ''id'') (\<lambda>i. result_bind (js_slice8 pf i) (\<lambda>short.
        result_bind (js_get pf run ''budgetCents'') (\<lambda>budget.
        Inr (''Run '' @ short @ '' '' @ [CHR 0xB7] @ '' budget '' @ show_cents pf budget @ '' USD'')))))"


definition run_buttons :: "bool \<Rightarrow> json option \<Rightarrow> (button \<times> bool) list" where
  "run_buttons busy run =
     (if \<not> js_truthy run then []
      else
       (let state = js_optional_get run ''state'' in
        [(Refresh_timeline, busy)] @
        (if state_is state ''awaiting_approval'' then [(Approve_mock_ticket, busy)] else []) @
        (if list_ex (state_is state) [''succeeded'', ''failed'', ''cancelled'', ''uncertain''] then []
         else [(Cancel_run, busy)])))"

text \<open>\<open>run?.events.length\<close> decides between the list and the placeholder; only an array has \<open>map\<close>.\<close>

definition shown_events :: "platform \<Rightarrow> json option \<Rightarrow> json list result" where
  "shown_events pf run =
     (if run = None \<or> run = Some JNull then Inr []
      else result_bind (js_get pf run ''events'') (\<lambda>events.
        case events of
          None \<Rightarrow> Inl (Error (pf_typeError pf))
        | Some JNull \<Rightarrow> Inl (Error (pf_typeError pf))
        | Some (JArr js) \<Rightarrow> Inr js
        | Some (JStr s) \<Rightarrow> if s = [] then Inr [] else Inl (Error (pf_typeError pf))
        | Some (JObj ms) \<Rightarrow>
            if js_truthy (map_of ms ''length'') then Inl (Error (pf_typeError pf)) else Inr []
        | Some _ \<Rightarrow> Inr []))"

fun timeline :: "platform \<Rightarrow> json list \<Rightarrow> (string \<times> string \<times> json option) list result" where
  "timeline pf [] = Inr []"
| "timeline pf (event # events) =
     result_bind (js_get pf (Some event) ''at'') (\<lambda>time.
     result_bind (stateLabel pf (js_optional_get (Some event) ''type'')) (\<lambda>label.
     result_bind (timeline pf events) (\<lambda>rows.
     Inr ((pf_time pf time, label, js_optional_get (Some event) ''detail'') # rows))))"

definition render :: "platform \<Rightarrow> console \<Rightarrow> page_view result" where
  "render pf p =
     result_bind (stateLabel pf (js_optional_get (c_run p) ''state'')) (\<lambda>status.
     result_bind (run_summary pf (c_run p)) (\<lambda>summary.
     result_bind (shown_events pf (c_run p)) (\<lambda>events.
     result_bind (timeline pf events) (\<lambda>rows.
     Inr \<lparr>vw_inputs = [c_apiUrl p, c_tenantId p, c_apiKey p],
          vw_createLabel = (if c_busy p then ''Working...'' else ''Create synthetic run''),
          vw_createDisabled = c_busy p, vw_notice = c_message p, vw_status = status,
          vw_summary = summary, vw_buttons = run_buttons (c_busy p) (c_run p), vw_timeline = rows\<rparr>))))"

section \<open>The frame of an action\<close>

lemma set_page_eq: "set_page f (e, t) = (Inr (), (e, t\<lparr>tab_page := f (tab_page t)\<rparr>))"
  by (simp add: set_page_def io_modify_def)

lemmas page_defs = setRun_def setMessage_def setBusy_def set_page_eq

definition same_connection :: "console \<Rightarrow> console \<Rightarrow> bool" where
  "same_connection p p' \<longleftrightarrow>
     c_apiUrl p' = c_apiUrl p \<and> c_tenantId p' = c_tenantId p \<and> c_apiKey p' = c_apiKey p"

datatype action = Create_demo | Refresh | Approve | Cancel

fun perform :: "platform \<Rightarrow> 'w fetch \<Rightarrow> action \<Rightarrow> ('w tab, unit) io" where
  "perform pf fetch Create_demo = createDemoRun pf fetch"
| "perform pf fetch Refresh = refresh pf fetch"
| "perform pf fetch Approve = approve pf fetch"
| "perform pf fetch Cancel = cancel pf fetch"

text \<open>What the body of an action may do to the page: it leaves the connection and the busy flag,
  and the run too when it throws.\<close>

definition tidy :: "('w tab, unit) io \<Rightarrow> bool" where
  "tidy work \<longleftrightarrow>
     (\<forall>e t r e' t'. work (e, t) = (r, (e', t')) \<longrightarrow>
        same_connection (tab_page t) (tab_page t') \<and> c_busy (tab_page t') = c_busy (tab_page t) \<and>
        (\<forall>err. r = Inl err \<longrightarrow> c_run (tab_page t') = c_run (tab_page t)))"

lemma same_connection_refl [simp]: "same_connection p p"
  by (simp add: same_connection_def)

lemma tidyD:
  "tidy work \<Longrightarrow> work (e, t) = (r, (e', t')) \<Longrightarrow>
     same_connection (tab_page t) (tab_page t') \<and> c_busy (tab_page t') = c_busy (tab_page t) \<and>
     (r = Inl err \<longrightarrow> c_run (tab_page t') = c_run (tab_page t))"
  unfolding tidy_def by blast

lemma outside_page: "outside m (e, t) = (r, (e', t')) \<Longrightarrow> tab_page t' = tab_page t"
  by (auto simp: io_zoom_def split: prod.splits)

lemma request_page: "request pf fetch path init (e, t) = (r, (e', t')) \<Longrightarrow> tab_page t' = tab_page t"
  unfolding request_def
  by (auto simp: io_bind_def io_get_def Let_def io_return_def io_throw_def io_try_def
      dest!: outside_page split: prod.splits sum.splits if_splits)

lemma tidy_last: "tidy (io_bind (setRun run) (\<lambda>_. setMessage text))"
  by (auto simp: tidy_def io_bind_def page_defs same_connection_def)

lemma tidy_keep:
  assumes "\<And>e t r e' t'. m (e, t) = (r, (e', t')) \<Longrightarrow>
      same_connection (tab_page t) (tab_page t') \<and> c_busy (tab_page t') = c_busy (tab_page t) \<and>
      c_run (tab_page t') = c_run (tab_page t)"
    and "\<And>x. tidy (f x)"
  shows "tidy (io_bind m f)"
  unfolding tidy_def
proof (intro allI impI)
  fix e t r e' t'
  assume run: "io_bind m f (e, t) = (r, (e', t'))"
  obtain r1 e1 t1 where m: "m (e, t) = (r1, (e1, t1))" using prod_cases3 by blast
  note keep = assms(1) [OF m]
  show "same_connection (tab_page t) (tab_page t') \<and> c_busy (tab_page t') = c_busy (tab_page t) \<and>
        (\<forall>err. r = Inl err \<longrightarrow> c_run (tab_page t') = c_run (tab_page t))"
  proof (cases r1)
    case (Inl err)
    with run m keep show ?thesis by (auto simp: io_bind_def)
  next
    case (Inr x)
    with run m have "f x (e1, t1) = (r, (e', t'))" by (simp add: io_bind_def)
    from tidyD [OF assms(2) this] keep show ?thesis by (auto simp: same_connection_def)
  qed
qed

lemma tidy_request: "(\<And>x. tidy (f x)) \<Longrightarrow> tidy (io_bind (request pf fetch path init) f)"
  by (rule tidy_keep) (use request_page in \<open>fastforce+\<close>)

lemma tidy_try: "(\<And>x. tidy (f x)) \<Longrightarrow> tidy (io_bind (io_try r) f)"
  by (rule tidy_keep) (auto simp: io_try_def io_throw_def io_return_def split: sum.splits)

lemma tidy_uuid: "(\<And>x. tidy (f x)) \<Longrightarrow> tidy (io_bind next_uuid f)"
  by (rule tidy_keep) (auto simp: next_uuid_def)

lemma tidy_message: "tidy m \<Longrightarrow> tidy (io_bind (setMessage text) (\<lambda>_. m))"
  by (rule tidy_keep) (auto simp: page_defs same_connection_def)

lemmas tidy_rules = tidy_last tidy_request tidy_try tidy_uuid tidy_message

lemma settled:
  assumes "tidy work"
  shows "\<exists>e' t'. io_finally (io_catch work (\<lambda>err. setMessage (message err))) (setBusy False) (e, t) = (Inr (), (e', t')) \<and>
    same_connection (tab_page t) (tab_page t') \<and> \<not> c_busy (tab_page t') \<and>
    (\<forall>err w. work (e, t) = (Inl err, w) \<longrightarrow>
       c_run (tab_page t') = c_run (tab_page t) \<and> c_message (tab_page t') = message err)"
proof -
  obtain r e1 t1 where run: "work (e, t) = (r, (e1, t1))" using prod_cases3 by blast
  from tidyD [OF assms run] show ?thesis
    using run by (cases r) (auto simp: io_finally_def io_catch_def page_defs same_connection_def)
qed

lemma tidy_create: "tidy (create_work pf fetch)"
  unfolding create_work_def by (intro tidy_rules)

lemma tidy_run: "tidy (run_work pf fetch path init text run)"
  unfolding run_work_def by (intro tidy_rules)

text \<open>The work of an action, between the moment the page is busy and the \<open>finally\<close>.\<close>

fun action_work :: "platform \<Rightarrow> 'w fetch \<Rightarrow> json option \<Rightarrow> action \<Rightarrow> ('w tab, unit) io" where
  "action_work pf fetch run Create_demo = create_work pf fetch"
| "action_work pf fetch run Refresh =
     run_work pf fetch run_url get_init ''Run refreshed.'' run"
| "action_work pf fetch run Approve =
     run_work pf fetch approve_url (post None [])
       ''Approval recorded. The run is safely re-queued at the next step.'' run"
| "action_work pf fetch run Cancel =
     run_work pf fetch cancel_url (post None [])
       ''Cancellation recorded. No new work will be leased.'' run"

definition begun :: "action \<Rightarrow> 'w tab \<Rightarrow> 'w tab" where
  "begun a t = t\<lparr>tab_page := (tab_page t)\<lparr>c_busy := True, c_message :=
     (if a = Create_demo then ''Creating immutable workflow definition...'' else c_message (tab_page t))\<rparr>\<rparr>"

definition idle :: "action \<Rightarrow> console \<Rightarrow> bool" where
  "idle a p \<longleftrightarrow> a \<noteq> Create_demo \<and> \<not> js_truthy (c_run p)"

lemma perform_eq:
  "perform pf fetch a (e, t) =
     (if idle a (tab_page t) then (Inr (), (e, t))
      else io_finally (io_catch (action_work pf fetch (c_run (tab_page t)) a) (\<lambda>err. setMessage (message err)))
             (setBusy False) (e, begun a t))"
  by (cases a) (auto simp: createDemoRun_def refresh_def approve_def cancel_def on_run_def io_bind_def io_get_def
      io_return_def page_defs begun_def idle_def)

lemma tidy_work: "tidy (action_work pf fetch run a)"
  by (cases a) (simp_all add: tidy_create tidy_run)


text \<open>The calls the console is meant to make over a connection.\<close>

definition console_call :: "console \<Rightarrow> http_call \<Rightarrow> bool" where
  "console_call p c \<longleftrightarrow>
     (\<exists>path. ca_url c = c_apiUrl p @ ''/v1/'' @ path) \<and> ca_method c \<in> {''GET'', ''POST''} \<and>
     map_of (ca_headers c) ''x-tenant-id'' = Some (c_tenantId p) \<and>
     map_of (ca_headers c) ''x-api-key'' = Some (c_apiKey p) \<and>
     (map_of (ca_headers c) ''content-type'' = (if ca_body c = None then None else Some ''application/json''))"

definition plain_init :: "request_init \<Rightarrow> bool" where
  "plain_init init \<longleftrightarrow> in_method init \<in> {''GET'', ''POST''} \<and>
     set (map fst (in_headers init)) \<inter> {''x-tenant-id'', ''x-api-key'', ''content-type''} = {}"

definition agree_on :: "console \<Rightarrow> 'w fetch \<Rightarrow> 'w fetch \<Rightarrow> bool" where
  "agree_on p f g \<longleftrightarrow> (\<forall>c. console_call p c \<longrightarrow> f c = g c)"

lemma agree_connection: "same_connection p p' \<Longrightarrow> agree_on p f g = agree_on p' f g"
  by (simp add: agree_on_def console_call_def same_connection_def)

lemma map_of_map_filter_None: "map_of (filter (\<lambda>(k, v). k \<noteq> x) xs) x = None"
  by (auto simp: map_of_eq_None_iff)

lemma map_of_filter_other: "k \<noteq> x \<Longrightarrow> map_of (filter (\<lambda>(k, v). k \<noteq> x) xs) k = map_of xs k"
  by (induction xs) auto

lemma request_call_ok:
  assumes "plain_init init"
  shows "console_call p (request_call p (''/v1/'' @ path) init)"
proof -
  have absent: "map_of (in_headers init) ''x-tenant-id'' = None" "map_of (in_headers init) ''x-api-key'' = None"
      "map_of (in_headers init) ''content-type'' = None"
    using assms by (auto simp: plain_init_def map_of_eq_None_iff)
  then have merged: "map_of (spread (page_headers p) (in_headers init)) ''x-tenant-id'' = Some (c_tenantId p)"
      "map_of (spread (page_headers p) (in_headers init)) ''x-api-key'' = Some (c_apiKey p)"
      "map_of (spread (page_headers p) (in_headers init)) ''content-type'' = Some ''application/json''"
    by (simp_all add: spread_def page_headers_def)
  show ?thesis
  proof (cases "in_body init")
    case None
    with merged assms show ?thesis
      by (simp add: console_call_def request_call_def Let_def plain_init_def map_of_map_filter_None
          map_of_filter_other)
  next
    case (Some j)
    with merged assms show ?thesis
      by (simp add: console_call_def request_call_def Let_def plain_init_def)
  qed
qed

lemma request_agree:
  assumes "agree_on p f g" and "same_connection p (tab_page t)" and "plain_init init"
  shows "request pf f (''/v1/'' @ path) init (e, t) = request pf g (''/v1/'' @ path) init (e, t)"
proof -
  let ?c = "request_call (tab_page t) (''/v1/'' @ path) init"
  have "f ?c = g ?c"
    using agree_connection [THEN iffD1, OF assms(2,1)] request_call_ok [OF assms(3), of "tab_page t" path]
    unfolding agree_on_def by blast
  then show ?thesis
    unfolding request_def by (simp add: io_bind_def io_get_def io_zoom_def)
qed

definition alike_on :: "console \<Rightarrow> ('w tab, 'a) io \<Rightarrow> ('w tab, 'a) io \<Rightarrow> bool" where
  "alike_on p m n \<longleftrightarrow> (\<forall>e t. same_connection p (tab_page t) \<longrightarrow> m (e, t) = n (e, t))"

lemma page_alike_refl: "alike_on p m m"
  by (simp add: alike_on_def)

lemma alike_bind:
  fixes m n :: "('w tab, 'a) io"
  assumes "alike_on p m n" and "\<And>x. alike_on p (f x) (g x)"
    and "\<And>e t r e' t'. n (e, t) = (r, (e', t')) \<Longrightarrow> same_connection (tab_page t) (tab_page t')"
  shows "alike_on p (io_bind m f) (io_bind n g)"
  unfolding alike_on_def
proof (intro allI impI)
  fix e and t :: "'w tab"
  assume same: "same_connection p (tab_page t)"
  obtain r e' t' where n: "n (e, t) = (r, (e', t'))" using prod_cases3 by blast
  have "same_connection p (tab_page t')"
    using assms(3) [OF n] same by (simp add: same_connection_def)
  with assms(1,2) same n show "io_bind m f (e, t) = io_bind n g (e, t)"
    by (cases r) (simp_all add: alike_on_def io_bind_def)
qed

lemma alike_request:
  assumes "agree_on p f g" and "plain_init init" and "path = ''/v1/'' @ rest"
    and "\<And>x. alike_on p (h x) (k x)"
  shows "alike_on p (io_bind (request pf f path init) h) (io_bind (request pf g path init) k)"
proof (rule alike_bind [OF _ assms(4)])
  show "alike_on p (request pf f path init) (request pf g path init)"
    unfolding alike_on_def assms(3) using request_agree [OF assms(1) _ assms(2)] by blast
qed (use request_page in fastforce)

lemma alike_steps:
  "(\<And>x. alike_on p (h x) (k x)) \<Longrightarrow> alike_on p (io_bind (io_try r) h) (io_bind (io_try r) k)"
  "(\<And>x. alike_on p (h' x) (k' x)) \<Longrightarrow> alike_on p (io_bind next_uuid h') (io_bind next_uuid k')"
  "alike_on p m n \<Longrightarrow> alike_on p (io_bind (setMessage text) (\<lambda>_. m)) (io_bind (setMessage text) (\<lambda>_. n))"
    apply (rule alike_bind [OF page_alike_refl]; auto simp: io_try_def io_throw_def io_return_def split: sum.splits)
   apply (rule alike_bind [OF page_alike_refl]; auto simp: next_uuid_def)
  by (rule alike_bind [OF page_alike_refl]) (auto simp: page_defs same_connection_def)

lemma alike_run_work:
  assumes "agree_on p f g" and "plain_init init" and "\<And>i. \<exists>rest. path i = ''/v1/'' @ rest"
  shows "alike_on p (run_work pf f path init text run) (run_work pf g path init text run)"
  unfolding run_work_def
proof (intro alike_steps(1))
  fix i
  obtain rest where path: "path (js_text pf i) = ''/v1/'' @ rest" using assms(3) by blast
  show "alike_on p
      (io_bind (request pf f (path (js_text pf i)) init) (\<lambda>result.
       io_bind (io_try (js_get pf result ''run'')) (\<lambda>updated. io_bind (setRun updated) (\<lambda>_. setMessage text))))
      (io_bind (request pf g (path (js_text pf i)) init) (\<lambda>result.
       io_bind (io_try (js_get pf result ''run'')) (\<lambda>updated. io_bind (setRun updated) (\<lambda>_. setMessage text))))"
    by (rule alike_request [OF assms(1,2) path]) (rule page_alike_refl)
qed

lemma plain_inits: "plain_init get_init" "plain_init (post body [])" "plain_init (post body [(''idempotency-key'', key)])"
  by (auto simp: plain_init_def get_init_def post_def)

lemma alike_work:
  assumes "agree_on p f g"
  shows "alike_on p (action_work pf f run a) (action_work pf g run a)"
proof (cases a)
  case Create_demo
  have "''/v1/workflows'' = ''/v1/'' @ ''workflows''" "''/v1/runs'' = ''/v1/'' @ ''runs''" by simp_all
  then show ?thesis
    unfolding Create_demo action_work.simps create_work_def
    by (intro alike_steps alike_request [OF assms plain_inits(2)] alike_request [OF assms plain_inits(3)] page_alike_refl)
qed (use assms plain_inits in \<open>auto intro!: alike_run_work simp: run_url_def approve_url_def cancel_url_def\<close>)

text \<open>
  C37. Where the console sends the API key. Every call an action makes goes to a path under \<open>/v1/\<close> of
  the control plane entered, with exactly the tenant and the key entered, and announces JSON
  exactly if it has a body: two networks that treat such calls alike give the same result,
  whatever they do on any other call.
\<close>
theorem console_calls_confined:
  assumes "agree_on (tab_page t) f g"
  shows "perform pf f a (e, t) = perform pf g a (e, t)"
proof -
  have "same_connection (tab_page t) (tab_page (begun a t))"
    by (simp add: same_connection_def begun_def)
  with alike_work [OF assms] have "action_work pf f run a (e, begun a t) = action_work pf g run a (e, begun a t)" for run
    unfolding alike_on_def by blast
  then show ?thesis
    unfolding perform_eq by (simp add: io_finally_def io_catch_def)
qed

end
