(* ===== verification/Store.thy ===== *)
theory Store
  imports Effects Contracts
begin

text \<open>
  The data the stores keep and the interface they implement
  (\<open>services/control-plane/src/store.ts\<close>, lines 10 to 75). The interface is a record of
  operations, as \<open>RuntimeStore\<close> is an interface of methods; the HTTP handlers take it as an
  argument. The locale \<open>runtime_store_contract\<close> states what a handler may rely on. It speaks of
  the runs a tenant can see, \<open>view s tenant\<close>, and of how a call may change them: not at all, by
  adding one queued run of the caller's tenant, or by one checked transition of one of its runs.
  \<open>names\<close> says which stored identifier the text of a request denotes, \<open>ok\<close> is the store's
  invariant, \<open>authentic\<close> the principals the store vouches for.
  Both stores are shown to satisfy it in their own theories.
\<close>

datatype role = Owner | Operator | Viewer

record principal =
  pr_tenantId :: string
  pr_role :: role
  pr_subject :: string

record stored_workflow =
  sw_id :: string
  sw_tenantId :: string
  sw_definition :: workflow_definition
  sw_createdAt :: timestamp

record stored_run =
  run_id :: string
  run_tenantId :: string
  run_workflowId :: string
  run_state :: run_state
  run_input :: "(string \<times> json) list"
  run_budgetCents :: int
  run_idempotencyKey :: string
  run_createdAt :: timestamp
  run_events :: "run_event list"

record audit_record =
  au_at :: timestamp
  au_tenantId :: string
  au_subject :: string
  au_action :: string
  au_resourceId :: string

text \<open>A run request without the provider credential, with the handle in its place.\<close>

record run_request =
  rr_workflowId :: string
  rr_input :: "(string \<times> json) list"
  rr_providerCredentialHandle :: "string option"

record 's runtime_store =
  rs_ready :: "('s, unit) io"
  rs_authenticate :: "string \<Rightarrow> string option \<Rightarrow> ('s, principal option) io"
  rs_createWorkflow :: "principal \<Rightarrow> workflow_definition \<Rightarrow> ('s, stored_workflow) io"
  rs_createRun :: "principal \<Rightarrow> run_request \<Rightarrow> string \<Rightarrow> ('s, stored_run \<times> bool) io"
  rs_readRun :: "principal \<Rightarrow> string \<Rightarrow> ('s, stored_run option) io"
  rs_transition :: "principal \<Rightarrow> string \<Rightarrow> run_state \<Rightarrow> run_event \<Rightarrow> ('s, stored_run) io"
  rs_listAudit :: "principal \<Rightarrow> ('s, audit_record list) io"

definition hashApiKey :: "string \<Rightarrow> ('s, string) io" where
  "hashApiKey key = io_env (\<lambda>e. sha256_hex e key)"

definition isoNow :: "('s, timestamp) io" where
  "isoNow = next_clock"

text \<open>
  \<open>timingSafeEqual\<close> compares two buffers of the same length byte by byte; both functions of
  the sources check the lengths first.
\<close>

definition timingSafeEqual :: "nat list \<Rightarrow> nat list \<Rightarrow> bool" where
  "timingSafeEqual a b = list_all2 (=) a b"

definition constantTimeEqual :: "string \<Rightarrow> string \<Rightarrow> bool" where
  "constantTimeEqual left right =
     (let leftBytes = utf8 left; rightBytes = utf8 right
      in length leftBytes = length rightBytes \<and> timingSafeEqual leftBytes rightBytes)"

lemma constantTimeEqual_iff [simp]: "constantTimeEqual a b \<longleftrightarrow> a = b"
proof -
  have "constantTimeEqual a b \<longleftrightarrow> utf8 a = utf8 b"
    by (auto simp: constantTimeEqual_def timingSafeEqual_def list_all2_eq [symmetric] Let_def)
  then show ?thesis by (simp add: utf8_inj)
qed

section \<open>How a call may change the runs of a store\<close>

type_synonym run_view = "string \<Rightarrow> string \<Rightarrow> stored_run option"

text \<open>\<open>adds_run\<close>: one new queued run of tenant \<open>t\<close>. \<open>moves_run\<close>: one run of tenant \<open>t\<close>
  takes a checked transition to \<open>st\<close> and gains events.\<close>

definition adds_run :: "string \<Rightarrow> stored_run \<Rightarrow> run_view \<Rightarrow> run_view \<Rightarrow> bool" where
  "adds_run t r v v' \<longleftrightarrow>
     run_tenantId r = t \<and> run_state r = Queued \<and> v t (run_id r) = None \<and>
     v' = v(t := (v t)(run_id r \<mapsto> r))"

definition moves_run :: "string \<Rightarrow> run_state \<Rightarrow> stored_run \<Rightarrow> run_view \<Rightarrow> run_view \<Rightarrow> bool" where
  "moves_run t st r v v' \<longleftrightarrow>
     (\<exists>r0 evs. v t (run_id r) = Some r0 \<and> assertTransition (run_state r0) st = Inr () \<and>
        r = r0\<lparr>run_state := st, run_events := run_events r0 @ evs\<rparr> \<and> evs \<noteq> [] \<and>
        v' = v(t := (v t)(run_id r \<mapsto> r)))"

text \<open>What every run of a view goes through: it stays, its identity is fixed, its state moves
  along checked transitions, and its events are only extended.\<close>

definition run_evolves :: "stored_run \<Rightarrow> stored_run \<Rightarrow> bool" where
  "run_evolves r r' \<longleftrightarrow>
     run_path (run_state r) (run_state r') \<and> prefix (run_events r) (run_events r') \<and>
     r' = r\<lparr>run_state := run_state r', run_events := run_events r'\<rparr>"

definition view_evolves :: "run_view \<Rightarrow> run_view \<Rightarrow> bool" where
  "view_evolves v v' \<longleftrightarrow>
     (\<forall>t i r. v t i = Some r \<longrightarrow> (\<exists>r'. v' t i = Some r' \<and> run_evolves r r'))"

definition only_tenant :: "string \<Rightarrow> run_view \<Rightarrow> run_view \<Rightarrow> bool" where
  "only_tenant t v v' \<longleftrightarrow> (\<forall>t'. t' \<noteq> t \<longrightarrow> v' t' = v t')"

lemma run_evolves_refl [simp]: "run_evolves r r"
  by (simp add: run_evolves_def)

lemma run_evolves_trans:
  assumes "run_evolves r s" and "run_evolves s t"
  shows "run_evolves r t"
  unfolding run_evolves_def
proof (intro conjI)
  show "run_path (run_state r) (run_state t)"
    using assms run_path_trans unfolding run_evolves_def by blast
  show "prefix (run_events r) (run_events t)"
    using assms unfolding run_evolves_def by (meson prefix_order.trans)
  have "t = s\<lparr>run_state := run_state t, run_events := run_events t\<rparr>"
    and "s = r\<lparr>run_state := run_state s, run_events := run_events s\<rparr>"
    using assms by (simp_all add: run_evolves_def)
  then show "t = r\<lparr>run_state := run_state t, run_events := run_events t\<rparr>"
    by (cases r, cases s, cases t) simp
qed

lemma run_evolves_move:
  "assertTransition (run_state r) st = Inr () \<Longrightarrow>
   run_evolves r (r\<lparr>run_state := st, run_events := run_events r @ evs\<rparr>)"
  by (simp add: run_evolves_def run_path_single)

lemma view_evolves_refl [simp]: "view_evolves v v"
  by (auto simp: view_evolves_def)

lemma view_evolves_trans: "view_evolves u v \<Longrightarrow> view_evolves v w \<Longrightarrow> view_evolves u w"
  unfolding view_evolves_def by (meson run_evolves_trans)

lemma only_tenant_refl [simp]: "only_tenant t v v"
  by (simp add: only_tenant_def)

lemma only_tenant_trans: "only_tenant t u v \<Longrightarrow> only_tenant t v w \<Longrightarrow> only_tenant t u w"
  by (simp add: only_tenant_def)

lemma adds_run_evolves: "adds_run t r v v' \<Longrightarrow> view_evolves v v' \<and> only_tenant t v v'"
  by (auto simp: adds_run_def view_evolves_def only_tenant_def)

lemma moves_run_evolves: "moves_run t st r v v' \<Longrightarrow> view_evolves v v' \<and> only_tenant t v v'"
  by (auto simp: moves_run_def view_evolves_def only_tenant_def run_evolves_move)

lemma view_evolves_terminal:
  assumes "view_evolves v v'" and "v t i = Some r" and "terminal (run_state r)"
  shows "\<exists>r'. v' t i = Some r' \<and> run_state r' = run_state r"
proof -
  from assms(1,2) obtain r' where "v' t i = Some r'" and "run_path (run_state r) (run_state r')"
    unfolding view_evolves_def run_evolves_def by metis
  with run_path_terminal [OF this(2) assms(3)] show ?thesis by simp
qed

section \<open>The contract of a store\<close>

locale runtime_store_contract =
  fixes st :: "'s runtime_store"
    and view :: "'s \<Rightarrow> run_view"
    and ok :: "'s world \<Rightarrow> bool"
    and authentic :: "'s \<Rightarrow> principal \<Rightarrow> bool"
    and names :: "string \<Rightarrow> string \<Rightarrow> bool"
  assumes names_unique: "names i j \<Longrightarrow> names i j' \<Longrightarrow> j = j'"
    and ok_env: "ok (e, s) \<Longrightarrow> same_sources e e' \<Longrightarrow> ok (e', s)"
    and ready_law: "io_spec (\<lambda>w. ok w \<and> snd w = s) (rs_ready st)
      (\<lambda>_ w'. ok w' \<and> snd w' = s) (\<lambda>_ w'. ok w' \<and> snd w' = s)"
    and authenticate_law: "io_spec (\<lambda>w. ok w \<and> snd w = s) (rs_authenticate st slug key)
      (\<lambda>p w'. ok w' \<and> snd w' = s \<and> (\<forall>q. p = Some q \<longrightarrow> authentic s q))
      (\<lambda>_ w'. ok w' \<and> snd w' = s)"
    and createWorkflow_law: "authentic s p \<Longrightarrow>
      io_spec (\<lambda>w. ok w \<and> snd w = s) (rs_createWorkflow st p d)
        (\<lambda>x w'. ok w' \<and> view (snd w') = view s \<and> sw_tenantId x = pr_tenantId p \<and> sw_definition x = d)
        (\<lambda>_ w'. ok w' \<and> view (snd w') = view s)"
    and createRun_law: "authentic s p \<Longrightarrow>
      io_spec (\<lambda>w. ok w \<and> snd w = s) (rs_createRun st p rq k)
        (\<lambda>x w'. ok w' \<and> run_tenantId (fst x) = pr_tenantId p \<and> run_idempotencyKey (fst x) = k \<and>
           (if snd x then view (snd w') = view s \<and>
                          view s (pr_tenantId p) (run_id (fst x)) = Some (fst x)
            else adds_run (pr_tenantId p) (fst x) (view s) (view (snd w'))))
        (\<lambda>_ w'. ok w' \<and> (view (snd w') = view s \<or>
           (\<exists>r. adds_run (pr_tenantId p) r (view s) (view (snd w')))))"
    and readRun_law: "authentic s p \<Longrightarrow>
      io_spec (\<lambda>w. ok w \<and> snd w = s) (rs_readRun st p i)
        (\<lambda>x w'. ok w' \<and> snd w' = s \<and> (\<forall>r. x = Some r \<longrightarrow>
           run_tenantId r = pr_tenantId p \<and> names i (run_id r) \<and>
           view s (pr_tenantId p) (run_id r) = Some r))
        (\<lambda>_ w'. ok w' \<and> snd w' = s)"
    and transition_law: "authentic s p \<Longrightarrow>
      io_spec (\<lambda>w. ok w \<and> snd w = s) (rs_transition st p i target ev)
        (\<lambda>r w'. ok w' \<and> run_tenantId r = pr_tenantId p \<and> names i (run_id r) \<and>
           moves_run (pr_tenantId p) target r (view s) (view (snd w')))
        (\<lambda>_ w'. ok w' \<and> (view (snd w') = view s \<or>
           (\<exists>r. names i (run_id r) \<and>
              moves_run (pr_tenantId p) target r (view s) (view (snd w')))))"
    and listAudit_law: "authentic s p \<Longrightarrow>
      io_spec (\<lambda>w. ok w \<and> snd w = s) (rs_listAudit st p)
        (\<lambda>xs w'. ok w' \<and> snd w' = s \<and> (\<forall>x \<in> set xs. au_tenantId x = pr_tenantId p))
        (\<lambda>_ w'. ok w' \<and> snd w' = s)"

end
