(* ===== verification/CredentialBroker.thy ===== *)
theory CredentialBroker
  imports Effects
begin

text \<open>
  The credential broker (\<open>services/control-plane/src/credential-broker.ts\<close>): provider
  credentials held in process memory under opaque handles, for a limited time, each handed out at
  most once. The map of entries is a partial function, since no result depends on the order in
  which \<open>purge\<close> visits the entries.
\<close>

record entry =
  en_credential :: string
  en_expiresAt :: timestamp

record broker =
  br_ttlMs :: nat
  br_entries :: "uuid \<rightharpoonup> entry"

definition new_broker :: "nat option \<Rightarrow> broker" where
  "new_broker ttlMs =
     \<lparr>br_ttlMs = (case ttlMs of None \<Rightarrow> 5 * 60000 | Some t \<Rightarrow> t), br_entries = Map.empty\<rparr>"

definition drop_expired :: "timestamp \<Rightarrow> (uuid \<rightharpoonup> entry) \<Rightarrow> (uuid \<rightharpoonup> entry)" where
  "drop_expired now m =
     (\<lambda>h. case m h of None \<Rightarrow> None | Some x \<Rightarrow> if en_expiresAt x \<le> now then None else Some x)"

definition purge :: "(broker, unit) io" where
  "purge = io_bind next_clock (\<lambda>now.
     io_modify (\<lambda>b. b\<lparr>br_entries := drop_expired now (br_entries b)\<rparr>))"

definition issue :: "string \<Rightarrow> (broker, uuid) io" where
  "issue credential =
     io_bind purge (\<lambda>_.
     io_bind next_uuid (\<lambda>handle.
     io_bind next_clock (\<lambda>now.
     io_bind (io_modify (\<lambda>b. b\<lparr>br_entries := (br_entries b)(handle \<mapsto>
        \<lparr>en_credential = credential, en_expiresAt = now + br_ttlMs b\<rparr>)\<rparr>)) (\<lambda>_.
     io_return handle))))"

definition consume :: "uuid \<Rightarrow> (broker, string option) io" where
  "consume handle =
     io_bind purge (\<lambda>_.
     io_bind (io_get (\<lambda>b. br_entries b handle)) (\<lambda>entry.
     io_bind (io_modify (\<lambda>b. b\<lparr>br_entries := (br_entries b)(handle := None)\<rparr>)) (\<lambda>_.
     io_return (map_option en_credential entry))))"

definition discard :: "uuid \<Rightarrow> (broker, unit) io" where
  "discard handle = io_modify (\<lambda>b. b\<lparr>br_entries := (br_entries b)(handle := None)\<rparr>)"

text \<open>A sequence of calls, and the log of the credentials it handed out.\<close>

datatype broker_call = Issue string | Consume uuid | Discard uuid

fun broker_run :: "broker_call list \<Rightarrow> (broker, (uuid \<times> string) list) io" where
  "broker_run [] = io_return []"
| "broker_run (Issue c # calls) = io_bind (issue c) (\<lambda>_. broker_run calls)"
| "broker_run (Discard h # calls) = io_bind (discard h) (\<lambda>_. broker_run calls)"
| "broker_run (Consume h # calls) = io_bind (consume h) (\<lambda>r. io_bind (broker_run calls) (\<lambda>log.
     io_return (case r of None \<Rightarrow> log | Some c \<Rightarrow> (h, c) # log)))"

definition broker_ok :: "broker world \<Rightarrow> bool" where
  "broker_ok w \<longleftrightarrow> inj (uuids (fst w)) \<and>
     (\<forall>h. br_entries (snd w) h \<noteq> None \<longrightarrow> (\<exists>i < issued (fst w). h = uuids (fst w) i))"

subsection \<open>The operations as equations\<close>

lemma drop_expired_Some:
  "drop_expired now m h = Some x \<longleftrightarrow> m h = Some x \<and> now < en_expiresAt x"
  by (auto simp: drop_expired_def split: option.splits)

lemma purge_eq:
  "purge (e, b) =
     (Inr (), (e\<lparr>ticks := Suc (ticks e)\<rparr>,
               b\<lparr>br_entries := drop_expired (clock e (ticks e)) (br_entries b)\<rparr>))"
  by (simp add: purge_def io_defs)

lemma issue_eq:
  "issue c (e, b) =
     (Inr (uuids e (issued e)),
      (e\<lparr>ticks := ticks e + 2, issued := Suc (issued e)\<rparr>,
       b\<lparr>br_entries := (drop_expired (clock e (ticks e)) (br_entries b))(uuids e (issued e) \<mapsto>
          \<lparr>en_credential = c, en_expiresAt = clock e (Suc (ticks e)) + br_ttlMs b\<rparr>)\<rparr>))"
  by (simp add: issue_def io_bind_def purge_eq) (simp add: io_defs)

lemma consume_eq:
  "consume h (e, b) =
     (let live = drop_expired (clock e (ticks e)) (br_entries b) in
      (Inr (map_option en_credential (live h)),
       (e\<lparr>ticks := Suc (ticks e)\<rparr>, b\<lparr>br_entries := live(h := None)\<rparr>)))"
  by (simp add: consume_def io_bind_def purge_eq Let_def) (simp add: io_defs)

lemma discard_eq: "discard h (e, b) = (Inr (), (e, b\<lparr>br_entries := (br_entries b)(h := None)\<rparr>))"
  by (simp add: discard_def io_defs)

lemmas broker_eqs = issue_eq consume_eq discard_eq

lemma broker_ok_new: "inj (uuids e) \<Longrightarrow> broker_ok (e, new_broker ttl)"
  by (simp add: broker_ok_def new_broker_def)

lemma broker_ok_step:
  assumes "broker_ok (e, b)"
  shows "broker_ok (snd (issue c (e, b)))" "broker_ok (snd (consume h (e, b)))"
    "broker_ok (snd (discard h (e, b)))"
  using assms
  by (auto simp: broker_ok_def broker_eqs Let_def drop_expired_def less_Suc_eq
      split: option.splits if_splits)

lemma broker_run_returns: "\<exists>log w'. broker_run calls w = (Inr log, w')"
proof (induction calls arbitrary: w)
  case Nil
  then show ?case by (simp add: io_return_def)
next
  case (Cons c calls)
  obtain e b where w: "w = (e, b)" by (cases w)
  show ?case
  proof (cases c)
    case (Consume h)
    then show ?thesis
      using Cons.IH [of "snd (consume h w)"]
      by (auto simp: w io_bind_def io_return_def consume_eq Let_def)
  qed (use Cons.IH in \<open>auto simp: w io_bind_def broker_eqs\<close>)
qed

text \<open>Where a handed-out credential can come from.\<close>

lemma broker_run_provenance:
  assumes "broker_run calls (e, b) = (Inr log, w')" and "(h, c) \<in> set log"
  shows "(\<exists>x. br_entries b h = Some x \<and> en_credential x = c) \<or>
         (Issue c \<in> set calls \<and> (\<exists>i \<ge> issued e. h = uuids e i))"
  using assms
proof (induction calls arbitrary: e b log w')
  case Nil
  then show ?case by (simp add: io_return_def)
next
  case (Cons call calls)
  show ?case
  proof (cases call)
    case (Issue d)
    with Cons.prems have "broker_run calls (snd (issue d (e, b))) = (Inr log, w')"
      by (simp add: io_bind_def issue_eq)
    from Cons.IH [OF this [unfolded issue_eq snd_conv] Cons.prems(2)] show ?thesis
      using Issue by (auto simp: drop_expired_Some split: if_splits intro: Suc_leD)
  next
    case (Discard k)
    with Cons.prems have "broker_run calls (snd (discard k (e, b))) = (Inr log, w')"
      by (simp add: io_bind_def discard_eq)
    from Cons.IH [OF this [unfolded discard_eq snd_conv] Cons.prems(2)] show ?thesis
      using Discard by (auto split: if_splits)
  next
    case (Consume k)
    define live where "live = drop_expired (clock e (ticks e)) (br_entries b)"
    from Consume Cons.prems obtain log' where
      rest: "broker_run calls (e\<lparr>ticks := Suc (ticks e)\<rparr>, b\<lparr>br_entries := live(k := None)\<rparr>)
             = (Inr log', w')"
      and log: "log = (case live k of None \<Rightarrow> log' | Some x \<Rightarrow> (k, en_credential x) # log')"
      by (auto simp: io_bind_def consume_eq Let_def live_def io_return_def
          split: prod.splits sum.splits option.splits)
    show ?thesis
    proof (cases "(h, c) \<in> set log'")
      case True
      from Cons.IH [OF rest this] show ?thesis
        using Consume by (auto simp: live_def drop_expired_Some split: if_splits)
    next
      case False
      with Cons.prems(2) log show ?thesis
        by (auto simp: live_def drop_expired_Some split: option.splits)
    qed
  qed
qed

lemma broker_run_distinct:
  assumes "broker_run calls (e, b) = (Inr log, w')" and "broker_ok (e, b)"
  shows "distinct (map fst log)"
  using assms
proof (induction calls arbitrary: e b log w')
  case Nil
  then show ?case by (simp add: io_return_def)
next
  case (Cons call calls)
  show ?case
  proof (cases call)
    case (Consume k)
    define live where "live = drop_expired (clock e (ticks e)) (br_entries b)"
    define e' where "e' = e\<lparr>ticks := Suc (ticks e)\<rparr>"
    define b' where "b' = b\<lparr>br_entries := live(k := None)\<rparr>"
    from Consume Cons.prems obtain log' where
      rest: "broker_run calls (e', b') = (Inr log', w')"
      and log: "log = (case live k of None \<Rightarrow> log' | Some x \<Rightarrow> (k, en_credential x) # log')"
      by (auto simp: io_bind_def consume_eq Let_def live_def e'_def b'_def io_return_def
          split: prod.splits sum.splits option.splits)
    have ok: "broker_ok (e', b')"
      using broker_ok_step(2) [OF Cons.prems(2), of k]
      by (simp add: consume_eq Let_def live_def e'_def b'_def)
    have distinct': "distinct (map fst log')"
      by (rule Cons.IH [OF rest ok])
    have "k \<notin> fst ` set log'" if "live k = Some x" for x
    proof
      assume "k \<in> fst ` set log'"
      then obtain c where "(k, c) \<in> set log'" by auto
      from broker_run_provenance [OF rest this] obtain i where "issued e \<le> i" "k = uuids e i"
        by (auto simp: b'_def e'_def)
      moreover from Cons.prems(2) that obtain j where "j < issued e" "k = uuids e j"
        by (auto simp: broker_ok_def live_def drop_expired_Some)
      ultimately show False
        using Cons.prems(2) by (auto simp: broker_ok_def dest: injD)
    qed
    then show ?thesis
      using log distinct' by (auto split: option.splits)
  qed (use Cons broker_ok_step in \<open>auto simp: io_bind_def broker_eqs\<close>)
qed

section \<open>Properties\<close>

text \<open>
  C9. A credential handle works once: in any sequence of issue, consume and discard calls, when
  generated handles do not repeat, no handle hands out a credential twice, and each credential
  handed out under a handle is the one that was issued or held under that handle.
\<close>
theorem credential_handed_out_once:
  assumes "broker_ok (e, b)" and "broker_run calls (e, b) = (Inr log, w')"
  shows "distinct (map fst log) \<and>
     (\<forall>(h, c) \<in> set log. (\<exists>x. br_entries b h = Some x \<and> en_credential x = c) \<or>
        (Issue c \<in> set calls \<and> (\<exists>i \<ge> issued e. h = uuids e i)))"
  using broker_run_distinct [OF assms(2,1)] broker_run_provenance [OF assms(2)] by auto

theorem credential_handed_out_once_witness:
  "distinct (map fst [(''a'', ''secret'')]) \<and>
   fst (broker_run [Issue ''secret'', Consume ''a'', Consume ''a''] (sample_env, new_broker None))
     = Inr [(''a'', ''secret'')]"
proof -
  let ?calls = "[Issue ''secret'', Consume ''a'', Consume ''a'']"
  let ?w = "(sample_env, new_broker None)"
  have run: "fst (broker_run ?calls ?w) = Inr [(''a'', ''secret'')]"
    by (simp add: io_bind_def broker_eqs Let_def io_return_def new_broker_def drop_expired_def)
  then have "broker_run ?calls ?w = (Inr [(''a'', ''secret'')], snd (broker_run ?calls ?w))"
    by (metis prod.collapse)
  from credential_handed_out_once [OF broker_ok_new [OF inj_sample_uuids] this] run
  show ?thesis by simp
qed

text \<open>
  A handle just issued yields its credential when it is consumed before the time to live has
  passed, and nothing from that instant on; once consumed or discarded it yields nothing.
\<close>
theorem issued_credential_lifetime:
  "let h = uuids e (issued e);
       w1 = snd (issue c (e, b));
       w2 = snd (consume h w1);
       w3 = snd (discard h w1)
   in fst (issue c (e, b)) = Inr h \<and>
      fst (consume h w1) =
        Inr (if clock e (ticks e + 2) < clock e (ticks e + 1) + br_ttlMs b then Some c else None) \<and>
      fst (consume h w2) = Inr None \<and>
      fst (consume h w3) = Inr None"
  by (simp add: Let_def broker_eqs drop_expired_def)

end
