(* ===== verification/App.thy ===== *)
theory App
  imports Store CredentialBroker
begin

text \<open>
  The HTTP control plane (\<open>services/control-plane/src/app.ts\<close>, \<open>metrics.ts\<close>): the
  authentication hook, the role checks, every route handler, the response hook with its counters.
  The handlers take the store as an argument, as \<open>createApp\<close> does.

  Routing is Fastify's: a request carries the route it was matched to together with its raw URL,
  which the authentication hook inspects. What Fastify answers when a handler throws is the
  parameter \<open>cf_errorStatus\<close>; the model only says that the handler threw. The CORS plugin and
  the tracing spans have no part in a reply and are left out.
\<close>

datatype header = One string | Many "string list"

datatype route =
    R_healthz | R_health_live | R_health_ready | R_metrics
  | R_create_workflow | R_create_run | R_consume_credential string
  | R_read_run string | R_approve string | R_cancel string | R_audit

record http_request =
  rq_route :: route
  rq_url :: string
  rq_headers :: "string \<Rightarrow> header option"
  rq_body :: "json option"

datatype reply_body =
    B_status string | B_metrics | B_error string | B_error_details string | B_thrown error
  | B_workflow stored_workflow | B_run stored_run | B_created_run stored_run bool
  | B_credential string | B_records "audit_record list"

record reply =
  rp_code :: nat
  rp_body :: reply_body

record app_metrics =
  mt_httpRequests :: "string \<times> nat \<Rightarrow> nat"
  mt_runCreations :: "bool \<Rightarrow> nat"
  mt_quotaRejections :: nat
  mt_approvalDecisions :: nat
  mt_cancellations :: nat

record 's app_state =
  as_store :: 's
  as_broker :: broker
  as_metrics :: app_metrics

record app_config =
  cf_internalToken :: "string option"
  cf_isUuid :: "string \<Rightarrow> bool"
  cf_errorStatus :: "error \<Rightarrow> nat"

abbreviation in_store :: "('s, 'a) io \<Rightarrow> ('s app_state, 'a) io" where
  "in_store \<equiv> io_zoom as_store (\<lambda>s a. a\<lparr>as_store := s\<rparr>)"

abbreviation in_broker :: "(broker, 'a) io \<Rightarrow> ('s app_state, 'a) io" where
  "in_broker \<equiv> io_zoom as_broker (\<lambda>b a. a\<lparr>as_broker := b\<rparr>)"

definition count :: "(app_metrics \<Rightarrow> app_metrics) \<Rightarrow> ('s app_state, unit) io" where
  "count f = io_modify (\<lambda>a. a\<lparr>as_metrics := f (as_metrics a)\<rparr>)"

definition send :: "nat \<Rightarrow> reply_body \<Rightarrow> ('s app_state, reply) io" where
  "send code body = io_return \<lparr>rp_code = code, rp_body = body\<rparr>"

section \<open>Checks shared by the handlers\<close>

definition privilegedRoles :: "role list" where
  "privilegedRoles = [Owner, Operator]"

definition runEvent :: "event_type \<Rightarrow> string \<Rightarrow> ('s app_state, run_event) io" where
  "runEvent type detail = io_bind next_clock (\<lambda>now.
     io_return \<lparr>ev_at = now, ev_type = type, ev_detail = detail, ev_traceId = None\<rparr>)"

definition requirePrincipal :: "principal option \<Rightarrow> ('s app_state, principal) io" where
  "requirePrincipal caller =
     (case caller of
        None \<Rightarrow> io_throw (Error ''Unauthenticated request'')
      | Some p \<Rightarrow> io_return p)"

definition requireRole :: "principal \<Rightarrow> role list \<Rightarrow> ('s app_state, unit) io" where
  "requireRole p roles =
     (if pr_role p \<in> set roles then io_return () else io_throw (Error ''Insufficient role''))"

section \<open>The authentication hook\<close>

datatype gate = Proceed "principal option" | Stop reply

definition open_url :: "string \<Rightarrow> bool" where
  "open_url url \<longleftrightarrow>
     url = ''/healthz'' \<or> starts_with ''/health/'' url \<or> url = ''/metrics'' \<or>
     starts_with ''/internal/'' url"

fun header_string :: "header option \<Rightarrow> string option" where
  "header_string (Some (One s)) = Some s"
| "header_string _ = None"

definition preHandler :: "'s runtime_store \<Rightarrow> http_request \<Rightarrow> ('s app_state, gate) io" where
  "preHandler st request =
     (if open_url (rq_url request) then io_return (Proceed None)
      else
       (let tenant = header_string (rq_headers request ''x-tenant-id'');
            key = header_string (rq_headers request ''x-api-key'') in
        io_bind (if truthy tenant then in_store (rs_authenticate st (the tenant) key)
                 else io_return None) (\<lambda>caller.
        case caller of
          None \<Rightarrow> io_bind (send 401 (B_error ''unauthenticated'')) (\<lambda>r. io_return (Stop r))
        | Some p \<Rightarrow> io_return (Proceed (Some p)))))"

section \<open>The handlers\<close>

definition health_ready :: "'s runtime_store \<Rightarrow> ('s app_state, reply) io" where
  "health_ready st =
     io_catch (io_bind (in_store (rs_ready st)) (\<lambda>_. send 200 (B_status ''ready'')))
       (\<lambda>_. send 503 (B_status ''not_ready''))"

definition create_workflow ::
  "'s runtime_store \<Rightarrow> principal option \<Rightarrow> http_request \<Rightarrow> ('s app_state, reply) io" where
  "create_workflow st caller request =
     io_bind (requirePrincipal caller) (\<lambda>p.
     io_bind (requireRole p privilegedRoles) (\<lambda>_.
     case workflowDefinitionSchema (rq_body request) of
       None \<Rightarrow> send 400 (B_error_details ''invalid_workflow'')
     | Some definition \<Rightarrow>
         io_bind (in_store (rs_createWorkflow st p definition)) (\<lambda>workflow.
         send 201 (B_workflow workflow))))"

definition creation_failed :: "error \<Rightarrow> ('s app_state, reply) io" where
  "creation_failed error =
     (let text = message error in
      io_bind (if str_includes ''quota'' text
               then count (\<lambda>m. m\<lparr>mt_quotaRejections := Suc (mt_quotaRejections m)\<rparr>)
               else io_return ()) (\<lambda>_.
      send (if str_includes ''quota'' text then 429
            else if text = ''Workflow not found'' then 404
            else 500) (B_error text)))"

text \<open>The body of the \<open>try\<close> block of the handler that creates a run.\<close>

definition try_create_run ::
  "'s runtime_store \<Rightarrow> principal \<Rightarrow> create_run \<Rightarrow> string \<Rightarrow> ('s app_state, reply) io" where
  "try_create_run st p parsed key =
     io_bind (if truthy (cr_providerCredential parsed)
              then io_bind (in_broker (issue (the (cr_providerCredential parsed))))
                     (\<lambda>h. io_return (Some h))
              else io_return None) (\<lambda>handle.
     io_bind (in_store (rs_createRun st p
                \<lparr>rr_workflowId = cr_workflowId parsed, rr_input = cr_input parsed,
                 rr_providerCredentialHandle = handle\<rparr> key)) (\<lambda>result.
     io_bind (if snd result \<and> truthy handle then in_broker (discard (the handle))
              else io_return ()) (\<lambda>_.
     io_bind (count (\<lambda>m. m\<lparr>mt_runCreations :=
                (mt_runCreations m)(snd result := Suc (mt_runCreations m (snd result)))\<rparr>)) (\<lambda>_.
     send (if snd result then 200 else 201) (B_created_run (fst result) (snd result))))))"

definition create_run_handler ::
  "'s runtime_store \<Rightarrow> app_config \<Rightarrow> principal option \<Rightarrow> http_request \<Rightarrow>
   ('s app_state, reply) io" where
  "create_run_handler st cf caller request =
     io_bind (requirePrincipal caller) (\<lambda>p.
     io_bind (requireRole p privilegedRoles) (\<lambda>_.
     case header_string (rq_headers request ''idempotency-key'') of
       None \<Rightarrow> send 400 (B_error ''idempotency_key_required'')
     | Some key \<Rightarrow>
         if length key < 16 \<or> length key > 128
         then send 400 (B_error ''idempotency_key_required'')
         else
           (case createRunSchema (cf_isUuid cf) (rq_body request) of
              None \<Rightarrow> send 400 (B_error_details ''invalid_run'')
            | Some parsed \<Rightarrow> io_catch (try_create_run st p parsed key) creation_failed)))"

definition consume_credential ::
  "app_config \<Rightarrow> string \<Rightarrow> http_request \<Rightarrow> ('s app_state, reply) io" where
  "consume_credential cf handle request =
     (if \<not> truthy (cf_internalToken cf) \<or>
         rq_headers request ''x-runtime-internal-token'' \<noteq>
           map_option One (cf_internalToken cf)
      then send 401 (B_error ''internal_unauthenticated'')
      else io_bind (in_broker (consume handle)) (\<lambda>credential.
        if truthy credential then send 200 (B_credential (the credential))
        else send 404 (B_error ''provider_credential_unavailable'')))"

definition read_run ::
  "'s runtime_store \<Rightarrow> principal option \<Rightarrow> string \<Rightarrow> ('s app_state, reply) io" where
  "read_run st caller runId =
     io_bind (requirePrincipal caller) (\<lambda>p.
     io_bind (in_store (rs_readRun st p runId)) (\<lambda>run.
     case run of
       Some r \<Rightarrow> send 200 (B_run r)
     | None \<Rightarrow> send 404 (B_error ''run_not_found'')))"

definition approve_run ::
  "'s runtime_store \<Rightarrow> principal option \<Rightarrow> string \<Rightarrow> ('s app_state, reply) io" where
  "approve_run st caller runId =
     io_bind (requirePrincipal caller) (\<lambda>p.
     io_bind (requireRole p privilegedRoles) (\<lambda>_.
     io_bind (in_store (rs_readRun st p runId)) (\<lambda>run.
     case run of
       None \<Rightarrow> send 404 (B_error ''run_not_found'')
     | Some r \<Rightarrow>
         if run_state r \<noteq> Awaiting_approval
         then send 409 (B_error ''run_not_awaiting_approval'')
         else
           io_bind (runEvent Ev_approved ''Approval recorded; run re-queued'') (\<lambda>event.
           io_bind (in_store (rs_transition st p runId Queued event)) (\<lambda>updated.
           io_bind (count (\<lambda>m. m\<lparr>mt_approvalDecisions := Suc (mt_approvalDecisions m)\<rparr>)) (\<lambda>_.
           send 200 (B_run updated)))))))"

definition cancel_run ::
  "'s runtime_store \<Rightarrow> principal option \<Rightarrow> string \<Rightarrow> ('s app_state, reply) io" where
  "cancel_run st caller runId =
     io_bind (requirePrincipal caller) (\<lambda>p.
     io_bind (requireRole p privilegedRoles) (\<lambda>_.
     io_bind (in_store (rs_readRun st p runId)) (\<lambda>run.
     case run of
       None \<Rightarrow> send 404 (B_error ''run_not_found'')
     | Some r \<Rightarrow>
         if (case runStateSchema (run_state_name (run_state r)) of
               None \<Rightarrow> True
             | Some parsed \<Rightarrow> parsed \<in> set [Succeeded, Failed, Cancelled, Uncertain])
         then send 409 (B_error ''terminal_run'')
         else
           io_bind (runEvent Ev_cancelled ''Cancellation requested'') (\<lambda>event.
           io_bind (in_store (rs_transition st p runId Cancelled event)) (\<lambda>updated.
           io_bind (count (\<lambda>m. m\<lparr>mt_cancellations := Suc (mt_cancellations m)\<rparr>)) (\<lambda>_.
           send 200 (B_run updated)))))))"

definition list_audit ::
  "'s runtime_store \<Rightarrow> principal option \<Rightarrow> ('s app_state, reply) io" where
  "list_audit st caller =
     io_bind (requirePrincipal caller) (\<lambda>p.
     io_bind (requireRole p [Owner]) (\<lambda>_.
     io_bind (in_store (rs_listAudit st p)) (\<lambda>records.
     send 200 (B_records records))))"

fun dispatch ::
  "'s runtime_store \<Rightarrow> app_config \<Rightarrow> principal option \<Rightarrow> http_request \<Rightarrow> route \<Rightarrow>
   ('s app_state, reply) io" where
  "dispatch st cf p rq R_healthz = send 200 (B_status ''ok'')"
| "dispatch st cf p rq R_health_live = send 200 (B_status ''ok'')"
| "dispatch st cf p rq R_health_ready = health_ready st"
| "dispatch st cf p rq R_metrics = send 200 B_metrics"
| "dispatch st cf p rq R_create_workflow = create_workflow st p rq"
| "dispatch st cf p rq R_create_run = create_run_handler st cf p rq"
| "dispatch st cf p rq (R_consume_credential h) = consume_credential cf h rq"
| "dispatch st cf p rq (R_read_run i) = read_run st p i"
| "dispatch st cf p rq (R_approve i) = approve_run st p i"
| "dispatch st cf p rq (R_cancel i) = cancel_run st p i"
| "dispatch st cf p rq R_audit = list_audit st p"

fun route_label :: "route \<Rightarrow> string" where
  "route_label R_healthz = ''/healthz''"
| "route_label R_health_live = ''/health/live''"
| "route_label R_health_ready = ''/health/ready''"
| "route_label R_metrics = ''/metrics''"
| "route_label R_create_workflow = ''/v1/workflows''"
| "route_label R_create_run = ''/v1/runs''"
| "route_label (R_consume_credential h) = ''/internal/credentials/:handle/consume''"
| "route_label (R_read_run i) = ''/v1/runs/:runId''"
| "route_label (R_approve i) = ''/v1/runs/:runId/approve''"
| "route_label (R_cancel i) = ''/v1/runs/:runId/cancel''"
| "route_label R_audit = ''/v1/audit''"

definition onResponse :: "http_request \<Rightarrow> reply \<Rightarrow> ('s app_state, unit) io" where
  "onResponse request rp =
     (let key = (route_label (rq_route request), rp_code rp) in
      count (\<lambda>m. m\<lparr>mt_httpRequests :=
        (mt_httpRequests m)(key := Suc (mt_httpRequests m key))\<rparr>))"

definition serve ::
  "'s runtime_store \<Rightarrow> app_config \<Rightarrow> http_request \<Rightarrow> ('s app_state, reply) io" where
  "serve st cf request =
     io_bind
       (io_catch
          (io_bind (preHandler st request) (\<lambda>g.
           case g of
             Stop r \<Rightarrow> io_return r
           | Proceed p \<Rightarrow> dispatch st cf p request (rq_route request)))
          (\<lambda>err. send (cf_errorStatus cf err) (B_thrown err)))
       (\<lambda>rp. io_bind (onResponse request rp) (\<lambda>_. io_return rp))"

end
