(* ===== verification/AppContract.thy ===== *)
theory AppContract
  imports App
begin

text \<open>
  What every request does to the runs of a store that keeps its contract. The lemmas are proved
  once, inside \<open>runtime_store_contract\<close>, for any store; the root theory states them for the
  stores of the program. \<open>allowed_change\<close> says that a request leaves all runs as they are, or
  that the caller authenticated with an owner or operator role and only runs of its own tenant
  changed, by checked transitions; \<open>moved\<close> describes one transition of the run the request
  names.
\<close>

definition allowed_change ::
  "('s \<Rightarrow> run_view) \<Rightarrow> ('s \<Rightarrow> principal \<Rightarrow> bool) \<Rightarrow> 's \<Rightarrow> 's \<Rightarrow> bool" where
  "allowed_change view authentic s s' \<longleftrightarrow>
     view s' = view s \<or>
     (\<exists>p. authentic s p \<and> pr_role p \<in> {Owner, Operator} \<and>
        view_evolves (view s) (view s') \<and> only_tenant (pr_tenantId p) (view s) (view s'))"

definition moved ::
  "('s \<Rightarrow> run_view) \<Rightarrow> ('s \<Rightarrow> principal \<Rightarrow> bool) \<Rightarrow> (string \<Rightarrow> string \<Rightarrow> bool) \<Rightarrow> string \<Rightarrow>
   (run_state \<Rightarrow> bool) \<Rightarrow> run_state \<Rightarrow> stored_run \<Rightarrow> 's \<Rightarrow> 's \<Rightarrow> bool" where
  "moved view authentic names i src target r s s' \<longleftrightarrow>
     (\<exists>p r0. authentic s p \<and> pr_role p \<in> {Owner, Operator} \<and> names i (run_id r) \<and>
        view s (pr_tenantId p) (run_id r) = Some r0 \<and> src (run_state r0) \<and>
        moves_run (pr_tenantId p) target r (view s) (view s'))"

lemma moved_allowed: "moved view auth names i src target r s s' \<Longrightarrow> allowed_change view auth s s'"
  unfolding moved_def allowed_change_def by (metis moves_run_evolves)

lemma allowed_change_view: "view s' = view s \<Longrightarrow> allowed_change view auth s s'"
  by (simp add: allowed_change_def)

lemma allowed_change_same [simp]: "allowed_change view auth s s"
  by (simp add: allowed_change_def)

lemma allowed_change_terminal:
  assumes "allowed_change view auth s s'" and "view s t i = Some r" and "terminal (run_state r)"
  shows "\<exists>r'. view s' t i = Some r' \<and> run_state r' = run_state r"
  using assms view_evolves_terminal unfolding allowed_change_def by metis

subsection \<open>Assertions on the store part of the state\<close>

definition stable :: "(env \<Rightarrow> 's \<Rightarrow> bool) \<Rightarrow> bool" where
  "stable G \<longleftrightarrow> (\<forall>e e' s. G e s \<longrightarrow> same_sources e e' \<longrightarrow> G e' s)"

abbreviation on_store :: "(env \<Rightarrow> 's \<Rightarrow> bool) \<Rightarrow> 's app_state world \<Rightarrow> bool" where
  "on_store G w \<equiv> G (fst w) (as_store (snd w))"

abbreviation keeps_stable :: "('s app_state, 'a) io \<Rightarrow> bool" where
  "keeps_stable m \<equiv> (\<forall>G. stable G \<longrightarrow> io_keeps (on_store G) m)"

lemma stableD: "stable G \<Longrightarrow> G e s \<Longrightarrow> same_sources e e' \<Longrightarrow> G e' s"
  unfolding stable_def by blast

lemma in_store_spec:
  assumes "io_spec P m Q E"
  shows "io_spec (\<lambda>w. P (fst w, as_store (snd w))) (in_store m)
    (\<lambda>x w. Q x (fst w, as_store (snd w))) (\<lambda>err w. E err (fst w, as_store (snd w)))"
  using assms
  by (intro io_specI)
     (auto simp: io_zoom_def split: prod.splits dest: io_specD_Inr io_specD_Inl)

lemma broker_same_sources:
  "same_sources e (fst (snd (issue c (e, b))))"
  "same_sources e (fst (snd (consume h (e, b))))"
  "same_sources e (fst (snd (discard h (e, b))))"
  by (simp_all add: broker_eqs Let_def same_sources_def)

lemma keeps_stable_broker:
  assumes "\<And>e b. same_sources e (fst (snd (m (e, b))))"
  shows "keeps_stable (in_broker m)"
proof (intro allI impI)
  fix G
  assume G: "stable G"
  show "io_keeps (\<lambda>w. on_store G w) (in_broker m)"
  proof (rule io_specI)
    fix w err w'
    assume "on_store G w" "in_broker m w = (Inl err, w')"
    then show "on_store G w'"
      using assms [of "fst w" "as_broker (snd w)"]
      by (auto simp: io_zoom_def split: prod.splits intro: stableD [OF G])
  next
    fix w x w'
    assume "on_store G w" "in_broker m w = (Inr x, w')"
    then show "on_store G w'"
      using assms [of "fst w" "as_broker (snd w)"]
      by (auto simp: io_zoom_def split: prod.splits intro: stableD [OF G])
  qed
qed

lemma keeps_stable_count [simp]: "keeps_stable (count f)"
  by (auto simp: count_def io_spec_def io_modify_def)

lemma keeps_stable_send [simp]: "keeps_stable (send c b)"
  by (auto simp: send_def io_spec_def io_return_def)

lemma keeps_stable_return [simp]: "keeps_stable (io_return x)"
  by (auto simp: io_spec_def io_return_def)

lemma keeps_stable_runEvent [simp]: "keeps_stable (runEvent ty d)"
  by (auto simp: runEvent_def io_spec_def io_defs stable_def)

lemma keeps_stable_requireRole [simp]: "keeps_stable (requireRole p roles)"
  by (auto simp: requireRole_def io_spec_def io_defs)

lemma keeps_stable_issue [simp]: "keeps_stable (in_broker (issue c))"
  by (rule keeps_stable_broker) (simp add: broker_same_sources)

lemma keeps_stable_discard [simp]: "keeps_stable (in_broker (discard h))"
  by (rule keeps_stable_broker) (simp add: broker_same_sources)

lemma keeps_stable_consume [simp]: "keeps_stable (in_broker (consume h))"
  by (rule keeps_stable_broker) (simp add: broker_same_sources)

lemma keeps_stable_bind:
  "keeps_stable m \<Longrightarrow> (\<And>x. keeps_stable (f x)) \<Longrightarrow> keeps_stable (io_bind m f)"
  by (blast intro: io_keeps_bind)

lemma keeps_stable_if: "keeps_stable m \<Longrightarrow> keeps_stable n \<Longrightarrow> keeps_stable (if b then m else n)"
  by simp

lemma keeps_stable_creation_failed: "keeps_stable (creation_failed e)"
  unfolding creation_failed_def Let_def
  by (intro keeps_stable_bind keeps_stable_if keeps_stable_count keeps_stable_return keeps_stable_send)

lemma keeps_stable_consume_credential: "keeps_stable (consume_credential cf h rq)"
  unfolding consume_credential_def
  by (intro keeps_stable_bind keeps_stable_if keeps_stable_consume keeps_stable_send)

lemma io_spec_requirePrincipal:
  "io_spec P (requirePrincipal caller) (\<lambda>p w. caller = Some p \<and> P w) (\<lambda>_. P)"
  by (simp add: requirePrincipal_def io_spec_def io_defs split: option.splits)

lemma io_spec_requireRole:
  "io_spec P (requireRole p roles) (\<lambda>_ w. pr_role p \<in> set roles \<and> P w) (\<lambda>_. P)"
  by (simp add: requireRole_def io_spec_def io_defs)

subsection \<open>Rules for the steps of a handler\<close>

lemma requirePrincipal_bind:
  assumes "\<And>err w. P w \<Longrightarrow> E err w" and "\<And>p. caller = Some p \<Longrightarrow> io_spec P (f p) Q E"
  shows "io_spec P (io_bind (requirePrincipal caller) f) Q E"
proof (cases caller)
  case None
  then show ?thesis
    using assms(1) by (simp add: requirePrincipal_def io_spec_throw)
next
  case (Some p)
  then show ?thesis
    using assms(2) [OF Some] by (simp add: requirePrincipal_def)
qed

lemma requireRole_bind:
  assumes "\<And>err w. P w \<Longrightarrow> E err w" and "pr_role p \<in> set roles \<Longrightarrow> io_spec P (f ()) Q E"
  shows "io_spec P (io_bind (requireRole p roles) f) Q E"
  using assms by (simp add: requireRole_def io_spec_throw)

lemma keeps_bind:
  assumes "keeps_stable m" and "stable G" and "\<And>err w. on_store G w \<Longrightarrow> E err w"
    and "\<And>x. io_spec (on_store G) (f x) Q E"
  shows "io_spec (on_store G) (io_bind m f) Q E"
proof (rule io_spec_bind)
  show "io_spec (on_store G) m (\<lambda>_. on_store G) E"
    using assms(1,2) by (auto intro: io_spec_weaken [OF _ _ _ assms(3)])
qed (rule assms(4))

lemma store_bind:
  assumes "io_spec P m R F"
    and "\<And>w. A w \<Longrightarrow> P (fst w, as_store (snd w))"
    and "\<And>err w. F err (fst w, as_store (snd w)) \<Longrightarrow> E err w"
    and "\<And>x. io_spec (\<lambda>w. R x (fst w, as_store (snd w))) (f x) Q E"
  shows "io_spec A (io_bind (in_store m) f) Q E"
proof (rule io_spec_bind)
  show "io_spec A (in_store m) (\<lambda>x w. R x (fst w, as_store (snd w))) E"
    using in_store_spec [OF assms(1)] by (rule io_spec_weaken) (use assms(2,3) in auto)
qed (rule assms(4))

lemma send_spec: "(\<And>w. P w \<Longrightarrow> Q \<lparr>rp_code = c, rp_body = b\<rparr> w) \<Longrightarrow> io_spec P (send c b) Q E"
  by (simp add: send_def io_spec_return)

section \<open>The stages of a request\<close>

text \<open>The request carries credentials that the store accepts for \<open>p\<close>.\<close>

definition presents :: "'s runtime_store \<Rightarrow> http_request \<Rightarrow> env \<Rightarrow> 's \<Rightarrow> principal \<Rightarrow> bool" where
  "presents st rq e s p \<longleftrightarrow> \<not> open_url (rq_url rq) \<and>
     (\<exists>slug w'. header_string (rq_headers rq ''x-tenant-id'') = Some slug \<and> slug \<noteq> [] \<and>
        rs_authenticate st slug (header_string (rq_headers rq ''x-api-key'')) (e, s) = (Inr (Some p), w'))"

lemma serve_returns: "\<exists>rp w'. serve st cf rq w = (Inr rp, w')"
  by (auto simp: serve_def io_bind_def io_catch_def send_def io_return_def onResponse_def count_def
      io_modify_def Let_def split: prod.splits sum.splits)

lemma serve_cases:
  assumes "serve st cf rq (e, a) = (r, (e', a'))"
  obtains (stopped) rp a1 where "preHandler st rq (e, a) = (Inr (Stop rp), (e', a1))"
      and "r = Inr rp" and "as_store a' = as_store a1" and "as_broker a' = as_broker a1"
  | (hook_failed) err a1 where "preHandler st rq (e, a) = (Inl err, (e', a1))"
      and "r = Inr \<lparr>rp_code = cf_errorStatus cf err, rp_body = B_thrown err\<rparr>"
      and "as_store a' = as_store a1" and "as_broker a' = as_broker a1"
  | (thrown) caller e1 a1 err a2 where "preHandler st rq (e, a) = (Inr (Proceed caller), (e1, a1))"
      and "dispatch st cf caller rq (rq_route rq) (e1, a1) = (Inl err, (e', a2))"
      and "r = Inr \<lparr>rp_code = cf_errorStatus cf err, rp_body = B_thrown err\<rparr>"
      and "as_store a' = as_store a2" and "as_broker a' = as_broker a2"
  | (answered) caller e1 a1 rp a2 where "preHandler st rq (e, a) = (Inr (Proceed caller), (e1, a1))"
      and "dispatch st cf caller rq (rq_route rq) (e1, a1) = (Inr rp, (e', a2))"
      and "r = Inr rp" and "as_store a' = as_store a2" and "as_broker a' = as_broker a2"
  using assms
  by (auto simp: serve_def io_bind_def io_catch_def send_def io_return_def onResponse_def count_def
      io_modify_def Let_def split: prod.splits sum.splits gate.splits)

section \<open>Requests against a store that keeps its contract\<close>

context runtime_store_contract
begin

lemma stable_ok: "stable (\<lambda>e s'. ok (e, s') \<and> R s')"
  unfolding stable_def using ok_env by blast

lemma spec_keeps:
  assumes "keeps_stable m"
  shows "io_spec (\<lambda>w. ok (fst w, as_store (snd w)) \<and> R (as_store (snd w))) m
    (\<lambda>_ w. ok (fst w, as_store (snd w)) \<and> R (as_store (snd w)))
    (\<lambda>_ w. ok (fst w, as_store (snd w)) \<and> R (as_store (snd w)))"
  using assms stable_ok [of R] by blast

lemma spec_catch:
  assumes "io_spec P m Q E" and "\<And>err. io_spec (E err) (h err) Q E"
  shows "io_spec P (io_catch m h) Q E"
  by (rule io_specI)
     (auto simp: io_catch_def split: prod.splits sum.splits
       dest: io_specD_Inr [OF assms(1)] io_specD_Inl [OF assms(1)]
             io_specD_Inr [OF assms(2)] io_specD_Inl [OF assms(2)])

lemma count_send_spec:
  assumes "\<And>s'. R s' \<Longrightarrow> Q \<lparr>rp_code = c, rp_body = b\<rparr> s'"
  shows "io_spec (\<lambda>w. ok (fst w, as_store (snd w)) \<and> R (as_store (snd w)))
    (io_bind (count f) (\<lambda>_. send c b))
    (\<lambda>rp w. ok (fst w, as_store (snd w)) \<and> Q rp (as_store (snd w))) E"
  using assms by (auto simp: count_def send_def io_spec_def io_defs)

lemma transition_step:
  assumes auth: "authentic s p" and who: "who s p" and role: "pr_role p \<in> {Owner, Operator}"
    and names: "names i (run_id r0)" and seen: "view s (pr_tenantId p) (run_id r0) = Some r0"
    and src: "src (run_state r0)"
  shows "io_spec (\<lambda>w. ok w \<and> snd w = s) (rs_transition st p i target ev)
    (\<lambda>r w. ok w \<and> moved view who names i src target r s (snd w))
    (\<lambda>_ w. ok w \<and> (view (snd w) = view s \<or>
       (\<exists>r. moved view who names i src target r s (snd w))))"
  using transition_law [OF auth, of i target ev]
proof (rule io_spec_weaken)
  have same: "run_id r = run_id r0" if "names i (run_id r)" for r
    using names_unique names that by blast
  then show "ok w \<and> moved view who names i src target r s (snd w)"
    if "ok w \<and> run_tenantId r = pr_tenantId p \<and> names i (run_id r) \<and>
      moves_run (pr_tenantId p) target r (view s) (view (snd w))" for r w
    using that who role seen src unfolding moved_def by metis
  show "ok w \<and> (view (snd w) = view s \<or>
      (\<exists>r. moved view who names i src target r s (snd w)))"
    if "ok w \<and> (view (snd w) = view s \<or> (\<exists>r. names i (run_id r) \<and>
      moves_run (pr_tenantId p) target r (view s) (view (snd w))))" for w
    using that same who role seen src unfolding moved_def by metis
qed simp

lemma transition_reply_spec:
  assumes "authentic s p" and "who s p" and "pr_role p \<in> {Owner, Operator}" and "names i (run_id r0)"
    and "view s (pr_tenantId p) (run_id r0) = Some r0" and "src (run_state r0)"
  shows "io_spec (\<lambda>w. ok (fst w, as_store (snd w)) \<and> as_store (snd w) = s)
    (io_bind (runEvent ty d) (\<lambda>event.
     io_bind (in_store (rs_transition st p i target event)) (\<lambda>updated.
     io_bind (count f) (\<lambda>_. send 200 (B_run updated)))))
    (\<lambda>rp w. ok (fst w, as_store (snd w)) \<and>
       (\<exists>r. rp = \<lparr>rp_code = 200, rp_body = B_run r\<rparr> \<and>
          moved view who names i src target r s (as_store (snd w))))
    (\<lambda>_ w. ok (fst w, as_store (snd w)) \<and>
       (view (as_store (snd w)) = view s \<or>
        (\<exists>r. moved view who names i src target r s (as_store (snd w)))))"
  using assms
  by (intro keeps_bind [OF keeps_stable_runEvent stable_ok] store_bind [OF transition_step])
     (auto intro!: count_send_spec)

lemma decide_spec:
  assumes auth: "\<forall>p. caller = Some p \<longrightarrow> authentic s p \<and> who s p"
    and src: "\<And>r. \<not> refuse r \<Longrightarrow> src (run_state r)"
  shows "io_spec (\<lambda>w. ok (fst w, as_store (snd w)) \<and> as_store (snd w) = s)
    (io_bind (requirePrincipal caller) (\<lambda>p.
     io_bind (requireRole p privilegedRoles) (\<lambda>_.
     io_bind (in_store (rs_readRun st p i)) (\<lambda>run.
     case run of
       None \<Rightarrow> send 404 (B_error b1)
     | Some r \<Rightarrow>
         if refuse r then send 409 (B_error b2)
         else
           io_bind (runEvent ty d) (\<lambda>event.
           io_bind (in_store (rs_transition st p i target event)) (\<lambda>updated.
           io_bind (count f) (\<lambda>_. send 200 (B_run updated))))))))
    (\<lambda>rp w. ok (fst w, as_store (snd w)) \<and>
       (as_store (snd w) = s \<and> rp_code rp \<noteq> 200 \<or>
        (\<exists>r. rp = \<lparr>rp_code = 200, rp_body = B_run r\<rparr> \<and>
           moved view who names i src target r s (as_store (snd w)))))
    (\<lambda>_ w. ok (fst w, as_store (snd w)) \<and>
       (view (as_store (snd w)) = view s \<or>
        (\<exists>r. moved view who names i src target r s (as_store (snd w)))))"
proof (rule requirePrincipal_bind, goal_cases)
  case (2 p)
  with auth have p: "authentic s p" and who: "who s p" by simp_all
  show ?case
  proof (rule requireRole_bind, goal_cases)
    case 2
    then have role: "pr_role p \<in> {Owner, Operator}" by (simp add: privilegedRoles_def)
    show ?case
    proof (rule store_bind [OF readRun_law [OF p, of i]], goal_cases)
      case (3 x)
      consider "x = None" | r where "x = Some r" "refuse r"
        | r where "x = Some r" "\<not> refuse r" "names i (run_id r)"
            "view s (pr_tenantId p) (run_id r) = Some r"
        | r where "x = Some r" "\<not> (names i (run_id r) \<and> view s (pr_tenantId p) (run_id r) = Some r)"
        by (cases x) auto
      then show ?case
      proof cases
        case (3 r)
        note step = transition_reply_spec [where who = who and src = src, OF p who role 3(3,4) src [OF 3(2)]]
        from 3(1,2) show ?thesis
          by simp (rule io_spec_weaken [OF step]; auto)
      next
        case (4 r)
        then show ?thesis by (intro io_spec_never) blast
      qed (auto intro!: send_spec)
    qed auto
  qed auto
qed auto

lemma approve_spec:
  assumes "\<forall>p. caller = Some p \<longrightarrow> authentic s p \<and> who s p"
  shows "io_spec (\<lambda>w. ok (fst w, as_store (snd w)) \<and> as_store (snd w) = s)
    (approve_run st caller i)
    (\<lambda>rp w. ok (fst w, as_store (snd w)) \<and>
       (as_store (snd w) = s \<and> rp_code rp \<noteq> 200 \<or>
        (\<exists>r. rp = \<lparr>rp_code = 200, rp_body = B_run r\<rparr> \<and>
           moved view who names i (\<lambda>x. x = Awaiting_approval) Queued r s (as_store (snd w)))))
    (\<lambda>_ w. ok (fst w, as_store (snd w)) \<and>
       (view (as_store (snd w)) = view s \<or>
        (\<exists>r. moved view who names i (\<lambda>x. x = Awaiting_approval) Queued r s
           (as_store (snd w)))))"
  unfolding approve_run_def using assms by (rule decide_spec) simp

lemma cancel_spec:
  assumes "\<forall>p. caller = Some p \<longrightarrow> authentic s p \<and> who s p"
  shows "io_spec (\<lambda>w. ok (fst w, as_store (snd w)) \<and> as_store (snd w) = s)
    (cancel_run st caller i)
    (\<lambda>rp w. ok (fst w, as_store (snd w)) \<and>
       (as_store (snd w) = s \<and> rp_code rp \<noteq> 200 \<or>
        (\<exists>r. rp = \<lparr>rp_code = 200, rp_body = B_run r\<rparr> \<and>
           moved view who names i (\<lambda>x. \<not> terminal x) Cancelled r s (as_store (snd w)))))
    (\<lambda>_ w. ok (fst w, as_store (snd w)) \<and>
       (view (as_store (snd w)) = view s \<or>
        (\<exists>r. moved view who names i (\<lambda>x. \<not> terminal x) Cancelled r s
           (as_store (snd w)))))"
  unfolding cancel_run_def using assms by (rule decide_spec) (simp add: terminal_iff)

lemma try_create_run_spec:
  assumes p: "authentic s p" and who: "who s p" and role: "pr_role p \<in> {Owner, Operator}"
  shows "io_spec (\<lambda>w. ok (fst w, as_store (snd w)) \<and> as_store (snd w) = s)
    (try_create_run st p parsed key)
    (\<lambda>_ w. ok (fst w, as_store (snd w)) \<and> allowed_change view who s (as_store (snd w)))
    (\<lambda>_ w. ok (fst w, as_store (snd w)) \<and> allowed_change view who s (as_store (snd w)))"
  (is "io_spec ?P _ ?Q ?E")
proof -
  have change: "view s' = view s \<or> (\<exists>r. adds_run (pr_tenantId p) r (view s) (view s')) \<Longrightarrow>
      allowed_change view who s s'" for s'
    using who role adds_run_evolves unfolding allowed_change_def by metis
  have rest: "keeps_stable (io_bind (if b then in_broker (discard h) else io_return ()) (\<lambda>_.
      io_bind (count f) (\<lambda>_. send c body)))" for b h f c body
    by (intro keeps_stable_bind keeps_stable_if) simp_all
  have handle: "keeps_stable (if b then io_bind (in_broker (issue x)) (\<lambda>h. io_return (Some h))
      else io_return None)" for b x
    by (intro keeps_stable_bind keeps_stable_if) simp_all
  show ?thesis
    unfolding try_create_run_def
  proof (rule keeps_bind [OF handle stable_ok], goal_cases)
    case (2 h)
    show ?case
    proof (rule store_bind [OF createRun_law [OF p]], goal_cases)
      case (3 x)
      show ?case
        by (rule io_spec_weaken [OF spec_keeps [OF rest, of "allowed_change view who s"]])
           (auto intro: change split: if_splits)
    qed (auto intro: change)
  qed auto
qed

lemma create_run_spec:
  assumes auth: "\<forall>p. caller = Some p \<longrightarrow> authentic s p \<and> who s p"
  shows "io_spec (\<lambda>w. ok (fst w, as_store (snd w)) \<and> as_store (snd w) = s)
    (create_run_handler st cf caller rq)
    (\<lambda>_ w. ok (fst w, as_store (snd w)) \<and> allowed_change view who s (as_store (snd w)))
    (\<lambda>_ w. ok (fst w, as_store (snd w)) \<and> allowed_change view who s (as_store (snd w)))"
  unfolding create_run_handler_def
proof (rule requirePrincipal_bind, goal_cases)
  case (2 p)
  with auth have p: "authentic s p" and who: "who s p" by simp_all
  show ?case
  proof (rule requireRole_bind, goal_cases)
    case 2
    then have "pr_role p \<in> {Owner, Operator}" by (simp add: privilegedRoles_def)
    from try_create_run_spec [where who = who, OF p who this]
    show ?case
      by (auto intro!: send_spec spec_catch spec_keeps [OF keeps_stable_creation_failed]
          split: option.splits)
  qed auto
qed auto

lemma unchanged_store_spec:
  assumes "io_spec (\<lambda>w. ok w \<and> snd w = s) m (\<lambda>_ w. ok w \<and> view (snd w) = view s)
    (\<lambda>_ w. ok w \<and> view (snd w) = view s)"
    and "\<And>x. keeps_stable (f x)"
  shows "io_spec (\<lambda>w. ok (fst w, as_store (snd w)) \<and> as_store (snd w) = s)
    (io_bind (in_store m) f)
    (\<lambda>_ w. ok (fst w, as_store (snd w)) \<and> allowed_change view who s (as_store (snd w)))
    (\<lambda>_ w. ok (fst w, as_store (snd w)) \<and> allowed_change view who s (as_store (snd w)))"
proof (rule store_bind [OF assms(1)], goal_cases)
  case (3 x)
  show ?case
    by (rule io_spec_weaken [OF spec_keeps [OF assms(2), of "\<lambda>s'. view s' = view s"]])
       (auto simp: allowed_change_def)
qed (auto simp: allowed_change_def)

lemma dispatch_spec:
  assumes auth: "\<forall>p. caller = Some p \<longrightarrow> authentic s p \<and> who s p"
  shows "io_spec (\<lambda>w. ok (fst w, as_store (snd w)) \<and> as_store (snd w) = s)
    (dispatch st cf caller rq rt)
    (\<lambda>_ w. ok (fst w, as_store (snd w)) \<and> allowed_change view who s (as_store (snd w)))
    (\<lambda>_ w. ok (fst w, as_store (snd w)) \<and> allowed_change view who s (as_store (snd w)))"
proof (cases rt)
  case R_health_ready
  have "io_spec (\<lambda>w. ok w \<and> snd w = s) (rs_ready st) (\<lambda>_ w. ok w \<and> view (snd w) = view s)
      (\<lambda>_ w. ok w \<and> view (snd w) = view s)"
    using ready_law by (rule io_spec_weaken) auto
  then show ?thesis
    unfolding R_health_ready dispatch.simps health_ready_def
    by (intro spec_catch unchanged_store_spec spec_keeps keeps_stable_send)
next
  case R_create_workflow
  then show ?thesis
    unfolding R_create_workflow dispatch.simps create_workflow_def
    using auth
    by (auto intro!: requirePrincipal_bind requireRole_bind unchanged_store_spec send_spec
        io_spec_weaken [OF createWorkflow_law] split: option.splits)
next
  case (R_read_run i)
  then show ?thesis
    unfolding R_read_run dispatch.simps read_run_def
    using auth
    by (auto intro!: requirePrincipal_bind unchanged_store_spec
        io_spec_weaken [OF readRun_law] split: option.splits)
next
  case R_audit
  then show ?thesis
    unfolding R_audit dispatch.simps list_audit_def
    using auth
    by (auto intro!: requirePrincipal_bind requireRole_bind unchanged_store_spec
        io_spec_weaken [OF listAudit_law])
next
  case R_create_run
  then show ?thesis using create_run_spec [where who = who, OF auth] by simp
next
  case (R_approve i)
  then show ?thesis
    using approve_spec [where who = who, OF auth, of i]
    by (auto elim!: io_spec_weaken intro: allowed_change_view dest: moved_allowed)
next
  case (R_cancel i)
  then show ?thesis
    using cancel_spec [where who = who, OF auth, of i]
    by (auto elim!: io_spec_weaken intro: allowed_change_view dest: moved_allowed)
next
  case (R_consume_credential h)
  then show ?thesis
    by (simp, intro io_spec_weaken
        [OF spec_keeps [OF keeps_stable_consume_credential, of "\<lambda>s'. s' = s"]]) auto
qed (auto intro!: send_spec)

lemma preHandler_spec:
  "io_spec (\<lambda>w. w = (e, a) \<and> ok (e, as_store a)) (preHandler st rq)
    (\<lambda>g w. ok (fst w, as_store (snd w)) \<and> as_store (snd w) = as_store a \<and>
       (\<forall>p. g = Proceed (Some p) \<longrightarrow> authentic (as_store a) p \<and> presents st rq e (as_store a) p))
    (\<lambda>_ w. ok (fst w, as_store (snd w)) \<and> as_store (snd w) = as_store a)"
  (is "io_spec ?P _ ?Q ?E")
proof (cases "open_url (rq_url rq) \<or> \<not> truthy (header_string (rq_headers rq ''x-tenant-id''))")
  case True
  then show ?thesis
    by (auto simp: preHandler_def Let_def send_def io_spec_def io_return_def io_bind_def)
next
  case False
  then obtain slug where slug: "header_string (rq_headers rq ''x-tenant-id'') = Some slug" "slug \<noteq> []"
    by (auto simp: truthy_iff)
  let ?key = "header_string (rq_headers rq ''x-api-key'')"
  let ?call = "rs_authenticate st slug ?key (e, as_store a)"
  have law: "case ?call of
      (Inl err, w') \<Rightarrow> ok w' \<and> snd w' = as_store a
    | (Inr p, w') \<Rightarrow> ok w' \<and> snd w' = as_store a \<and> (\<forall>q. p = Some q \<longrightarrow> authentic (as_store a) q)"
    if "ok (e, as_store a)"
    using io_spec_at [OF authenticate_law, of "(e, as_store a)" "as_store a"] that by simp
  show ?thesis
    unfolding io_spec_def
  proof (intro allI impI)
    fix w
    assume w: "?P w"
    show "case preHandler st rq w of (Inl err, w') \<Rightarrow> ?E err w' | (Inr g, w') \<Rightarrow> ?Q g w'"
      using law w False slug
      by (auto simp: preHandler_def Let_def send_def io_return_def io_bind_def io_zoom_def presents_def
          truthy_def split: prod.splits sum.splits option.splits)
  qed
qed

lemma serve_spec:
  "io_spec (\<lambda>w. w = (e, a) \<and> ok (e, as_store a)) (serve st cf rq)
    (\<lambda>_ w. ok (fst w, as_store (snd w)) \<and>
       allowed_change view (\<lambda>s p. authentic s p \<and> presents st rq e s p) (as_store a) (as_store (snd w)))
    (\<lambda>_ w. ok (fst w, as_store (snd w)) \<and>
       allowed_change view (\<lambda>s p. authentic s p \<and> presents st rq e s p) (as_store a) (as_store (snd w)))"
  (is "io_spec ?P _ (\<lambda>_. ?Q) ?E")
  unfolding serve_def
proof (rule io_spec_bind)
  show "io_spec ?P
     (io_catch
        (io_bind (preHandler st rq) (\<lambda>g.
         case g of Stop r \<Rightarrow> io_return r | Proceed p \<Rightarrow> dispatch st cf p rq (rq_route rq)))
        (\<lambda>err. send (cf_errorStatus cf err) (B_thrown err))) (\<lambda>_. ?Q) ?E"
  proof (rule spec_catch [OF io_spec_bind])
    let ?R = "\<lambda>g w. ok (fst w, as_store (snd w)) \<and> as_store (snd w) = as_store a \<and>
       (\<forall>p. g = Proceed (Some p) \<longrightarrow> authentic (as_store a) p \<and> presents st rq e (as_store a) p)"
    show "io_spec ?P (preHandler st rq) ?R ?E"
      using preHandler_spec by (rule io_spec_weaken) auto
    fix g
    show "io_spec (?R g)
        (case g of Stop r \<Rightarrow> io_return r | Proceed p \<Rightarrow> dispatch st cf p rq (rq_route rq)) (\<lambda>_. ?Q) ?E"
    proof (cases g)
      case (Proceed caller)
      show ?thesis
      proof (cases "\<forall>p. caller = Some p \<longrightarrow>
          authentic (as_store a) p \<and> authentic (as_store a) p \<and> presents st rq e (as_store a) p")
        case True
        show ?thesis
          unfolding Proceed
          by simp (rule io_spec_weaken [OF dispatch_spec [where
              who = "\<lambda>s p. authentic s p \<and> presents st rq e s p", OF True]]; auto)
      qed (auto simp: Proceed intro: io_spec_never)
    qed (auto intro!: io_spec_return)
  qed (auto intro!: send_spec)
  fix rp
  show "io_spec ?Q (io_bind (onResponse rq rp) (\<lambda>_. io_return rp)) (\<lambda>_. ?Q) ?E"
    unfolding onResponse_def Let_def by (intro spec_keeps keeps_stable_bind) simp_all
qed

lemma serve_run:
  assumes "ok (e, as_store a)" and "serve st cf rq (e, a) = (Inr rp, (e', a'))"
  shows "ok (e', as_store a') \<and>
    allowed_change view (\<lambda>s p. authentic s p \<and> presents st rq e s p) (as_store a) (as_store a')"
  using io_specD_Inr [OF serve_spec [of e a cf rq] _ assms(2)] assms(1) by simp

text \<open>The caller of a handler is the principal the authentication hook found.\<close>

lemma proceed_presents:
  assumes "ok (e, as_store a)" and "preHandler st rq (e, a) = (Inr (Proceed caller), (e', a'))"
  shows "ok (e', as_store a') \<and> as_store a' = as_store a \<and>
    (\<forall>p. caller = Some p \<longrightarrow> authentic (as_store a) p \<and> presents st rq e (as_store a) p)"
  using io_specD_Inr [OF preHandler_spec [of e a rq] _ assms(2)] assms(1) by auto

lemma approve_run_ok:
  assumes "ok (e, as_store a)"
    and "\<forall>p. caller = Some p \<longrightarrow> authentic (as_store a) p \<and> who (as_store a) p"
    and "approve_run st caller i (e, a) = (Inr rp, (e', a'))"
  shows "ok (e', as_store a') \<and>
    (as_store a' = as_store a \<and> rp_code rp \<noteq> 200 \<or>
     (\<exists>r. rp = \<lparr>rp_code = 200, rp_body = B_run r\<rparr> \<and>
        moved view who names i (\<lambda>x. x = Awaiting_approval) Queued r (as_store a) (as_store a')))"
  using io_specD_Inr [OF approve_spec [where who = who, OF assms(2)] _ assms(3)] assms(1) by simp

lemma cancel_run_ok:
  assumes "ok (e, as_store a)"
    and "\<forall>p. caller = Some p \<longrightarrow> authentic (as_store a) p \<and> who (as_store a) p"
    and "cancel_run st caller i (e, a) = (Inr rp, (e', a'))"
  shows "ok (e', as_store a') \<and>
    (as_store a' = as_store a \<and> rp_code rp \<noteq> 200 \<or>
     (\<exists>r. rp = \<lparr>rp_code = 200, rp_body = B_run r\<rparr> \<and>
        moved view who names i (\<lambda>x. \<not> terminal x) Cancelled r (as_store a) (as_store a')))"
  using io_specD_Inr [OF cancel_spec [where who = who, OF assms(2)] _ assms(3)] assms(1) by simp

text \<open>A whole sequence of requests, each seeing the state the one before left.\<close>

lemma serve_all_ok:
  assumes "fold (\<lambda>rq w. snd (serve st cf rq w)) rqs (e, a) = (e', a')" and "ok (e, as_store a)"
  shows "ok (e', as_store a') \<and> view_evolves (view (as_store a)) (view (as_store a'))"
  using assms
proof (induction rqs arbitrary: e a)
  case Nil
  then show ?case by simp
next
  case (Cons rq rqs)
  obtain rp e1 a1 where step: "serve st cf rq (e, a) = (Inr rp, (e1, a1))"
    using serve_returns [of st cf rq "(e, a)"] by auto
  from serve_run [OF Cons.prems(2) step]
  have ok1: "ok (e1, as_store a1)" and "view_evolves (view (as_store a)) (view (as_store a1))"
    by (auto simp: allowed_change_def)
  with Cons.IH [OF _ ok1] Cons.prems(1) step show ?case
    by (auto intro: view_evolves_trans)
qed

end

end
