(* ===== verification/MemoryStore.thy ===== *)
theory MemoryStore
  imports AppContract
begin

text \<open>
  The in-memory store (\<open>InMemoryDurableStore\<close> in \<open>services/control-plane/src/store.ts\<close>).
  The four JavaScript maps are partial functions, since nothing iterates over them; a run object
  that \<open>transition\<close> mutates in place is replaced under its identifier. The store is constructed
  with the credential of one tenant, and nothing adds another.
\<close>

record mem_credential =
  mc_hash :: string
  mc_role :: role
  mc_subject :: string

record mem_store =
  ms_workflows :: "string \<rightharpoonup> stored_workflow"
  ms_runs :: "string \<rightharpoonup> stored_run"
  ms_audits :: "audit_record list"
  ms_idempotency :: "string \<rightharpoonup> string"
  ms_credentials :: "string \<rightharpoonup> mem_credential"

record mem_seed =
  sd_tenantId :: string
  sd_apiKey :: string
  sd_role :: "role option"
  sd_subject :: "string option"

definition new_InMemoryDurableStore :: "mem_seed \<Rightarrow> env \<Rightarrow> mem_store" where
  "new_InMemoryDurableStore seed e =
     \<lparr>ms_workflows = Map.empty, ms_runs = Map.empty, ms_audits = [], ms_idempotency = Map.empty,
      ms_credentials = [sd_tenantId seed \<mapsto>
        \<lparr>mc_hash = sha256_hex e (sd_apiKey seed),
         mc_role = (case sd_role seed of None \<Rightarrow> Owner | Some r \<Rightarrow> r),
         mc_subject = (case sd_subject seed of None \<Rightarrow> ''bootstrap-owner'' | Some s \<Rightarrow> s)\<rparr>]\<rparr>"

definition mem_ready :: "(mem_store, unit) io" where
  "mem_ready = io_return ()"

definition mem_authenticate :: "string \<Rightarrow> string option \<Rightarrow> (mem_store, principal option) io" where
  "mem_authenticate tenantId apiKey =
     io_bind (io_get (\<lambda>s. ms_credentials s tenantId)) (\<lambda>record.
       case record of
         None \<Rightarrow> io_return None
       | Some c \<Rightarrow>
           (case apiKey of
              None \<Rightarrow> io_return None
            | Some key \<Rightarrow>
                if key = [] then io_return None
                else io_bind (hashApiKey key) (\<lambda>h.
                  if \<not> constantTimeEqual (mc_hash c) h then io_return None
                  else io_return (Some \<lparr>pr_tenantId = tenantId, pr_role = mc_role c,
                                        pr_subject = mc_subject c\<rparr>))))"

definition mem_audit :: "principal \<Rightarrow> string \<Rightarrow> string \<Rightarrow> (mem_store, unit) io" where
  "mem_audit p action resourceId =
     io_bind isoNow (\<lambda>now.
       io_modify (\<lambda>s. s\<lparr>ms_audits := ms_audits s @
         [\<lparr>au_at = now, au_tenantId = pr_tenantId p, au_subject = pr_subject p,
           au_action = action, au_resourceId = resourceId\<rparr>]\<rparr>))"

definition mem_createWorkflow ::
  "principal \<Rightarrow> workflow_definition \<Rightarrow> (mem_store, stored_workflow) io" where
  "mem_createWorkflow p definition =
     io_bind next_uuid (\<lambda>i.
     io_bind isoNow (\<lambda>now.
     let workflow = \<lparr>sw_id = i, sw_tenantId = pr_tenantId p, sw_definition = definition,
                     sw_createdAt = now\<rparr> in
     io_bind (io_modify (\<lambda>s. s\<lparr>ms_workflows := (ms_workflows s)(i \<mapsto> workflow)\<rparr>)) (\<lambda>_.
     io_bind (mem_audit p ''workflow.created'' i) (\<lambda>_.
     io_return workflow))))"

definition idempotency_slot :: "principal \<Rightarrow> string \<Rightarrow> string" where
  "idempotency_slot p idempotencyKey = pr_tenantId p @ '':'' @ idempotencyKey"

definition mem_new_run ::
  "principal \<Rightarrow> run_request \<Rightarrow> string \<Rightarrow> stored_workflow \<Rightarrow> timestamp \<Rightarrow> string \<Rightarrow> stored_run" where
  "mem_new_run p request idempotencyKey workflow now i =
     \<lparr>run_id = i, run_tenantId = pr_tenantId p, run_workflowId = sw_id workflow,
      run_state = Queued, run_input = rr_input request,
      run_budgetCents = wf_budgetCents (sw_definition workflow),
      run_idempotencyKey = idempotencyKey, run_createdAt = now,
      run_events = [\<lparr>ev_at = now, ev_type = Ev_created, ev_detail = ''Run queued'',
                     ev_traceId = None\<rparr>]\<rparr>"

definition mem_createRun ::
  "principal \<Rightarrow> run_request \<Rightarrow> string \<Rightarrow> (mem_store, stored_run \<times> bool) io" where
  "mem_createRun p request idempotencyKey =
     (let key = idempotency_slot p idempotencyKey in
      io_bind (io_get (\<lambda>s. ms_idempotency s key)) (\<lambda>priorId.
      if truthy priorId
      then io_bind (io_get (\<lambda>s. ms_runs s (the priorId))) (\<lambda>prior.
        case prior of
          None \<Rightarrow> io_throw (Error ''Idempotency record refers to a missing run'')
        | Some r \<Rightarrow> io_return (r, True))
      else io_bind (io_get (\<lambda>s. ms_workflows s (rr_workflowId request))) (\<lambda>workflow.
        case workflow of
          None \<Rightarrow> io_throw (Error ''Workflow not found'')
        | Some w \<Rightarrow>
            if sw_tenantId w \<noteq> pr_tenantId p then io_throw (Error ''Workflow not found'')
            else io_bind isoNow (\<lambda>now. io_bind next_uuid (\<lambda>i.
              let run = mem_new_run p request idempotencyKey w now i in
              io_bind (io_modify (\<lambda>s. s\<lparr>ms_runs := (ms_runs s)(i \<mapsto> run)\<rparr>)) (\<lambda>_.
              io_bind (io_modify (\<lambda>s. s\<lparr>ms_idempotency := (ms_idempotency s)(key \<mapsto> i)\<rparr>)) (\<lambda>_.
              io_bind (mem_audit p ''run.created'' i) (\<lambda>_.
              io_return (run, False)))))))))"

definition mem_readRun :: "principal \<Rightarrow> string \<Rightarrow> (mem_store, stored_run option) io" where
  "mem_readRun p runId =
     io_bind (io_get (\<lambda>s. ms_runs s runId)) (\<lambda>run.
       case run of
         None \<Rightarrow> io_return None
       | Some r \<Rightarrow> io_return (if run_tenantId r = pr_tenantId p then Some r else None))"

definition mem_transition ::
  "principal \<Rightarrow> string \<Rightarrow> run_state \<Rightarrow> run_event \<Rightarrow> (mem_store, stored_run) io" where
  "mem_transition p runId state event =
     io_bind (mem_readRun p runId) (\<lambda>run.
       case run of
         None \<Rightarrow> io_throw (Error ''Run not found'')
       | Some r \<Rightarrow>
           (case assertTransition (run_state r) state of
              Inl err \<Rightarrow> io_throw err
            | Inr _ \<Rightarrow>
                (let r' = r\<lparr>run_state := state, run_events := run_events r @ [event]\<rparr> in
                 io_bind (io_modify (\<lambda>s. s\<lparr>ms_runs := (ms_runs s)(runId \<mapsto> r')\<rparr>)) (\<lambda>_.
                 io_bind (mem_audit p (''run.'' @ event_type_name (ev_type event)) runId) (\<lambda>_.
                 io_return r')))))"

definition mem_listAudit :: "principal \<Rightarrow> (mem_store, audit_record list) io" where
  "mem_listAudit p = io_get (\<lambda>s. filter (\<lambda>a. au_tenantId a = pr_tenantId p) (ms_audits s))"

definition InMemoryDurableStore :: "mem_store runtime_store" where
  "InMemoryDurableStore =
     \<lparr>rs_ready = mem_ready, rs_authenticate = mem_authenticate,
      rs_createWorkflow = mem_createWorkflow, rs_createRun = mem_createRun,
      rs_readRun = mem_readRun, rs_transition = mem_transition, rs_listAudit = mem_listAudit\<rparr>"

section \<open>Invariant and view\<close>

definition mem_view :: "mem_store \<Rightarrow> run_view" where
  "mem_view s t i =
     (case ms_runs s i of None \<Rightarrow> None | Some r \<Rightarrow> if run_tenantId r = t then Some r else None)"

text \<open>
  Identifiers are generated once and are not empty; runs are stored under their own identifier,
  one that was generated; every idempotency slot names the run it was made for; there is at most
  one tenant, and every run belongs to it.
\<close>

definition mem_ok :: "mem_store world \<Rightarrow> bool" where
  "mem_ok w \<longleftrightarrow>
     inj (uuids (fst w)) \<and> (\<forall>n. uuids (fst w) n \<noteq> []) \<and>
     (\<forall>i r. ms_runs (snd w) i = Some r \<longrightarrow>
        run_id r = i \<and> (\<exists>n < issued (fst w). i = uuids (fst w) n) \<and>
        ms_credentials (snd w) (run_tenantId r) \<noteq> None) \<and>
     (\<forall>k i. ms_idempotency (snd w) k = Some i \<longrightarrow>
        (\<exists>r. ms_runs (snd w) i = Some r \<and> k = run_tenantId r @ '':'' @ run_idempotencyKey r)) \<and>
     (\<forall>t t'. ms_credentials (snd w) t \<noteq> None \<longrightarrow> ms_credentials (snd w) t' \<noteq> None \<longrightarrow> t = t')"

definition mem_authentic :: "mem_store \<Rightarrow> principal \<Rightarrow> bool" where
  "mem_authentic s p \<longleftrightarrow>
     (\<exists>c. ms_credentials s (pr_tenantId p) = Some c \<and> pr_role p = mc_role c \<and>
          pr_subject p = mc_subject c)"

subsection \<open>The operations as equations\<close>

lemma mem_authenticate_eq:
  "mem_authenticate t key (e, s) =
     (Inr (case ms_credentials s t of
             None \<Rightarrow> None
           | Some c \<Rightarrow>
               if truthy key \<and> mc_hash c = sha256_hex e (the key)
               then Some \<lparr>pr_tenantId = t, pr_role = mc_role c, pr_subject = mc_subject c\<rparr>
               else None), (e, s))"
  by (auto simp: mem_authenticate_def hashApiKey_def io_defs truthy_def split: option.splits)

definition audited :: "principal \<Rightarrow> string \<Rightarrow> string \<Rightarrow> timestamp \<Rightarrow> mem_store \<Rightarrow> mem_store" where
  "audited p action i now s = s\<lparr>ms_audits := ms_audits s @
     [\<lparr>au_at = now, au_tenantId = pr_tenantId p, au_subject = pr_subject p,
       au_action = action, au_resourceId = i\<rparr>]\<rparr>"

lemma audited_fields [simp]:
  "ms_workflows (audited p a i n s) = ms_workflows s" "ms_runs (audited p a i n s) = ms_runs s"
  "ms_idempotency (audited p a i n s) = ms_idempotency s"
  "ms_credentials (audited p a i n s) = ms_credentials s"
  by (simp_all add: audited_def)

lemma mem_audit_eq:
  "mem_audit p action i (e, s) =
     (Inr (), (e\<lparr>ticks := Suc (ticks e)\<rparr>, audited p action i (clock e (ticks e)) s))"
  by (simp add: mem_audit_def isoNow_def io_defs audited_def)

lemma mem_createWorkflow_eq:
  "mem_createWorkflow p d (e, s) =
     (let w = \<lparr>sw_id = uuids e (issued e), sw_tenantId = pr_tenantId p, sw_definition = d,
               sw_createdAt = clock e (ticks e)\<rparr> in
      (Inr w, (e\<lparr>issued := Suc (issued e), ticks := ticks e + 2\<rparr>,
        audited p ''workflow.created'' (sw_id w) (clock e (Suc (ticks e)))
          (s\<lparr>ms_workflows := (ms_workflows s)(sw_id w \<mapsto> w)\<rparr>))))"
  by (simp add: mem_createWorkflow_def isoNow_def io_defs mem_audit_eq Let_def)

lemma mem_createRun_eq:
  "mem_createRun p rq k (e, s) =
     (let key = idempotency_slot p k in
      if truthy (ms_idempotency s key)
      then (case ms_runs s (the (ms_idempotency s key)) of
              None \<Rightarrow> (Inl (Error ''Idempotency record refers to a missing run''), (e, s))
            | Some r \<Rightarrow> (Inr (r, True), (e, s)))
      else (case ms_workflows s (rr_workflowId rq) of
              None \<Rightarrow> (Inl (Error ''Workflow not found''), (e, s))
            | Some w \<Rightarrow>
                if sw_tenantId w \<noteq> pr_tenantId p then (Inl (Error ''Workflow not found''), (e, s))
                else (let r = mem_new_run p rq k w (clock e (ticks e)) (uuids e (issued e)) in
                  (Inr (r, False), (e\<lparr>issued := Suc (issued e), ticks := ticks e + 2\<rparr>,
                     audited p ''run.created'' (run_id r) (clock e (Suc (ticks e)))
                       (s\<lparr>ms_runs := (ms_runs s)(run_id r \<mapsto> r),
                          ms_idempotency := (ms_idempotency s)(key \<mapsto> run_id r)\<rparr>))))))"
  by (simp add: mem_createRun_def isoNow_def io_defs mem_audit_eq Let_def mem_new_run_def
      split: option.splits)

lemma mem_readRun_eq: "mem_readRun p i (e, s) = (Inr (mem_view s (pr_tenantId p) i), (e, s))"
  by (simp add: mem_readRun_def io_defs mem_view_def split: option.splits)

lemma mem_transition_eq:
  "mem_transition p i st ev (e, s) =
     (case mem_view s (pr_tenantId p) i of
        None \<Rightarrow> (Inl (Error ''Run not found''), (e, s))
      | Some r \<Rightarrow>
          (case assertTransition (run_state r) st of
             Inl err \<Rightarrow> (Inl err, (e, s))
           | Inr _ \<Rightarrow>
               (let r' = r\<lparr>run_state := st, run_events := run_events r @ [ev]\<rparr> in
                (Inr r', (e\<lparr>ticks := Suc (ticks e)\<rparr>,
                   audited p (''run.'' @ event_type_name (ev_type ev)) i (clock e (ticks e))
                     (s\<lparr>ms_runs := (ms_runs s)(i \<mapsto> r')\<rparr>))))))"
  by (simp add: mem_transition_def io_bind_def mem_readRun_eq split: option.splits sum.splits)
     (simp add: io_defs mem_audit_eq Let_def)

lemmas mem_eqs = mem_authenticate_eq mem_createWorkflow_eq mem_createRun_eq mem_readRun_eq
  mem_transition_eq

section \<open>The store keeps its contract\<close>

lemma mem_okD:
  assumes "mem_ok (e, s)"
  shows "inj (uuids e)" and "uuids e n \<noteq> []"
    and "ms_runs s i = Some r \<Longrightarrow> run_id r = i"
    and "ms_runs s i = Some r \<Longrightarrow> \<exists>n < issued e. i = uuids e n"
    and "ms_runs s i = Some r \<Longrightarrow> ms_credentials s (run_tenantId r) \<noteq> None"
    and "ms_idempotency s k = Some i \<Longrightarrow>
      \<exists>r. ms_runs s i = Some r \<and> k = run_tenantId r @ '':'' @ run_idempotencyKey r"
    and "ms_credentials s t \<noteq> None \<Longrightarrow> ms_credentials s t' \<noteq> None \<Longrightarrow> t = t'"
  using assms unfolding mem_ok_def by auto

lemma mem_okI:
  assumes "inj (uuids e)" and "\<And>n. uuids e n \<noteq> []"
    and "\<And>i r. ms_runs s i = Some r \<Longrightarrow> run_id r = i"
    and "\<And>i r. ms_runs s i = Some r \<Longrightarrow> \<exists>n < issued e. i = uuids e n"
    and "\<And>i r. ms_runs s i = Some r \<Longrightarrow> ms_credentials s (run_tenantId r) \<noteq> None"
    and "\<And>k i. ms_idempotency s k = Some i \<Longrightarrow>
      \<exists>r. ms_runs s i = Some r \<and> k = run_tenantId r @ '':'' @ run_idempotencyKey r"
    and "\<And>t t'. ms_credentials s t \<noteq> None \<Longrightarrow> ms_credentials s t' \<noteq> None \<Longrightarrow> t = t'"
  shows "mem_ok (e, s)"
  using assms unfolding mem_ok_def by auto

lemma mem_ok_more_issued:
  "mem_ok (e, s) \<Longrightarrow> issued e \<le> n \<Longrightarrow> mem_ok (e\<lparr>issued := n, ticks := m\<rparr>, s)"
  "mem_ok (e, s) \<Longrightarrow> mem_ok (e\<lparr>ticks := m\<rparr>, s)"
  unfolding mem_ok_def by (auto, meson le_trans less_le_trans)+

lemma mem_ok_audited [simp]: "mem_ok (e, audited p a i n s) \<longleftrightarrow> mem_ok (e, s)"
  by (simp add: mem_ok_def)

lemma mem_view_audited [simp]: "mem_view (audited p a i n s) = mem_view s"
  by (simp add: mem_view_def fun_eq_iff)

lemma mem_ok_workflows [simp]: "mem_ok (e, s\<lparr>ms_workflows := m\<rparr>) \<longleftrightarrow> mem_ok (e, s)"
  by (simp add: mem_ok_def)

lemma mem_view_workflows [simp]: "mem_view (s\<lparr>ms_workflows := m\<rparr>) = mem_view s"
  by (simp add: mem_view_def fun_eq_iff)

lemma mem_fresh: "mem_ok (e, s) \<Longrightarrow> ms_runs s (uuids e (issued e)) = None"
  using mem_okD(1,4) by (metis inj_eq less_irrefl option.exhaust)

lemma mem_view_Some:
  "mem_view s t i = Some r \<longleftrightarrow> ms_runs s i = Some r \<and> run_tenantId r = t"
  by (auto simp: mem_view_def split: option.splits)

lemma mem_view_update:
  assumes "ms_runs s i = None \<or> (\<exists>r0. ms_runs s i = Some r0 \<and> run_tenantId r0 = run_tenantId r)"
  shows "mem_view (s\<lparr>ms_runs := (ms_runs s)(i \<mapsto> r), ms_idempotency := m\<rparr>) =
    (mem_view s)(run_tenantId r := (mem_view s (run_tenantId r))(i \<mapsto> r))"
  using assms by (auto simp: mem_view_def fun_eq_iff)

lemma mem_view_update':
  assumes "ms_runs s i = Some r0" and "run_tenantId r0 = run_tenantId r"
  shows "mem_view (s\<lparr>ms_runs := (ms_runs s)(i \<mapsto> r)\<rparr>) =
    (mem_view s)(run_tenantId r := (mem_view s (run_tenantId r))(i \<mapsto> r))"
  using mem_view_update [of s i r "ms_idempotency s"] assms by simp

lemma mem_ok_transition:
  assumes "mem_ok (e, s)" and "ms_runs s i = Some r"
  shows "mem_ok (e, s\<lparr>ms_runs := (ms_runs s)(i \<mapsto> r\<lparr>run_state := st, run_events := evs\<rparr>)\<rparr>)"
proof (rule mem_okI)
  note ok = mem_okD [OF assms(1)]
  show "\<exists>r'. ms_runs (s\<lparr>ms_runs := (ms_runs s)(i \<mapsto> r\<lparr>run_state := st, run_events := evs\<rparr>)\<rparr>) j = Some r'
      \<and> k = run_tenantId r' @ '':'' @ run_idempotencyKey r'"
    if "ms_idempotency (s\<lparr>ms_runs := (ms_runs s)(i \<mapsto> r\<lparr>run_state := st, run_events := evs\<rparr>)\<rparr>) k = Some j"
    for k j
    using ok(6) [of k j] that assms(2) by auto
qed (use mem_okD [OF assms(1)] assms(2) in \<open>auto split: if_splits\<close>)

lemma mem_ok_createRun:
  assumes ok: "mem_ok (e, s)" and "mem_authentic s p"
    and r: "r = mem_new_run p rq k w n (uuids e (issued e))"
  shows "mem_ok (e\<lparr>issued := Suc (issued e), ticks := m\<rparr>,
    s\<lparr>ms_runs := (ms_runs s)(run_id r \<mapsto> r),
      ms_idempotency := (ms_idempotency s)(idempotency_slot p k \<mapsto> run_id r)\<rparr>)"
proof (rule mem_okI)
  have ok': "mem_ok (e\<lparr>issued := Suc (issued e), ticks := m\<rparr>, s)"
    using ok by (rule mem_ok_more_issued) simp
  have fresh: "ms_runs s (run_id r) = None"
    using mem_fresh [OF ok] r by (simp add: mem_new_run_def)
  fix i r' t t' n k' i'
  let ?s = "s\<lparr>ms_runs := (ms_runs s)(run_id r \<mapsto> r),
      ms_idempotency := (ms_idempotency s)(idempotency_slot p k \<mapsto> run_id r)\<rparr>"
  let ?e = "e\<lparr>issued := Suc (issued e), ticks := m\<rparr>"
  show "inj (uuids ?e)" and "uuids ?e n \<noteq> []"
    using mem_okD(1,2) [OF ok] by simp_all
  show "run_id r' = i" if "ms_runs ?s i = Some r'"
    using that mem_okD(3) [OF ok] by (auto split: if_splits)
  show "\<exists>n < issued ?e. i = uuids ?e n" if "ms_runs ?s i = Some r'"
    using that mem_okD(4) [OF ok'] r by (auto simp: mem_new_run_def split: if_splits)
  show "ms_credentials ?s (run_tenantId r') \<noteq> None" if "ms_runs ?s i = Some r'"
    using that mem_okD(5) [OF ok] r assms(2)
    by (auto simp: mem_new_run_def mem_authentic_def split: if_splits)
  show "t = t'" if "ms_credentials ?s t \<noteq> None" "ms_credentials ?s t' \<noteq> None"
    using that mem_okD(7) [OF ok] by simp
  show "\<exists>r'. ms_runs ?s i' = Some r' \<and> k' = run_tenantId r' @ '':'' @ run_idempotencyKey r'"
    if slot: "ms_idempotency ?s k' = Some i'"
  proof (cases "k' = idempotency_slot p k")
    case True
    with slot r show ?thesis by (auto simp: idempotency_slot_def mem_new_run_def)
  next
    case False
    with slot have "ms_idempotency s k' = Some i'" by simp
    from mem_okD(6) [OF ok this] fresh show ?thesis by auto
  qed
qed

lemma mem_replay:
  assumes ok: "mem_ok (e, s)" and p: "mem_authentic s p"
    and slot: "ms_idempotency s (idempotency_slot p k) = Some i"
  obtains r where "ms_runs s i = Some r" and "run_id r = i" and "i \<noteq> []"
    and "run_tenantId r = pr_tenantId p" and "run_idempotencyKey r = k"
proof -
  from mem_okD(6) [OF ok slot] obtain r where run: "ms_runs s i = Some r"
    and key: "pr_tenantId p @ '':'' @ k = run_tenantId r @ '':'' @ run_idempotencyKey r"
    by (auto simp: idempotency_slot_def)
  have "run_tenantId r = pr_tenantId p"
    using mem_okD(5) [OF ok run] p mem_okD(7) [OF ok] unfolding mem_authentic_def by blast
  with key have "run_idempotencyKey r = k" by simp
  moreover have "i \<noteq> []" and "run_id r = i"
    using mem_okD(2) [OF ok] mem_okD(3,4) [OF ok run] by metis+
  ultimately show thesis
    using that run \<open>run_tenantId r = pr_tenantId p\<close> by blast
qed

lemma mem_createRun_law:
  assumes "mem_authentic s p"
  shows "io_spec (\<lambda>w. mem_ok w \<and> snd w = s) (mem_createRun p rq k)
    (\<lambda>x w'. mem_ok w' \<and> run_tenantId (fst x) = pr_tenantId p \<and> run_idempotencyKey (fst x) = k \<and>
       (if snd x then mem_view (snd w') = mem_view s \<and>
                      mem_view s (pr_tenantId p) (run_id (fst x)) = Some (fst x)
        else adds_run (pr_tenantId p) (fst x) (mem_view s) (mem_view (snd w'))))
    (\<lambda>_ w'. mem_ok w' \<and> (mem_view (snd w') = mem_view s \<or>
       (\<exists>r. adds_run (pr_tenantId p) r (mem_view s) (mem_view (snd w')))))"
proof (rule io_specI)
  fix w e w'
  assume "mem_ok w \<and> snd w = s" "mem_createRun p rq k w = (Inl e, w')"
  then show "mem_ok w' \<and> (mem_view (snd w') = mem_view s \<or>
      (\<exists>r. adds_run (pr_tenantId p) r (mem_view s) (mem_view (snd w'))))"
    by (cases w) (auto simp: mem_createRun_eq Let_def
      split: option.splits if_splits)
next
  fix w x w'
  assume w: "mem_ok w \<and> snd w = s" and
    run: "mem_createRun p rq k w = (Inr x, w')"
  obtain e where e: "w = (e, s)" using w by (cases w) auto
  have ok: "mem_ok (e, s)" using w e by simp
  show "mem_ok w' \<and> run_tenantId (fst x) = pr_tenantId p \<and> run_idempotencyKey (fst x) = k \<and>
      (if snd x then mem_view (snd w') = mem_view s \<and>
                     mem_view s (pr_tenantId p) (run_id (fst x)) = Some (fst x)
       else adds_run (pr_tenantId p) (fst x) (mem_view s) (mem_view (snd w')))"
  proof (cases "ms_idempotency s (idempotency_slot p k)")
    case (Some i)
    then obtain r where "ms_runs s i = Some r" "run_id r = i" "i \<noteq> []"
      "run_tenantId r = pr_tenantId p" "run_idempotencyKey r = k"
      using mem_replay [OF ok assms Some] by blast
    with Some run e ok show ?thesis
      by (auto simp: mem_createRun_eq Let_def truthy_def mem_view_def)
  next
    case None
    with run e obtain wf where x: "x = (mem_new_run p rq k wf (clock e (ticks e))
        (uuids e (issued e)), False)"
      by (auto simp: mem_createRun_eq Let_def truthy_def
          split: option.splits if_splits)
    let ?r = "fst x"
    from None run e x have w': "snd w' = audited p ''run.created'' (run_id ?r) (clock e (Suc (ticks e)))
          (s\<lparr>ms_runs := (ms_runs s)(run_id ?r \<mapsto> ?r),
             ms_idempotency := (ms_idempotency s)(idempotency_slot p k \<mapsto> run_id ?r)\<rparr>)"
      and e': "fst w' = e\<lparr>issued := Suc (issued e), ticks := ticks e + 2\<rparr>"
      by (auto simp: mem_createRun_eq Let_def truthy_def
          split: option.splits if_splits)
    have fresh: "ms_runs s (run_id ?r) = None"
      using mem_fresh [OF ok] x by (simp add: mem_new_run_def)
    have "mem_ok w'"
      using mem_ok_createRun [OF ok assms, of ?r rq k wf "clock e (ticks e)" "ticks e + 2"] x w' e'
      by (cases w') simp
    moreover have "mem_view (snd w') =
        (mem_view s)(run_tenantId ?r := (mem_view s (run_tenantId ?r))(run_id ?r \<mapsto> ?r))"
      using mem_view_update fresh by (simp add: w')
    ultimately show ?thesis
      using x fresh by (auto simp: adds_run_def mem_new_run_def mem_view_def)
  qed
qed

lemma mem_transition_law:
  "io_spec (\<lambda>w. mem_ok w \<and> snd w = s) (mem_transition p i target ev)
    (\<lambda>r w'. mem_ok w' \<and> run_tenantId r = pr_tenantId p \<and> i = run_id r \<and>
       moves_run (pr_tenantId p) target r (mem_view s) (mem_view (snd w')))
    (\<lambda>_ w'. mem_ok w' \<and> (mem_view (snd w') = mem_view s \<or>
       (\<exists>r. i = run_id r \<and> moves_run (pr_tenantId p) target r (mem_view s) (mem_view (snd w')))))"
proof (rule io_specI)
  fix w e w'
  assume "mem_ok w \<and> snd w = s" "mem_transition p i target ev w = (Inl e, w')"
  then show "mem_ok w' \<and> (mem_view (snd w') = mem_view s \<or>
      (\<exists>r. i = run_id r \<and>
          moves_run (pr_tenantId p) target r (mem_view s) (mem_view (snd w'))))"
    by (cases w) (auto simp: mem_transition_eq Let_def
      split: option.splits sum.splits)
next
  fix w r w'
  assume w: "mem_ok w \<and> snd w = s" and
    run: "mem_transition p i target ev w = (Inr r, w')"
  obtain e where e: "w = (e, s)" using w by (cases w) auto
  have ok: "mem_ok (e, s)" using w e by simp
  from run e obtain r0 where r0: "ms_runs s i = Some r0" "run_tenantId r0 = pr_tenantId p"
    and allowed: "assertTransition (run_state r0) target = Inr ()"
    and r: "r = r0\<lparr>run_state := target, run_events := run_events r0 @ [ev]\<rparr>"
    and w': "w' = (e\<lparr>ticks := Suc (ticks e)\<rparr>,
      audited p (''run.'' @ event_type_name (ev_type ev)) i (clock e (ticks e))
        (s\<lparr>ms_runs := (ms_runs s)(i \<mapsto> r)\<rparr>))"
    by (auto simp: mem_transition_eq Let_def mem_view_Some
        split: option.splits sum.splits)
  have "run_id r0 = i"
    using mem_okD(3) [OF ok r0(1)] .
  moreover have "mem_view (snd w') =
      (mem_view s)(run_tenantId r := (mem_view s (run_tenantId r))(i \<mapsto> r))"
    using mem_view_update' [OF r0(1), of r] r by (simp add: w')
  moreover have "mem_ok w'"
    using mem_ok_transition [OF ok r0(1)] r by (simp add: w' mem_ok_more_issued)
  moreover have "mem_view s (pr_tenantId p) i = Some r0"
    using r0 by (simp add: mem_view_Some)
  ultimately show "mem_ok w' \<and> run_tenantId r = pr_tenantId p \<and> i = run_id r \<and>
      moves_run (pr_tenantId p) target r (mem_view s) (mem_view (snd w'))"
    using r r0 allowed by (auto simp: moves_run_def)
qed

lemma mem_authenticate_law:
  "io_spec (\<lambda>w. mem_ok w \<and> snd w = s) (mem_authenticate slug key)
    (\<lambda>p w'. mem_ok w' \<and> snd w' = s \<and> (\<forall>q. p = Some q \<longrightarrow> mem_authentic s q))
    (\<lambda>_ w'. mem_ok w' \<and> snd w' = s)"
  by (rule io_specI)
     (auto simp: mem_authenticate_eq mem_authentic_def split: option.splits if_splits)

lemma mem_createWorkflow_law:
  "io_spec (\<lambda>w. mem_ok w \<and> snd w = s) (mem_createWorkflow p d)
    (\<lambda>x w'. mem_ok w' \<and> mem_view (snd w') = mem_view s \<and>
       sw_tenantId x = pr_tenantId p \<and> sw_definition x = d)
    (\<lambda>_ w'. mem_ok w' \<and> mem_view (snd w') = mem_view s)"
  by (rule io_specI) (auto simp: mem_createWorkflow_eq Let_def mem_ok_more_issued)

lemma mem_readRun_law:
  "io_spec (\<lambda>w. mem_ok w \<and> snd w = s) (mem_readRun p i)
    (\<lambda>x w'. mem_ok w' \<and> snd w' = s \<and> (\<forall>r. x = Some r \<longrightarrow>
       run_tenantId r = pr_tenantId p \<and> i = run_id r \<and>
       mem_view s (pr_tenantId p) (run_id r) = Some r))
    (\<lambda>_ w'. mem_ok w' \<and> snd w' = s)"
  by (rule io_specI) (auto simp: mem_readRun_eq mem_view_Some dest: mem_okD(3))

lemma mem_listAudit_law:
  "io_spec (\<lambda>w. mem_ok w \<and> snd w = s) (mem_listAudit p)
    (\<lambda>xs w'. mem_ok w' \<and> snd w' = s \<and> (\<forall>x \<in> set xs. au_tenantId x = pr_tenantId p))
    (\<lambda>_ w'. mem_ok w' \<and> snd w' = s)"
  by (rule io_specI) (auto simp: mem_listAudit_def io_get_def)

lemma mem_ready_law:
  "io_spec (\<lambda>w. mem_ok w \<and> snd w = s) mem_ready
    (\<lambda>_ w'. mem_ok w' \<and> snd w' = s) (\<lambda>_ w'. mem_ok w' \<and> snd w' = s)"
  by (simp add: mem_ready_def io_spec_def io_return_def)

lemma mem_ok_env: "mem_ok (e, s) \<Longrightarrow> same_sources e e' \<Longrightarrow> mem_ok (e', s)"
  unfolding mem_ok_def same_sources_def by (auto, meson less_le_trans)+

interpretation mem: runtime_store_contract InMemoryDurableStore mem_view mem_ok mem_authentic "(=)"
proof (unfold_locales, goal_cases)
  case 1 then show ?case by simp
next
  case 2 then show ?case by (rule mem_ok_env)
qed (simp_all add: InMemoryDurableStore_def mem_ready_law mem_authenticate_law
      mem_createWorkflow_law mem_createRun_law mem_readRun_law mem_transition_law
      mem_listAudit_law)

end
