(* ===== verification/Database.thy ===== *)
theory Database
  imports Store
begin

text \<open>
  The PostgreSQL schema (\<open>db/migrations/*.sql\<close>) and the sessions that work on it. A table is
  the list of its rows in the order of insertion, which is the order of an identity column. A
  session is one connection inside a transaction: the database as the transaction sees it, the
  role it connected with, the transaction-local setting \<open>app.tenant_id\<close> and the instant the
  transaction began (\<open>now()\<close>). Row level security, the grants of the two roles, unique, check
  and foreign key constraints are part of each statement. Instants are read in the UTC zone.

  A statement is one round trip; it may fail, and then the transaction is given up. Statements are
  run one transaction after the other; the interleaving of two transactions is not modelled here.
\<close>

datatype db_role = DarControl | DarWorker

record tenant_row =
  tn_id :: uuid
  tn_slug :: string

record principal_row =
  pn_id :: uuid
  pn_tenant_id :: uuid
  pn_subject :: string
  pn_role :: role

record api_key_row =
  ak_tenant_id :: uuid
  ak_principal_id :: uuid
  ak_key_hash :: string
  ak_revoked_at :: "timestamp option"

record limits_row =
  lm_tenant_id :: uuid
  lm_max_active_runs :: nat
  lm_max_runs_per_day :: nat

record workflow_row =
  wr_id :: uuid
  wr_tenant_id :: uuid
  wr_name :: string
  wr_version :: string
  wr_definition :: json
  wr_budget_cents :: int
  wr_created_at :: timestamp

record run_row =
  rw_id :: uuid
  rw_tenant_id :: uuid
  rw_workflow_id :: uuid
  rw_idempotency_key :: string
  rw_state :: run_state
  rw_input :: "(string \<times> json) list"
  rw_budget_cents :: int
  rw_created_at :: timestamp
  rw_updated_at :: timestamp
  rw_current_step :: nat
  rw_lease_owner :: "string option"
  rw_lease_expires_at :: "timestamp option"
  rw_attempt_count :: nat
  rw_last_error_code :: "string option"
  rw_provider_credential_handle :: "uuid option"

record event_row =
  er_tenant_id :: uuid
  er_run_id :: uuid
  er_event_type :: event_type
  er_detail :: string
  er_trace_id :: "string option"
  er_created_at :: timestamp

record outbox_row =
  ob_id :: nat
  ob_tenant_id :: uuid
  ob_run_id :: uuid
  ob_subject :: string
  ob_payload :: "(string \<times> json) list"
  ob_published_at :: "timestamp option"
  ob_attempts :: nat

record audit_row =
  ar_tenant_id :: uuid
  ar_principal_id :: "uuid option"
  ar_action :: string
  ar_resource_id :: "uuid option"
  ar_created_at :: timestamp

record db =
  db_tenants :: "tenant_row list"
  db_principals :: "principal_row list"
  db_api_keys :: "api_key_row list"
  db_limits :: "limits_row list"
  db_workflows :: "workflow_row list"
  db_runs :: "run_row list"
  db_events :: "event_row list"
  db_outbox :: "outbox_row list"
  db_outbox_seq :: nat
  db_audits :: "audit_row list"

record session =
  se_db :: db
  se_role :: db_role
  se_tenant :: "string option"
  se_now :: timestamp

section \<open>Grants and row level security\<close>

datatype sql_table =
    T_tenants | T_principals | T_api_keys | T_limits | T_workflows | T_runs | T_events
  | T_outbox | T_audits

datatype sql_right = Select | Insert | Update | Update_run_state | Queue_function

text \<open>
  \<open>Update_run_state\<close> is the update of \<open>state\<close>, \<open>current_step\<close> and \<open>updated_at\<close> alone,
  \<open>Queue_function\<close> the execution of \<open>queue_run_outbox\<close>.
\<close>

fun granted :: "db_role \<Rightarrow> sql_right \<times> sql_table \<Rightarrow> bool" where
  "granted DarControl (right, table) =
     (if table \<in> {T_tenants, T_principals, T_api_keys, T_limits, T_workflows, T_events, T_audits}
      then right \<in> {Select, Insert, Update}
      else if table = T_runs then right \<in> {Select, Insert, Update_run_state}
      else right = Queue_function)"
| "granted DarWorker (right, table) =
     (if table \<in> {T_tenants, T_workflows} then right = Select
      else if table = T_runs then right \<in> {Select, Update, Update_run_state}
      else if table \<in> {T_events, T_outbox} then right \<in> {Select, Insert, Update}
      else False)"

definition visible :: "env \<Rightarrow> session \<Rightarrow> uuid \<Rightarrow> bool" where
  "visible e s t \<longleftrightarrow>
     se_role s = DarWorker \<or>
     (case se_tenant s of
        None \<Rightarrow> False
      | Some text \<Rightarrow> text \<noteq> [] \<and> parse_uuid e text = Some t)"

section \<open>Statements\<close>

type_synonym 'a statement = "env \<Rightarrow> session \<Rightarrow> db_error + 'a \<times> db"

text \<open>A round trip that has no effect of its own on the database the caller can rely on.\<close>

definition roundtrip :: "('s, unit) io" where
  "roundtrip = io_bind next_fate (\<lambda>fate.
     case fate of
       Performed \<Rightarrow> io_return ()
     | NotPerformed text \<Rightarrow> io_throw (Error text)
     | PerformedButLost text \<Rightarrow> io_throw (Error text))"

definition query :: "(sql_right \<times> sql_table) list \<Rightarrow> 'a statement \<Rightarrow> (session, 'a) io" where
  "query rights q =
     io_bind roundtrip (\<lambda>_.
     (\<lambda>(e, s).
        if list_all (granted (se_role s)) rights
        then (case q e s of
                Inl err \<Rightarrow> (Inl (Error (db_message e err)), (e, s))
              | Inr (x, d) \<Rightarrow> (Inr x, (e, s\<lparr>se_db := d\<rparr>)))
        else (Inl (Error (db_message e (PermissionDenied ''permission denied''))), (e, s))))"

text \<open>The conversion of a text parameter to \<open>uuid\<close>.\<close>

definition as_uuid :: "env \<Rightarrow> string \<Rightarrow> (uuid \<Rightarrow> db_error + 'a) \<Rightarrow> db_error + 'a" where
  "as_uuid e text k =
     (case parse_uuid e text of None \<Rightarrow> Inl (InvalidUuidText text) | Some u \<Rightarrow> k u)"

section \<open>Transactions on a pooled connection\<close>

record pg =
  pg_role :: db_role
  pg_db :: db

definition begin_transaction :: "(session, unit) io" where
  "begin_transaction = io_bind roundtrip (\<lambda>_. io_bind next_clock (\<lambda>now.
     io_modify (\<lambda>s. s\<lparr>se_now := now\<rparr>)))"

definition rollback_and_rethrow :: "error \<Rightarrow> ('s, 'a) io" where
  "rollback_and_rethrow err = io_bind roundtrip (\<lambda>_. io_throw err)"

definition open_session :: "pg \<Rightarrow> session" where
  "open_session p = \<lparr>se_db = pg_db p, se_role = pg_role p, se_tenant = None, se_now = 0\<rparr>"

text \<open>
  \<open>pool.connect\<close>, then \<open>begin\<close>, the body and \<open>commit\<close> inside \<open>try\<close>; any error leads to
  \<open>rollback\<close> and is thrown again. When the connection is lost during \<open>commit\<close> the caller
  cannot know whether the server committed.
\<close>

definition pg_commit :: "'a \<Rightarrow> db \<Rightarrow> (pg, 'a) io" where
  "pg_commit x d = io_bind next_fate (\<lambda>fate.
     case fate of
       Performed \<Rightarrow> io_bind (io_modify (\<lambda>p. p\<lparr>pg_db := d\<rparr>)) (\<lambda>_. io_return x)
     | NotPerformed text \<Rightarrow> rollback_and_rethrow (Error text)
     | PerformedButLost text \<Rightarrow>
         io_bind (io_modify (\<lambda>p. p\<lparr>pg_db := d\<rparr>)) (\<lambda>_. rollback_and_rethrow (Error text)))"

definition pg_transaction :: "(session, 'a) io \<Rightarrow> (pg, 'a) io" where
  "pg_transaction body = io_bind roundtrip (\<lambda>_.
     (\<lambda>(e, p).
        case io_bind begin_transaction (\<lambda>_. body) (e, open_session p) of
          (Inr x, (e', s)) \<Rightarrow> pg_commit x (se_db s) (e', p)
        | (Inl err, (e', s)) \<Rightarrow> rollback_and_rethrow err (e', p)))"

section \<open>What a transaction guarantees\<close>

lemma roundtrip_eq:
  "roundtrip (e, s) =
     (case fates e (roundtrips e) of
        Performed \<Rightarrow> (Inr (), (e\<lparr>roundtrips := Suc (roundtrips e)\<rparr>, s))
      | NotPerformed text \<Rightarrow> (Inl (Error text), (e\<lparr>roundtrips := Suc (roundtrips e)\<rparr>, s))
      | PerformedButLost text \<Rightarrow> (Inl (Error text), (e\<lparr>roundtrips := Suc (roundtrips e)\<rparr>, s)))"
  by (simp add: roundtrip_def io_defs split: db_fate.splits)

lemma roundtrip_Inr:
  "roundtrip (e, s) = (Inr x, (e', s')) \<longleftrightarrow>
     fates e (roundtrips e) = Performed \<and> e' = e\<lparr>roundtrips := Suc (roundtrips e)\<rparr> \<and> s' = s"
  by (auto simp: roundtrip_eq split: db_fate.splits)

lemma query_Inr:
  "query rights q (e, s) = (Inr x, (e', s')) \<longleftrightarrow>
     fates e (roundtrips e) = Performed \<and> e' = e\<lparr>roundtrips := Suc (roundtrips e)\<rparr> \<and>
     list_all (granted (se_role s)) rights \<and>
     (\<exists>d. q (e\<lparr>roundtrips := Suc (roundtrips e)\<rparr>) s = Inr (x, d) \<and> s' = s\<lparr>se_db := d\<rparr>)"
  by (auto simp: query_def io_bind_def roundtrip_eq split: db_fate.splits sum.splits prod.splits)

lemma rollback_result:
  "rollback_and_rethrow err (e, s) = (r, (e', s')) \<Longrightarrow> (\<exists>err'. r = Inl err') \<and> s' = s"
  by (auto simp: rollback_and_rethrow_def io_defs roundtrip_eq split: db_fate.splits)

text \<open>
  All or nothing: either the caller sees an error and the database is as before, or the body ran to
  its end, at the instant the transaction began, and the database is the one it left. In the second
  case the caller may still see an error, when the answer to \<open>commit\<close> was lost.
\<close>

lemma pg_transaction_cases:
  assumes "pg_transaction body (e, p) = (r, (e', p'))"
  obtains (given_up) err where "r = Inl err" and "p' = p"
  | (committed) x e2 s where
      "body (e\<lparr>roundtrips := roundtrips e + 2, ticks := Suc (ticks e)\<rparr>,
         (open_session p)\<lparr>se_now := clock e (ticks e)\<rparr>) = (Inr x, (e2, s))"
      and "p' = p\<lparr>pg_db := se_db s\<rparr>" and "r = Inr x \<or> (\<exists>err. r = Inl err)"
proof -
  let ?e = "e\<lparr>roundtrips := Suc (roundtrips e)\<rparr>"
  let ?e2 = "e\<lparr>roundtrips := roundtrips e + 2, ticks := Suc (ticks e)\<rparr>"
  let ?s = "(open_session p)\<lparr>se_now := clock e (ticks e)\<rparr>"
  let ?run = "io_bind begin_transaction (\<lambda>_. body) (?e, open_session p)"
  consider (no_connection) err w where "roundtrip (e, p) = (Inl err, (w, p))"
    | (connected) "fates e (roundtrips e) = Performed"
    by (cases "fates e (roundtrips e)") (auto simp: roundtrip_eq)
  then show thesis
  proof cases
    case no_connection
    then show thesis
      using assms given_up by (auto simp: pg_transaction_def io_bind_def)
  next
    case connected
    obtain y e1 s where run: "?run = (y, (e1, s))"
      using prod_cases3 by blast
    have rest: "(r, (e', p')) = (case y of
        Inr x \<Rightarrow> pg_commit x (se_db s) (e1, p) | Inl err \<Rightarrow> rollback_and_rethrow err (e1, p))"
      using assms connected run
      by (simp add: pg_transaction_def io_bind_def [of roundtrip] roundtrip_eq split: sum.splits)
    show thesis
    proof (cases y)
      case (Inl err)
      then have "rollback_and_rethrow err (e1, p) = (r, (e', p'))"
        using rest by simp
      then show thesis
        using given_up rollback_result [of err e1 p r e' p'] by auto
    next
      case (Inr x)
      have "body (?e2, ?s) = (Inr x, (e1, s))"
        using run Inr connected
        by (auto simp: begin_transaction_def io_defs roundtrip_eq split: db_fate.splits)
      moreover have "p' = p\<lparr>pg_db := se_db s\<rparr> \<and> (r = Inr x \<or> (\<exists>err. r = Inl err)) \<or>
          p' = p \<and> (\<exists>err. r = Inl err)"
        using rest Inr
        by (auto simp: pg_commit_def rollback_and_rethrow_def io_defs roundtrip_eq
            split: db_fate.splits)
      ultimately show thesis
        using given_up committed by blast
    qed
  qed
qed

text \<open>No effect changes what the environment will answer.\<close>

definition env_keeps :: "('s, 'a) io \<Rightarrow> bool" where
  "env_keeps m \<longleftrightarrow> (\<forall>w. same_sources (fst w) (fst (snd (m w))))"

lemma env_keepsD: "env_keeps m \<Longrightarrow> m (e, s) = (r, (e', s')) \<Longrightarrow> same_sources e e'"
  unfolding env_keeps_def by (metis fst_conv snd_conv)

lemma env_keeps_at:
  "env_keeps m \<Longrightarrow> same_sources e (fst w) \<Longrightarrow> same_sources e (fst (snd (m w)))"
  unfolding env_keeps_def using same_sources_trans by blast

lemma env_keeps_basic [env_rules]:
  "env_keeps (io_return x)" "env_keeps (io_throw err)" "env_keeps (io_get f)"
  "env_keeps (io_modify g)" "env_keeps (io_env h)" "env_keeps next_clock" "env_keeps next_uuid"
  "env_keeps next_fate" "env_keeps roundtrip"
  by (auto simp: env_keeps_def io_defs roundtrip_eq split: db_fate.splits)

lemma env_keeps_bind [env_rules]:
  assumes "env_keeps m" and "\<And>x. env_keeps (f x)"
  shows "env_keeps (io_bind m f)"
  unfolding env_keeps_def
proof
  fix w :: "'a world"
  obtain r w' where m: "m w = (r, w')" by (rule prod.exhaust)
  with assms(1) have first: "same_sources (fst w) (fst w')"
    unfolding env_keeps_def by (metis snd_conv)
  show "same_sources (fst w) (fst (snd (io_bind m f w)))"
    using first m by (cases r) (simp_all add: io_bind_def env_keeps_at [OF assms(2)])
qed

lemma env_keeps_catch [env_rules]:
  assumes "env_keeps m" and "\<And>err. env_keeps (h err)"
  shows "env_keeps (io_catch m h)"
  unfolding env_keeps_def
proof
  fix w :: "'a world"
  obtain r w' where m: "m w = (r, w')" by (rule prod.exhaust)
  with assms(1) have first: "same_sources (fst w) (fst w')"
    unfolding env_keeps_def by (metis snd_conv)
  show "same_sources (fst w) (fst (snd (io_catch m h w)))"
    using first m by (cases r) (simp_all add: io_catch_def env_keeps_at [OF assms(2)])
qed

lemma env_keeps_split [env_rules]:
  "(b \<Longrightarrow> env_keeps m) \<Longrightarrow> (\<not> b \<Longrightarrow> env_keeps n) \<Longrightarrow> env_keeps (if b then m else n)"
  "env_keeps m \<Longrightarrow> (\<And>y. env_keeps (f y)) \<Longrightarrow> env_keeps (case x of None \<Rightarrow> m | Some y \<Rightarrow> f y)"
  "env_keeps m \<Longrightarrow> (\<And>y ys. env_keeps (g y ys)) \<Longrightarrow>
     env_keeps (case xs of [] \<Rightarrow> m | y # ys \<Rightarrow> g y ys)"
  "(\<And>y. env_keeps (f y)) \<Longrightarrow> (\<And>y. env_keeps (h y)) \<Longrightarrow>
     env_keeps (case z of Inl y \<Rightarrow> f y | Inr y \<Rightarrow> h y)"
  "(\<And>a b. env_keeps (k a b)) \<Longrightarrow> env_keeps (case ab of (a, b) \<Rightarrow> k a b)"
  "(\<And>a. env_keeps (f a)) \<Longrightarrow> env_keeps (Let c f)"
  by (auto split: option.splits list.splits sum.splits prod.splits simp: Let_def)

lemma env_keeps_query [env_rules]: "env_keeps (query rights q)"
  unfolding query_def
  by (intro env_rules) (auto simp: env_keeps_def split: prod.splits sum.splits)

lemma env_keeps_rollback [env_rules]: "env_keeps (rollback_and_rethrow err)"
  unfolding rollback_and_rethrow_def by (intro env_rules)

lemma env_keeps_commit: "env_keeps (pg_commit x d)"
  unfolding pg_commit_def
  by (intro env_rules) (auto split: db_fate.splits intro: env_rules)

lemma env_keeps_transaction [env_rules]:
  assumes "env_keeps body"
  shows "env_keeps (pg_transaction body)"
proof -
  have start: "env_keeps (io_bind begin_transaction (\<lambda>_. body))"
    unfolding begin_transaction_def by (intro env_rules assms)
  have "same_sources e (fst (snd (
      case io_bind begin_transaction (\<lambda>_. body) (e, open_session p) of
          (Inr x, (e', s)) \<Rightarrow> pg_commit x (se_db s) (e', p)
        | (Inl err, (e', s)) \<Rightarrow> rollback_and_rethrow err (e', p))))" for e p
  proof -
    obtain y e1 s where run: "io_bind begin_transaction (\<lambda>_. body) (e, open_session p) = (y, (e1, s))"
      using prod_cases3 by blast
    note first = env_keepsD [OF start run]
    show ?thesis
      using run first
      by (cases y) (simp_all add: env_keeps_at env_keeps_commit env_keeps_rollback)
  qed
  then show ?thesis
    unfolding pg_transaction_def by (intro env_rules) (auto simp: env_keeps_def)
qed

end
