(* ===== verification/PostgresStore.thy ===== *)
theory PostgresStore
  imports Database
begin

text \<open>
  The PostgreSQL store (\<open>services/control-plane/src/postgres-store.ts\<close>): every statement it
  sends, over the schema of \<open>Database\<close>, and every method, composed of them in the order of the
  source. A statement parameter that the schema types as \<open>uuid\<close> is converted first and the
  statement fails when the text is none. A default \<open>gen_random_uuid()\<close> is drawn before the
  statement that uses it. A \<open>jsonb\<close> value is the JSON value written; the order in which the
  server keeps the members of an object is not modelled. Failures the statements do not spell out
  (a NUL character in a text, an integer out of range, a lost connection) are failed round trips.
\<close>

section \<open>Statements\<close>

definition rls_check :: "env \<Rightarrow> session \<Rightarrow> uuid \<Rightarrow> db_error + 'a \<Rightarrow> db_error + 'a" where
  "rls_check e s t k =
     (if visible e s t then k
      else Inl (PermissionDenied ''new row violates row-level security policy''))"

definition ensure :: "bool \<Rightarrow> db_error \<Rightarrow> db_error + 'a \<Rightarrow> db_error + 'a" where
  "ensure b err k = (if b then k else Inl err)"

definition set_tenant :: "string \<Rightarrow> (session, unit) io" where
  "set_tenant t = io_bind roundtrip (\<lambda>_. io_modify (\<lambda>s. s\<lparr>se_tenant := Some t\<rparr>))"

definition tenant_exists :: "db \<Rightarrow> uuid \<Rightarrow> bool" where
  "tenant_exists d t \<longleftrightarrow> t \<in> set (map tn_id (db_tenants d))"

subsection \<open>Provisioning\<close>

definition slug_pattern :: "string \<Rightarrow> bool" where
  "slug_pattern s \<longleftrightarrow> 3 \<le> length s \<and> length s \<le> 80 \<and> list_all lower_alnum_dash s"

definition upsert_tenant :: "uuid \<Rightarrow> string \<Rightarrow> uuid statement" where
  "upsert_tenant fresh slug e s =
     (let d = se_db s in
      ensure (slug_pattern slug) (CheckViolation ''tenants_slug_check'')
        (case find (\<lambda>t. tn_slug t = slug) (db_tenants d) of
           Some t \<Rightarrow> Inr (tn_id t, d)
         | None \<Rightarrow>
             ensure (\<not> tenant_exists d fresh) (UniqueViolation ''tenants_pkey'')
               (Inr (fresh, d\<lparr>db_tenants := db_tenants d @ [\<lparr>tn_id = fresh, tn_slug = slug\<rparr>]\<rparr>))))"

definition insert_limits :: "string \<Rightarrow> unit statement" where
  "insert_limits tenant e s = as_uuid e tenant (\<lambda>t.
     (let d = se_db s in
      rls_check e s t
        (if t \<in> set (map lm_tenant_id (db_limits d)) then Inr ((), d)
         else ensure (tenant_exists d t) (ForeignKeyViolation ''tenant_runtime_limits_tenant_id_fkey'')
           (Inr ((), d\<lparr>db_limits := db_limits d @
              [\<lparr>lm_tenant_id = t, lm_max_active_runs = 100, lm_max_runs_per_day = 1000\<rparr>]\<rparr>)))))"

definition upsert_principal :: "uuid \<Rightarrow> string \<Rightarrow> string \<Rightarrow> role \<Rightarrow> uuid statement" where
  "upsert_principal fresh tenant subject role e s = as_uuid e tenant (\<lambda>t.
     (let d = se_db s; same = (\<lambda>p. pn_tenant_id p = t \<and> pn_subject p = subject) in
      case find same (db_principals d) of
        Some p \<Rightarrow> Inr (pn_id p, d\<lparr>db_principals :=
          map (\<lambda>q. if same q then q\<lparr>pn_role := role\<rparr> else q) (db_principals d)\<rparr>)
      | None \<Rightarrow>
          ensure (fresh \<notin> set (map pn_id (db_principals d))) (UniqueViolation ''principals_pkey'')
          (ensure (tenant_exists d t) (ForeignKeyViolation ''principals_tenant_id_fkey'')
            (Inr (fresh, d\<lparr>db_principals := db_principals d @
               [\<lparr>pn_id = fresh, pn_tenant_id = t, pn_subject = subject, pn_role = role\<rparr>]\<rparr>)))))"

definition upsert_api_key :: "string \<Rightarrow> string \<Rightarrow> string \<Rightarrow> unit statement" where
  "upsert_api_key tenant principal_id hash e s = as_uuid e tenant (\<lambda>t. as_uuid e principal_id (\<lambda>p.
     (let d = se_db s; same = (\<lambda>k. ak_key_hash k = hash) in
      if find same (db_api_keys d) \<noteq> None
      then Inr ((), d\<lparr>db_api_keys :=
             map (\<lambda>k. if same k then k\<lparr>ak_revoked_at := None\<rparr> else k) (db_api_keys d)\<rparr>)
      else
        ensure (tenant_exists d t) (ForeignKeyViolation ''api_keys_tenant_id_fkey'')
        (ensure (p \<in> set (map pn_id (db_principals d)))
            (ForeignKeyViolation ''api_keys_principal_id_fkey'')
          (Inr ((), d\<lparr>db_api_keys := db_api_keys d @
             [\<lparr>ak_tenant_id = t, ak_principal_id = p, ak_key_hash = hash,
               ak_revoked_at = None\<rparr>]\<rparr>))))))"

definition select_credentials ::
  "string \<Rightarrow> (uuid \<times> role \<times> string \<times> string) list statement" where
  "select_credentials slug e s =
     (let d = se_db s in
      Inr ([(pn_tenant_id p, pn_role p, pn_subject p, ak_key_hash k).
              k \<leftarrow> db_api_keys d, ak_revoked_at k = None,
              p \<leftarrow> db_principals d, pn_id p = ak_principal_id k,
              t \<leftarrow> db_tenants d, tn_id t = pn_tenant_id p \<and> tn_slug t = slug], d))"

subsection \<open>Workflows and audit\<close>

definition insert_workflow ::
  "uuid \<Rightarrow> string \<Rightarrow> workflow_definition \<Rightarrow> workflow_row statement" where
  "insert_workflow fresh tenant definition e s = as_uuid e tenant (\<lambda>t.
     (let d = se_db s;
          row = \<lparr>wr_id = fresh, wr_tenant_id = t, wr_name = wf_name definition,
                 wr_version = wf_version definition, wr_definition = definition_json definition,
                 wr_budget_cents = wf_budgetCents definition, wr_created_at = se_now s\<rparr> in
      rls_check e s t
      (ensure (version_pattern (wr_version row)) (CheckViolation ''workflow_definitions_version_check'')
      (ensure (0 \<le> wr_budget_cents row) (CheckViolation ''workflow_definitions_budget_cents_check'')
      (ensure (fresh \<notin> set (map wr_id (db_workflows d))) (UniqueViolation ''workflow_definitions_pkey'')
      (ensure (\<forall>w \<in> set (db_workflows d). (wr_tenant_id w, wr_name w, wr_version w)
                 \<noteq> (t, wr_name row, wr_version row))
          (UniqueViolation ''workflow_definitions_tenant_id_name_version_key'')
      (ensure (tenant_exists d t) (ForeignKeyViolation ''workflow_definitions_tenant_id_fkey'')
        (Inr (row, d\<lparr>db_workflows := db_workflows d @ [row]\<rparr>)))))))))"

definition select_workflows :: "string \<Rightarrow> string \<Rightarrow> workflow_row list statement" where
  "select_workflows workflowId tenant e s =
     as_uuid e workflowId (\<lambda>i. as_uuid e tenant (\<lambda>t.
       Inr (filter (\<lambda>w. visible e s (wr_tenant_id w) \<and> wr_id w = i \<and> wr_tenant_id w = t)
              (db_workflows (se_db s)), se_db s)))"

definition select_principal_ids :: "string \<Rightarrow> string \<Rightarrow> uuid list statement" where
  "select_principal_ids tenant subject e s = as_uuid e tenant (\<lambda>t.
     Inr (map pn_id (filter (\<lambda>p. pn_tenant_id p = t \<and> pn_subject p = subject)
            (db_principals (se_db s))), se_db s))"

definition insert_audit :: "string \<Rightarrow> uuid option \<Rightarrow> string \<Rightarrow> string \<Rightarrow> unit statement" where
  "insert_audit tenant principal_id action resourceId e s =
     as_uuid e tenant (\<lambda>t. as_uuid e resourceId (\<lambda>r.
       (let d = se_db s in
        rls_check e s t
        (ensure (tenant_exists d t) (ForeignKeyViolation ''audit_records_tenant_id_fkey'')
        (ensure (case principal_id of None \<Rightarrow> True | Some p \<Rightarrow> p \<in> set (map pn_id (db_principals d)))
            (ForeignKeyViolation ''audit_records_principal_id_fkey'')
          (Inr ((), d\<lparr>db_audits := db_audits d @
             [\<lparr>ar_tenant_id = t, ar_principal_id = principal_id, ar_action = action,
               ar_resource_id = Some r, ar_created_at = se_now s\<rparr>]\<rparr>)))))))"

definition select_audits ::
  "string \<Rightarrow> (timestamp \<times> uuid \<times> string option \<times> string \<times> uuid option) list statement" where
  "select_audits tenant e s = as_uuid e tenant (\<lambda>t.
     (let d = se_db s in
      Inr (map (\<lambda>a. (ar_created_at a, ar_tenant_id a,
                  (case ar_principal_id a of
                     None \<Rightarrow> None
                   | Some p \<Rightarrow> map_option pn_subject (find (\<lambda>q. pn_id q = p) (db_principals d))),
                  ar_action a, ar_resource_id a))
             (filter (\<lambda>a. visible e s (ar_tenant_id a) \<and> ar_tenant_id a = t) (db_audits d)), d)))"

subsection \<open>Runs\<close>

definition select_runs_by_key :: "string \<Rightarrow> string \<Rightarrow> run_row list statement" where
  "select_runs_by_key tenant key e s = as_uuid e tenant (\<lambda>t.
     Inr (filter (\<lambda>r. visible e s (rw_tenant_id r) \<and> rw_tenant_id r = t \<and>
                      rw_idempotency_key r = key) (db_runs (se_db s)), se_db s))"

definition select_runs_by_id :: "string \<Rightarrow> string \<Rightarrow> run_row list statement" where
  "select_runs_by_id runId tenant e s = as_uuid e runId (\<lambda>i. as_uuid e tenant (\<lambda>t.
     Inr (filter (\<lambda>r. visible e s (rw_tenant_id r) \<and> rw_id r = i \<and> rw_tenant_id r = t)
            (db_runs (se_db s)), se_db s)))"

definition select_limits :: "string \<Rightarrow> limits_row list statement" where
  "select_limits tenant e s = as_uuid e tenant (\<lambda>t.
     Inr (filter (\<lambda>l. visible e s (lm_tenant_id l) \<and> lm_tenant_id l = t)
            (db_limits (se_db s)), se_db s))"

text \<open>\<open>date_trunc('day', now() at time zone 'utc')\<close>.\<close>

definition day_start :: "timestamp \<Rightarrow> timestamp" where
  "day_start now = now div 86400000 * 86400000"

definition active_states :: "run_state list" where
  "active_states = [Queued, Leased, Running, Awaiting_approval]"

definition select_usage :: "string \<Rightarrow> (nat \<times> nat) statement" where
  "select_usage tenant e s = as_uuid e tenant (\<lambda>t.
     (let rows = filter (\<lambda>r. visible e s (rw_tenant_id r) \<and> rw_tenant_id r = t) (db_runs (se_db s)) in
      Inr ((length (filter (\<lambda>r. rw_state r \<in> set active_states) rows),
            length (filter (\<lambda>r. day_start (se_now s) \<le> rw_created_at r) rows)), se_db s)))"

definition optional_uuid ::
  "env \<Rightarrow> string option \<Rightarrow> (uuid option \<Rightarrow> db_error + 'a) \<Rightarrow> db_error + 'a" where
  "optional_uuid e text k =
     (case text of None \<Rightarrow> k None | Some x \<Rightarrow> as_uuid e x (\<lambda>u. k (Some u)))"

definition new_run_row ::
  "uuid \<Rightarrow> uuid \<Rightarrow> uuid \<Rightarrow> string \<Rightarrow> (string \<times> json) list \<Rightarrow> int \<Rightarrow> uuid option \<Rightarrow> timestamp \<Rightarrow> run_row" where
  "new_run_row fresh t w key input budget handle now =
     \<lparr>rw_id = fresh, rw_tenant_id = t, rw_workflow_id = w, rw_idempotency_key = key,
      rw_state = Queued, rw_input = input, rw_budget_cents = budget, rw_created_at = now,
      rw_updated_at = now, rw_current_step = 0, rw_lease_owner = None, rw_lease_expires_at = None,
      rw_attempt_count = 0, rw_last_error_code = None, rw_provider_credential_handle = handle\<rparr>"

definition insert_run ::
  "uuid \<Rightarrow> string \<Rightarrow> string \<Rightarrow> string \<Rightarrow> (string \<times> json) list \<Rightarrow> int \<Rightarrow> string option \<Rightarrow>
   run_row option statement" where
  "insert_run fresh tenant workflowId key input budget handle e s =
     as_uuid e tenant (\<lambda>t. as_uuid e workflowId (\<lambda>w. optional_uuid e handle (\<lambda>h.
       (let d = se_db s; row = new_run_row fresh t w key input budget h (se_now s) in
        rls_check e s t
        (ensure (16 \<le> length key \<and> length key \<le> 128)
            (CheckViolation ''workflow_runs_idempotency_key_check'')
        (ensure (0 \<le> budget) (CheckViolation ''workflow_runs_budget_cents_check'')
        (if (t, key) \<in> set (map (\<lambda>r. (rw_tenant_id r, rw_idempotency_key r)) (db_runs d))
         then Inr (None, d)
         else
          ensure (fresh \<notin> set (map rw_id (db_runs d))) (UniqueViolation ''workflow_runs_pkey'')
          (ensure (h = None \<or> h \<notin> set (map rw_provider_credential_handle (db_runs d)))
              (UniqueViolation ''workflow_runs_provider_credential_handle_idx'')
          (ensure (tenant_exists d t) (ForeignKeyViolation ''workflow_runs_tenant_id_fkey'')
          (ensure (w \<in> set (map wr_id (db_workflows d)))
              (ForeignKeyViolation ''workflow_runs_workflow_id_fkey'')
            (Inr (Some row, d\<lparr>db_runs := db_runs d @ [row]\<rparr>))))))))))))"

definition update_runs :: "(run_row \<Rightarrow> bool) \<Rightarrow> (run_row \<Rightarrow> run_row) \<Rightarrow> db \<Rightarrow> db" where
  "update_runs P f d = d\<lparr>db_runs := map (\<lambda>r. if P r then f r else r) (db_runs d)\<rparr>"

definition update_run_state :: "run_state \<Rightarrow> nat \<Rightarrow> string \<Rightarrow> unit statement" where
  "update_run_state state steps runId e s = as_uuid e runId (\<lambda>i.
     Inr ((), update_runs (\<lambda>r. visible e s (rw_tenant_id r) \<and> rw_id r = i)
       (\<lambda>r. r\<lparr>rw_state := state, rw_current_step := rw_current_step r + steps,
              rw_updated_at := se_now s\<rparr>) (se_db s)))"

definition insert_event ::
  "string \<Rightarrow> string \<Rightarrow> event_type \<Rightarrow> string \<Rightarrow> string option \<Rightarrow> unit statement" where
  "insert_event tenant runId type detail trace e s =
     as_uuid e tenant (\<lambda>t. as_uuid e runId (\<lambda>i.
       (let d = se_db s in
        rls_check e s t
        (ensure (length detail \<le> 500) (CheckViolation ''run_events_detail_check'')
        (ensure (tenant_exists d t) (ForeignKeyViolation ''run_events_tenant_id_fkey'')
        (ensure (i \<in> set (map rw_id (db_runs d))) (ForeignKeyViolation ''run_events_run_id_fkey'')
          (Inr ((), d\<lparr>db_events := db_events d @
             [\<lparr>er_tenant_id = t, er_run_id = i, er_event_type = type, er_detail = detail,
               er_trace_id = trace, er_created_at = se_now s\<rparr>]\<rparr>))))))))"

definition select_events :: "string \<Rightarrow> string \<Rightarrow> event_row list statement" where
  "select_events tenant runId e s = as_uuid e tenant (\<lambda>t. as_uuid e runId (\<lambda>i.
     Inr (filter (\<lambda>x. visible e s (er_tenant_id x) \<and> er_tenant_id x = t \<and> er_run_id x = i)
            (db_events (se_db s)), se_db s)))"

text \<open>The function \<open>queue_run_outbox\<close>, which runs with the rights of its owner.\<close>

definition queue_run_outbox :: "string \<Rightarrow> string \<Rightarrow> unit statement" where
  "queue_run_outbox tenant runId e s = as_uuid e tenant (\<lambda>t. as_uuid e runId (\<lambda>i.
     (let d = se_db s;
          context_tenant = (case se_tenant s of
              None \<Rightarrow> None
            | Some text \<Rightarrow> if text = [] then None else parse_uuid e text) in
      ensure (Some t = context_tenant) (Raised ''tenant context does not match queued run'')
      (ensure (\<exists>r \<in> set (db_runs d). rw_id r = i \<and> rw_tenant_id r = t \<and> rw_state r = Queued)
          (Raised ''queued run does not exist for tenant'')
        (Inr ((), d\<lparr>db_outbox := db_outbox d @
             [\<lparr>ob_id = db_outbox_seq d, ob_tenant_id = t, ob_run_id = i,
               ob_subject = ''dar.run.queued'', ob_payload = [(''runId'', JStr i)],
               ob_published_at = None, ob_attempts = 0\<rparr>],
             db_outbox_seq := Suc (db_outbox_seq d)\<rparr>))))))"

subsection \<open>The system paths\<close>

definition select_pending :: "nat \<Rightarrow> outbox_row list statement" where
  "select_pending limit e s =
     Inr (take limit (filter (\<lambda>o'. visible e s (ob_tenant_id o') \<and> ob_published_at o' = None)
            (db_outbox (se_db s))), se_db s)"

definition update_outbox :: "(outbox_row \<Rightarrow> bool) \<Rightarrow> (outbox_row \<Rightarrow> outbox_row) \<Rightarrow> db \<Rightarrow> db" where
  "update_outbox P f d = d\<lparr>db_outbox := map (\<lambda>x. if P x then f x else x) (db_outbox d)\<rparr>"

definition count_attempts :: "nat list \<Rightarrow> unit statement" where
  "count_attempts ids e s =
     Inr ((), update_outbox (\<lambda>x. visible e s (ob_tenant_id x) \<and> ob_id x \<in> set ids)
       (\<lambda>x. x\<lparr>ob_attempts := Suc (ob_attempts x)\<rparr>) (se_db s))"

definition mark_published :: "nat list \<Rightarrow> unit statement" where
  "mark_published ids e s =
     Inr ((), update_outbox (\<lambda>x. visible e s (ob_tenant_id x) \<and> ob_id x \<in> set ids)
       (\<lambda>x. x\<lparr>ob_published_at := Some (se_now s)\<rparr>) (se_db s))"

definition count_pending :: "nat statement" where
  "count_pending e s =
     Inr (length (filter (\<lambda>x. visible e s (ob_tenant_id x) \<and> ob_published_at x = None)
            (db_outbox (se_db s))), se_db s)"

definition claimable :: "timestamp \<Rightarrow> run_row \<Rightarrow> bool" where
  "claimable now r \<longleftrightarrow>
     rw_state r = Queued \<or>
     (rw_state r \<in> set [Leased, Running] \<and>
      (case rw_lease_expires_at r of None \<Rightarrow> False | Some x \<Rightarrow> x < now))"

definition select_claimable :: "string \<Rightarrow> run_row list statement" where
  "select_claimable runId e s = as_uuid e runId (\<lambda>i.
     Inr (filter (\<lambda>r. visible e s (rw_tenant_id r) \<and> rw_id r = i \<and> claimable (se_now s) r)
            (db_runs (se_db s)), se_db s))"

definition take_lease :: "string \<Rightarrow> nat \<Rightarrow> string \<Rightarrow> timestamp list statement" where
  "take_lease workerId ttlSeconds runId e s = as_uuid e runId (\<lambda>i.
     (let P = (\<lambda>r. visible e s (rw_tenant_id r) \<and> rw_id r = i);
          expires = se_now s + 1000 * ttlSeconds in
      Inr (map (\<lambda>_. expires) (filter P (db_runs (se_db s))),
           update_runs P (\<lambda>r. r\<lparr>rw_state := Leased, rw_lease_owner := Some workerId,
             rw_lease_expires_at := Some expires, rw_updated_at := se_now s\<rparr>) (se_db s))))"

section \<open>Rows as the interface shows them\<close>

definition equalHash :: "string \<Rightarrow> string \<Rightarrow> bool" where
  "equalHash left right =
     (let a = utf8 left; b = utf8 right in length a = length b \<and> timingSafeEqual a b)"

definition toEvent :: "event_row \<Rightarrow> run_event" where
  "toEvent row =
     \<lparr>ev_at = er_created_at row, ev_type = er_event_type row, ev_detail = er_detail row,
      ev_traceId = (if truthy (er_trace_id row) then er_trace_id row else None)\<rparr>"

definition zod_throw :: "('s, 'a) io" where
  "zod_throw = io_bind (io_env zod_message) (\<lambda>text. io_throw (Error text))"

definition toRun :: "run_row \<Rightarrow> run_event list \<Rightarrow> ('s, stored_run) io" where
  "toRun row events =
     (case runStateSchema (run_state_name (rw_state row)) of
        None \<Rightarrow> zod_throw
      | Some state \<Rightarrow> io_return
          \<lparr>run_id = rw_id row, run_tenantId = rw_tenant_id row, run_workflowId = rw_workflow_id row,
           run_state = state, run_input = rw_input row, run_budgetCents = rw_budget_cents row,
           run_idempotencyKey = rw_idempotency_key row, run_createdAt = rw_created_at row,
           run_events = events\<rparr>)"

section \<open>The methods\<close>

text \<open>One statement on the pool, in a transaction of its own.\<close>

definition pool_query :: "(sql_right \<times> sql_table) list \<Rightarrow> 'a statement \<Rightarrow> (pg, 'a) io" where
  "pool_query rights q =
     io_bind next_fate (\<lambda>fate. io_bind next_clock (\<lambda>now.
     (\<lambda>(e, p).
        let s = (open_session p)\<lparr>se_now := now\<rparr> in
        case fate of
          NotPerformed text \<Rightarrow> (Inl (Error text), (e, p))
        | Performed \<Rightarrow>
            (if list_all (granted (se_role s)) rights
             then (case q e s of
                     Inl err \<Rightarrow> (Inl (Error (db_message e err)), (e, p))
                   | Inr (x, d) \<Rightarrow> (Inr x, (e, p\<lparr>pg_db := d\<rparr>)))
             else (Inl (Error (db_message e (PermissionDenied ''permission denied''))), (e, p)))
        | PerformedButLost text \<Rightarrow>
            (if list_all (granted (se_role s)) rights
             then (case q e s of
                     Inl err \<Rightarrow> (Inl (Error text), (e, p))
                   | Inr (x, d) \<Rightarrow> (Inl (Error text), (e, p\<lparr>pg_db := d\<rparr>)))
             else (Inl (Error text), (e, p))))))"

definition withTenant :: "string \<Rightarrow> (session, 'a) io \<Rightarrow> (pg, 'a) io" where
  "withTenant tenantId operation =
     pg_transaction (io_bind (set_tenant tenantId) (\<lambda>_. operation))"

definition pg_ready :: "(pg, unit) io" where
  "pg_ready = pool_query [] (\<lambda>e s. Inr ((), se_db s))"

record pg_seed =
  ps_tenantSlug :: string
  ps_apiKey :: string
  ps_role :: "role option"
  ps_subject :: "string option"

definition bootstrap :: "pg_seed \<Rightarrow> (pg, unit) io" where
  "bootstrap seed = pg_transaction (
     io_bind next_uuid (\<lambda>i.
     io_bind (query [(Insert, T_tenants), (Update, T_tenants), (Select, T_tenants)]
                (upsert_tenant i (ps_tenantSlug seed))) (\<lambda>tenantId.
     io_bind (set_tenant tenantId) (\<lambda>_.
     io_bind (query [(Insert, T_limits)] (insert_limits tenantId)) (\<lambda>_.
     io_bind next_uuid (\<lambda>j.
     io_bind (query [(Insert, T_principals), (Update, T_principals), (Select, T_principals)]
                (upsert_principal j tenantId
                   (case ps_subject seed of None \<Rightarrow> ''bootstrap-owner'' | Some x \<Rightarrow> x)
                   (case ps_role seed of None \<Rightarrow> Owner | Some r \<Rightarrow> r))) (\<lambda>principalId.
     io_bind (hashApiKey (ps_apiKey seed)) (\<lambda>hash.
     query [(Insert, T_api_keys), (Update, T_api_keys)]
       (upsert_api_key tenantId principalId hash)))))))))"

definition pg_authenticate :: "string \<Rightarrow> string option \<Rightarrow> (pg, principal option) io" where
  "pg_authenticate tenantSlug apiKey =
     (if \<not> truthy apiKey then io_return None
      else
        io_bind (pool_query [(Select, T_api_keys), (Select, T_principals), (Select, T_tenants)]
                   (select_credentials tenantSlug)) (\<lambda>rows.
        io_bind (hashApiKey (the apiKey)) (\<lambda>hash.
        io_return
          (case find (\<lambda>(t, r, sub, h). equalHash h hash) rows of
             None \<Rightarrow> None
           | Some (t, r, sub, h) \<Rightarrow> Some \<lparr>pr_tenantId = t, pr_role = r, pr_subject = sub\<rparr>))))"

definition readRunInTransaction :: "string \<Rightarrow> run_row \<Rightarrow> (session, stored_run) io" where
  "readRunInTransaction tenantId row =
     io_bind (query [(Select, T_events)] (select_events tenantId (rw_id row))) (\<lambda>events.
     toRun row (map toEvent events))"

definition pg_audit :: "principal \<Rightarrow> string \<Rightarrow> string \<Rightarrow> (session, unit) io" where
  "pg_audit p action resourceId =
     io_bind (query [(Select, T_principals)]
                (select_principal_ids (pr_tenantId p) (pr_subject p))) (\<lambda>ids.
     query [(Insert, T_audits)]
       (insert_audit (pr_tenantId p) (case ids of [] \<Rightarrow> None | i # _ \<Rightarrow> Some i) action resourceId))"

definition pg_createWorkflow :: "principal \<Rightarrow> workflow_definition \<Rightarrow> (pg, stored_workflow) io" where
  "pg_createWorkflow p definition = withTenant (pr_tenantId p) (
     io_bind next_uuid (\<lambda>i.
     io_bind (query [(Insert, T_workflows), (Select, T_workflows)]
                (insert_workflow i (pr_tenantId p) definition)) (\<lambda>row.
     io_bind (pg_audit p ''workflow.created'' (wr_id row)) (\<lambda>_.
     io_return \<lparr>sw_id = wr_id row, sw_tenantId = wr_tenant_id row, sw_definition = definition,
                sw_createdAt = wr_created_at row\<rparr>))))"

text \<open>\<open>row!.id\<close> on an absent row, in \<open>readRunInTransaction\<close>.\<close>

definition read_first :: "string \<Rightarrow> run_row list \<Rightarrow> (session, stored_run) io" where
  "read_first tenantId rows =
     (case rows of
        [] \<Rightarrow> io_throw (Error ''Cannot read properties of undefined (reading 'id')'')
      | row # _ \<Rightarrow> readRunInTransaction tenantId row)"

definition record_new_run :: "principal \<Rightarrow> run_row \<Rightarrow> (session, stored_run \<times> bool) io" where
  "record_new_run p row =
     io_bind (query [(Insert, T_events)]
                (insert_event (pr_tenantId p) (rw_id row) Ev_created ''Run queued'' None)) (\<lambda>_.
     io_bind (query [(Queue_function, T_outbox)]
                (queue_run_outbox (pr_tenantId p) (rw_id row))) (\<lambda>_.
     io_bind (pg_audit p ''run.created'' (rw_id row)) (\<lambda>_.
     io_bind (readRunInTransaction (pr_tenantId p) row) (\<lambda>run.
     io_return (run, False)))))"

definition insert_new_run ::
  "principal \<Rightarrow> run_request \<Rightarrow> string \<Rightarrow> (session, stored_run \<times> bool) io" where
  "insert_new_run p request key =
     io_bind (query [(Select, T_workflows)]
                (select_workflows (rr_workflowId request) (pr_tenantId p))) (\<lambda>workflows.
     case workflows of
       [] \<Rightarrow> io_throw (Error ''Workflow not found'')
     | workflow # _ \<Rightarrow>
         io_bind next_uuid (\<lambda>i.
         io_bind (query [(Insert, T_runs), (Select, T_runs)]
                    (insert_run i (pr_tenantId p) (rr_workflowId request) key (rr_input request)
                       (wr_budget_cents workflow) (rr_providerCredentialHandle request))) (\<lambda>inserted.
         case inserted of
           None \<Rightarrow>
             io_bind (query [(Select, T_runs)] (select_runs_by_key (pr_tenantId p) key)) (\<lambda>raced.
             io_bind (read_first (pr_tenantId p) raced) (\<lambda>run. io_return (run, True)))
         | Some row \<Rightarrow> record_new_run p row)))"

definition createRun_body ::
  "principal \<Rightarrow> run_request \<Rightarrow> string \<Rightarrow> (session, stored_run \<times> bool) io" where
  "createRun_body p request key =
     io_bind (query [(Select, T_runs)] (select_runs_by_key (pr_tenantId p) key)) (\<lambda>existing.
     if existing \<noteq> []
     then io_bind (read_first (pr_tenantId p) existing) (\<lambda>run. io_return (run, True))
     else
       io_bind (query [(Select, T_limits), (Update, T_limits)]
                  (select_limits (pr_tenantId p))) (\<lambda>limits.
       case limits of
         [] \<Rightarrow> io_throw (Error ''Tenant runtime limits missing'')
       | limit # _ \<Rightarrow>
           io_bind (query [(Select, T_runs)] (select_usage (pr_tenantId p))) (\<lambda>usage.
           if lm_max_active_runs limit \<le> fst usage
           then io_throw (Error ''Active run quota exceeded'')
           else if lm_max_runs_per_day limit \<le> snd usage
           then io_throw (Error ''Daily run quota exceeded'')
           else insert_new_run p request key)))"

definition pg_createRun ::
  "principal \<Rightarrow> run_request \<Rightarrow> string \<Rightarrow> (pg, stored_run \<times> bool) io" where
  "pg_createRun p request key = withTenant (pr_tenantId p) (createRun_body p request key)"

definition pg_readRun :: "principal \<Rightarrow> string \<Rightarrow> (pg, stored_run option) io" where
  "pg_readRun p runId = withTenant (pr_tenantId p) (
     io_bind (query [(Select, T_runs)] (select_runs_by_id runId (pr_tenantId p))) (\<lambda>rows.
     case rows of
       [] \<Rightarrow> io_return None
     | row # _ \<Rightarrow> io_bind (readRunInTransaction (pr_tenantId p) row) (\<lambda>run. io_return (Some run))))"

definition transition_body ::
  "principal \<Rightarrow> string \<Rightarrow> run_state \<Rightarrow> run_event \<Rightarrow> (session, stored_run) io" where
  "transition_body p runId state event =
     io_bind (query [(Select, T_runs), (Update_run_state, T_runs)]
                (select_runs_by_id runId (pr_tenantId p))) (\<lambda>locked.
     case locked of
       [] \<Rightarrow> io_throw (Error ''Run not found'')
     | current # _ \<Rightarrow>
         (case runStateSchema (run_state_name (rw_state current)) of
            None \<Rightarrow> zod_throw
          | Some before \<Rightarrow>
              (case assertTransition before state of
                 Inl err \<Rightarrow> io_throw err
               | Inr _ \<Rightarrow>
                   (let approving = (state = Queued \<and> ev_type event = Ev_approved) in
                    io_bind (query [(Update_run_state, T_runs), (Select, T_runs)]
                               (update_run_state state (if approving then 1 else 0) runId)) (\<lambda>_.
                    io_bind (query [(Insert, T_events)]
                               (insert_event (pr_tenantId p) runId (ev_type event)
                                  (ev_detail event) (ev_traceId event))) (\<lambda>_.
                    io_bind (if approving
                             then query [(Queue_function, T_outbox)]
                                    (queue_run_outbox (pr_tenantId p) runId)
                             else io_return ()) (\<lambda>_.
                    io_bind (pg_audit p (''run.'' @ event_type_name (ev_type event)) runId) (\<lambda>_.
                    readRunInTransaction (pr_tenantId p) (current\<lparr>rw_state := state\<rparr>)))))))))"

definition pg_transition ::
  "principal \<Rightarrow> string \<Rightarrow> run_state \<Rightarrow> run_event \<Rightarrow> (pg, stored_run) io" where
  "pg_transition p runId state event =
     withTenant (pr_tenantId p) (transition_body p runId state event)"

definition pg_listAudit :: "principal \<Rightarrow> (pg, audit_record list) io" where
  "pg_listAudit p = withTenant (pr_tenantId p) (
     io_bind (query [(Select, T_audits), (Select, T_principals)]
                (select_audits (pr_tenantId p))) (\<lambda>records.
     io_return (map (\<lambda>(created, t, subject, action, resource).
       \<lparr>au_at = created, au_tenantId = t,
        au_subject = (case subject of None \<Rightarrow> ''system'' | Some x \<Rightarrow> x), au_action = action,
        au_resourceId = (case resource of None \<Rightarrow> [] | Some r \<Rightarrow> r)\<rparr>) records)))"

definition PostgresDurableStore :: "pg runtime_store" where
  "PostgresDurableStore =
     \<lparr>rs_ready = pg_ready, rs_authenticate = pg_authenticate,
      rs_createWorkflow = pg_createWorkflow, rs_createRun = pg_createRun,
      rs_readRun = pg_readRun, rs_transition = pg_transition, rs_listAudit = pg_listAudit\<rparr>"

subsection \<open>Outbox and leases\<close>

record outbox_message =
  om_id :: nat
  om_tenantId :: uuid
  om_subject :: string
  om_payload :: "(string \<times> json) list"

definition to_message :: "outbox_row \<Rightarrow> outbox_message" where
  "to_message row =
     \<lparr>om_id = ob_id row, om_tenantId = ob_tenant_id row, om_subject = ob_subject row,
      om_payload = ob_payload row\<rparr>"

definition claimPendingOutbox :: "nat \<Rightarrow> (pg, outbox_message list) io" where
  "claimPendingOutbox limit = pg_transaction (
     io_bind (query [(Select, T_outbox), (Update, T_outbox)] (select_pending limit)) (\<lambda>rows.
     io_bind (if rows \<noteq> []
              then query [(Update, T_outbox), (Select, T_outbox)] (count_attempts (map ob_id rows))
              else io_return ()) (\<lambda>_.
     io_return (map to_message rows))))"

definition markOutboxPublished :: "nat list \<Rightarrow> (pg, unit) io" where
  "markOutboxPublished ids =
     (if ids = [] then io_return ()
      else pool_query [(Update, T_outbox), (Select, T_outbox)] (mark_published ids))"

definition outboxBacklog :: "(pg, nat) io" where
  "outboxBacklog = pool_query [(Select, T_outbox)] count_pending"

definition readRunSystem :: "run_row \<Rightarrow> (pg, stored_run) io" where
  "readRunSystem row =
     io_bind (pool_query [(Select, T_events)]
                (select_events (rw_tenant_id row) (rw_id row))) (\<lambda>events.
     toRun row (map toEvent events))"

record worker_lease =
  wl_run :: stored_run
  wl_definition :: workflow_definition
  wl_currentStep :: nat
  wl_leaseOwner :: string
  wl_leaseExpiresAt :: timestamp

definition lease_body ::
  "string \<Rightarrow> string \<Rightarrow> nat \<Rightarrow> (session, (run_row \<times> workflow_row \<times> timestamp list) option) io" where
  "lease_body runId workerId ttlSeconds =
     io_bind (query [(Select, T_runs), (Update, T_runs)] (select_claimable runId)) (\<lambda>rows.
     case rows of
       [] \<Rightarrow> io_return None
     | row # _ \<Rightarrow>
         io_bind (query [(Select, T_workflows)]
                    (select_workflows (rw_workflow_id row) (rw_tenant_id row))) (\<lambda>workflows.
         case workflows of
           [] \<Rightarrow> io_throw (Error ''Workflow definition missing for leased run'')
         | workflow # _ \<Rightarrow>
             io_bind (query [(Update, T_runs), (Select, T_runs)]
                        (take_lease workerId ttlSeconds runId)) (\<lambda>expires.
             io_bind (query [(Insert, T_events)]
                        (insert_event (rw_tenant_id row) runId Ev_leased ''Worker lease acquired''
                           None)) (\<lambda>_.
             io_return (Some (row, workflow, expires))))))"

text \<open>What the method builds from a claimed row after the transaction has committed; an error
  here still runs the \<open>catch\<close> clause with its \<open>rollback\<close>.\<close>

definition lease_view ::
  "string \<Rightarrow> run_row \<Rightarrow> workflow_row \<Rightarrow> timestamp list \<Rightarrow> (pg, worker_lease option) io" where
  "lease_view workerId row workflow expires =
     io_bind (readRunSystem (row\<lparr>rw_state := Leased\<rparr>)) (\<lambda>run.
     case workflowDefinitionSchema (Some (wr_definition workflow)) of
       None \<Rightarrow> zod_throw
     | Some definition \<Rightarrow>
         (case expires of
            [] \<Rightarrow> io_throw (Error ''Cannot read properties of undefined (reading 'lease_expires_at')'')
          | x # _ \<Rightarrow> io_return (Some \<lparr>wl_run = run, wl_definition = definition,
              wl_currentStep = rw_current_step row, wl_leaseOwner = workerId,
              wl_leaseExpiresAt = x\<rparr>)))"

definition claimRunLease :: "string \<Rightarrow> string \<Rightarrow> nat \<Rightarrow> (pg, worker_lease option) io" where
  "claimRunLease runId workerId ttlSeconds =
     io_bind (pg_transaction (lease_body runId workerId ttlSeconds)) (\<lambda>claimed.
     case claimed of
       None \<Rightarrow> io_return None
     | Some (row, workflow, expires) \<Rightarrow>
         io_catch (lease_view workerId row workflow expires) rollback_and_rethrow)"

definition providerKeyFingerprint :: "string \<Rightarrow> ('s, string) io" where
  "providerKeyFingerprint value = io_env (\<lambda>e. take 12 (sha256_hex e value))"

end
