(* ===== verification/PostgresBodies.thy ===== *)
theory PostgresBodies
  imports PostgresStore
begin

text \<open>
  What the PostgreSQL store does, method by method. A method that returned committed a body that
  ran to its end, so each body has a lemma that says what a completed run of it did to the
  database; the invariant of the schema is \<open>db_ok\<close>, kept by each kind of change.
\<close>

section \<open>Completed statements\<close>

lemma as_uuid_Inr: "as_uuid e text k = Inr y \<longleftrightarrow> (\<exists>u. parse_uuid e text = Some u \<and> k u = Inr y)"
  by (simp add: as_uuid_def split: option.splits)

lemma optional_uuid_Inr:
  "optional_uuid e text k = Inr y \<longleftrightarrow>
     (text = None \<and> k None = Inr y) \<or>
     (\<exists>x u. text = Some x \<and> parse_uuid e x = Some u \<and> k (Some u) = Inr y)"
  by (auto simp: optional_uuid_def as_uuid_Inr split: option.splits)

lemma ensure_Inr: "ensure b err k = Inr y \<longleftrightarrow> b \<and> k = Inr y"
  by (simp add: ensure_def)

lemma rls_check_Inr: "rls_check e s t k = Inr y \<longleftrightarrow> visible e s t \<and> k = Inr y"
  by (simp add: rls_check_def)

lemma visible_irrelevant [simp]:
  "visible (e\<lparr>roundtrips := n\<rparr>) s t = visible e s t" "visible (e\<lparr>issued := n\<rparr>) s t = visible e s t"
  "visible (e\<lparr>ticks := n\<rparr>) s t = visible e s t" "visible e (s\<lparr>se_db := d\<rparr>) t = visible e s t"
  "visible e (s\<lparr>se_now := n\<rparr>) t = visible e s t"
  by (simp_all add: visible_def split: option.splits)

lemma filter_visible:
  assumes "visible e s t"
  shows "filter (\<lambda>x. visible e s (f x) \<and> f x = t \<and> P x) xs = filter (\<lambda>x. f x = t \<and> P x) xs"
    and "filter (\<lambda>x. visible e s (f x) \<and> P x \<and> f x = t) xs = filter (\<lambda>x. P x \<and> f x = t) xs"
    and "filter (\<lambda>x. visible e s (f x) \<and> f x = t) xs = filter (\<lambda>x. f x = t) xs"
  using assms by (auto intro: filter_cong)

lemmas completed = io_bind_eq_Inr query_Inr as_uuid_Inr optional_uuid_Inr ensure_Inr rls_check_Inr

section \<open>Rows and their runs\<close>

definition run_of :: "run_row \<Rightarrow> run_event list \<Rightarrow> stored_run" where
  "run_of row events =
     \<lparr>run_id = rw_id row, run_tenantId = rw_tenant_id row, run_workflowId = rw_workflow_id row,
      run_state = rw_state row, run_input = rw_input row, run_budgetCents = rw_budget_cents row,
      run_idempotencyKey = rw_idempotency_key row, run_createdAt = rw_created_at row,
      run_events = events\<rparr>"

definition events_of :: "db \<Rightarrow> uuid \<Rightarrow> uuid \<Rightarrow> run_event list" where
  "events_of d t i =
     map toEvent (filter (\<lambda>x. er_tenant_id x = t \<and> er_run_id x = i) (db_events d))"

definition db_view :: "db \<Rightarrow> run_view" where
  "db_view d t i =
     (case find (\<lambda>r. rw_tenant_id r = t \<and> rw_id r = i) (db_runs d) of
        None \<Rightarrow> None
      | Some r \<Rightarrow> Some (run_of r (events_of d t i)))"

lemma toRun_eq: "toRun row events = io_return (run_of row events)"
  by (simp add: toRun_def run_of_def)

lemma run_of_simps [simp]:
  "run_id (run_of r evs) = rw_id r" "run_tenantId (run_of r evs) = rw_tenant_id r"
  "run_state (run_of r evs) = rw_state r" "run_events (run_of r evs) = evs"
  "run_idempotencyKey (run_of r evs) = rw_idempotency_key r"
  "run_workflowId (run_of r evs) = rw_workflow_id r"
  by (simp_all add: run_of_def)

lemma readRunInTransaction_completed:
  assumes "readRunInTransaction t row (e, s) = (Inr x, (e', s'))"
    and "parse_uuid e t = Some t" and "parse_uuid e (rw_id row) = Some (rw_id row)"
    and "visible e s t"
  shows "s' = s \<and> x = run_of row (events_of (se_db s) t (rw_id row))"
  using assms
  by (auto simp: readRunInTransaction_def completed select_events_def toRun_eq io_return_def
      events_of_def filter_visible)

definition audit_row_for :: "db \<Rightarrow> principal \<Rightarrow> string \<Rightarrow> uuid \<Rightarrow> timestamp \<Rightarrow> audit_row" where
  "audit_row_for d p action i now =
     \<lparr>ar_tenant_id = pr_tenantId p,
      ar_principal_id = map_option pn_id
        (find (\<lambda>q. pn_tenant_id q = pr_tenantId p \<and> pn_subject q = pr_subject p) (db_principals d)),
      ar_action = action, ar_resource_id = Some i, ar_created_at = now\<rparr>"

lemma pg_audit_completed:
  assumes "pg_audit p action text (e, s) = (Inr x, (e', s'))"
    and "parse_uuid e (pr_tenantId p) = Some (pr_tenantId p)" and "parse_uuid e text = Some i"
  shows "same_sources e e' \<and> s' = s\<lparr>se_db := (se_db s)\<lparr>db_audits := db_audits (se_db s) @
     [audit_row_for (se_db s) p action i (se_now s)]\<rparr>\<rparr>"
  using assms
  by (auto simp: pg_audit_def completed select_principal_ids_def insert_audit_def Let_def
      audit_row_for_def find_filter_hd same_sources_def split: list.splits)

section \<open>Completed runs of the bodies\<close>

definition queued_message :: "db \<Rightarrow> uuid \<Rightarrow> uuid \<Rightarrow> outbox_row" where
  "queued_message d t i =
     \<lparr>ob_id = db_outbox_seq d, ob_tenant_id = t, ob_run_id = i, ob_subject = ''dar.run.queued'',
      ob_payload = [(''runId'', JStr i)], ob_published_at = None, ob_attempts = 0\<rparr>"

definition with_event ::
  "uuid \<Rightarrow> uuid \<Rightarrow> event_type \<Rightarrow> string \<Rightarrow> string option \<Rightarrow> timestamp \<Rightarrow> db \<Rightarrow> db" where
  "with_event t i type detail trace now d = d\<lparr>db_events := db_events d @
     [\<lparr>er_tenant_id = t, er_run_id = i, er_event_type = type, er_detail = detail,
       er_trace_id = trace, er_created_at = now\<rparr>]\<rparr>"

definition with_message :: "uuid \<Rightarrow> uuid \<Rightarrow> db \<Rightarrow> db" where
  "with_message t i d = d\<lparr>db_outbox := db_outbox d @ [queued_message d t i],
     db_outbox_seq := Suc (db_outbox_seq d)\<rparr>"

definition with_audit :: "principal \<Rightarrow> string \<Rightarrow> uuid \<Rightarrow> timestamp \<Rightarrow> db \<Rightarrow> db" where
  "with_audit p action i now d =
     d\<lparr>db_audits := db_audits d @ [audit_row_for d p action i now]\<rparr>"

definition with_run :: "run_row \<Rightarrow> db \<Rightarrow> db" where
  "with_run row d = d\<lparr>db_runs := db_runs d @ [row]\<rparr>"

definition with_workflow :: "workflow_row \<Rightarrow> db \<Rightarrow> db" where
  "with_workflow row d = d\<lparr>db_workflows := db_workflows d @ [row]\<rparr>"

lemma with_fields [simp]:
  "db_runs (with_event t i y x tr n d) = db_runs d" "db_outbox (with_event t i y x tr n d) = db_outbox d"
  "db_workflows (with_event t i y x tr n d) = db_workflows d"
  "db_principals (with_event t i y x tr n d) = db_principals d"
  "db_tenants (with_event t i y x tr n d) = db_tenants d"
  "db_outbox_seq (with_event t i y x tr n d) = db_outbox_seq d"
  "db_limits (with_event t i y x tr n d) = db_limits d"
  "db_audits (with_event t i y x tr n d) = db_audits d"
  "db_runs (with_message t i d) = db_runs d" "db_events (with_message t i d) = db_events d"
  "db_workflows (with_message t i d) = db_workflows d"
  "db_principals (with_message t i d) = db_principals d"
  "db_tenants (with_message t i d) = db_tenants d" "db_limits (with_message t i d) = db_limits d"
  "db_audits (with_message t i d) = db_audits d"
  "db_runs (with_audit p a i n d) = db_runs d" "db_events (with_audit p a i n d) = db_events d"
  "db_workflows (with_audit p a i n d) = db_workflows d"
  "db_outbox (with_audit p a i n d) = db_outbox d"
  "db_outbox_seq (with_audit p a i n d) = db_outbox_seq d"
  "db_principals (with_audit p a i n d) = db_principals d"
  "db_tenants (with_audit p a i n d) = db_tenants d" "db_limits (with_audit p a i n d) = db_limits d"
  "db_events (with_run r d) = db_events d" "db_workflows (with_run r d) = db_workflows d"
  "db_outbox (with_run r d) = db_outbox d" "db_outbox_seq (with_run r d) = db_outbox_seq d"
  "db_principals (with_run r d) = db_principals d" "db_tenants (with_run r d) = db_tenants d"
  "db_limits (with_run r d) = db_limits d" "db_audits (with_run r d) = db_audits d"
  "db_runs (with_workflow w d) = db_runs d" "db_events (with_workflow w d) = db_events d"
  "db_outbox (with_workflow w d) = db_outbox d" "db_outbox_seq (with_workflow w d) = db_outbox_seq d"
  "db_principals (with_workflow w d) = db_principals d" "db_tenants (with_workflow w d) = db_tenants d"
  "db_limits (with_workflow w d) = db_limits d" "db_audits (with_workflow w d) = db_audits d"
  by (simp_all add: with_event_def with_message_def with_audit_def with_run_def with_workflow_def)

lemma audit_row_for_cong:
  "db_principals d = db_principals d' \<Longrightarrow> audit_row_for d p a i n = audit_row_for d' p a i n"
  by (simp add: audit_row_for_def)

lemma insert_event_completed:
  assumes "query rights (insert_event t i type detail trace) (e, s) = (Inr x, (e', s'))"
    and "parse_uuid e t = Some t'" and "parse_uuid e i = Some i'"
  shows "same_sources e e' \<and> visible e s t' \<and> length detail \<le> 500 \<and>
    s' = s\<lparr>se_db := with_event t' i' type detail trace (se_now s) (se_db s)\<rparr>"
  using assms
  by (auto simp: completed insert_event_def Let_def with_event_def same_sources_def)

lemma queue_run_outbox_completed:
  assumes "query rights (queue_run_outbox t i) (e, s) = (Inr x, (e', s'))"
    and "parse_uuid e t = Some t'" and "parse_uuid e i = Some i'"
  shows "same_sources e e' \<and> s' = s\<lparr>se_db := with_message t' i' (se_db s)\<rparr> \<and>
    (\<exists>r \<in> set (db_runs (se_db s)). rw_id r = i' \<and> rw_tenant_id r = t' \<and> rw_state r = Queued)"
  using assms
  by (auto simp: completed queue_run_outbox_def Let_def with_message_def queued_message_def
      same_sources_def)

lemma same_sources_parse: "same_sources e e' \<Longrightarrow> parse_uuid e' = parse_uuid e"
  by (simp add: same_sources_def)

lemma same_sources_visible: "same_sources e e' \<Longrightarrow> visible e' s t = visible e s t"
  by (simp add: same_sources_def visible_def split: option.splits)

definition with_new_run :: "principal \<Rightarrow> run_row \<Rightarrow> timestamp \<Rightarrow> db \<Rightarrow> db" where
  "with_new_run p row now d =
     with_audit p ''run.created'' (rw_id row) now
       (with_message (pr_tenantId p) (rw_id row)
         (with_event (pr_tenantId p) (rw_id row) Ev_created ''Run queued'' None now
           (with_run row d)))"

lemma record_new_run_completed:
  assumes "record_new_run p row (e, s) = (Inr x, (e', s'))"
    and T: "parse_uuid e (pr_tenantId p) = Some (pr_tenantId p)"
    and R: "parse_uuid e (rw_id row) = Some (rw_id row)"
    and d: "se_db s = with_run row d"
  shows "se_db s' = with_new_run p row (se_now s) d \<and>
    x = (run_of row (events_of (se_db s') (pr_tenantId p) (rw_id row)), False)"
proof -
  let ?d1 = "with_event (pr_tenantId p) (rw_id row) Ev_created ''Run queued'' None (se_now s) (se_db s)"
  from assms(1) obtain e1 s1 e2 s2 e3 s3 run where
    1: "query [(Insert, T_events)]
          (insert_event (pr_tenantId p) (rw_id row) Ev_created ''Run queued'' None) (e, s)
        = (Inr (), (e1, s1))"
    and 2: "query [(Queue_function, T_outbox)]
          (queue_run_outbox (pr_tenantId p) (rw_id row)) (e1, s1) = (Inr (), (e2, s2))"
    and 3: "pg_audit p ''run.created'' (rw_id row) (e2, s2) = (Inr (), (e3, s3))"
    and 4: "readRunInTransaction (pr_tenantId p) row (e3, s3) = (Inr run, (e', s'))"
    and x: "x = (run, False)"
    unfolding record_new_run_def by (auto simp: io_bind_eq_Inr io_return_def)
  have s1: "same_sources e e1" "visible e s (pr_tenantId p)" "s1 = s\<lparr>se_db := ?d1\<rparr>"
    using insert_event_completed [OF 1 T R] by auto
  have s2: "same_sources e1 e2" "s2 = s1\<lparr>se_db := with_message (pr_tenantId p) (rw_id row) ?d1\<rparr>"
    using queue_run_outbox_completed [OF 2] s1 T R by (auto simp: same_sources_parse)
  have e2: "same_sources e e2"
    using same_sources_trans s1(1) s2(1) by blast
  have s3: "same_sources e2 e3" "s3 = s2\<lparr>se_db := with_audit p ''run.created'' (rw_id row) (se_now s) (se_db s2)\<rparr>"
    using pg_audit_completed [OF 3] e2 s1 s2 T R by (auto simp: same_sources_parse with_audit_def)
  have e3: "same_sources e e3"
    using same_sources_trans e2 s3(1) by blast
  have "s' = s3 \<and> run = run_of row (events_of (se_db s3) (pr_tenantId p) (rw_id row))"
    using readRunInTransaction_completed [OF 4] e3 s1 s2 s3 T R
    by (simp add: same_sources_parse same_sources_visible)
  with x s3 s2 s1 d show ?thesis
    by (simp add: with_new_run_def)
qed

text \<open>The run counts the quotas bound.\<close>

definition active_count :: "db \<Rightarrow> uuid \<Rightarrow> nat" where
  "active_count d t =
     length (filter (\<lambda>r. rw_tenant_id r = t \<and> rw_state r \<in> set active_states) (db_runs d))"

definition day_count :: "db \<Rightarrow> uuid \<Rightarrow> timestamp \<Rightarrow> nat" where
  "day_count d t now =
     length (filter (\<lambda>r. rw_tenant_id r = t \<and> day_start now \<le> rw_created_at r) (db_runs d))"

lemma select_usage_completed:
  assumes "query rights (select_usage t) (e, s) = (Inr u, (e', s'))"
    and "parse_uuid e t = Some t" and "visible e s t"
  shows "s' = s \<and> u = (active_count (se_db s) t, day_count (se_db s) t (se_now s))"
  using assms
  by (auto simp: completed select_usage_def Let_def active_count_def day_count_def
      intro!: arg_cong [where f = length] filter_cong)

text \<open>A new row may enter: the conditions under which \<open>insert_run\<close> stores it.\<close>

definition may_insert :: "env \<Rightarrow> db \<Rightarrow> principal \<Rightarrow> run_request \<Rightarrow> string \<Rightarrow> run_row \<Rightarrow> bool" where
  "may_insert e d p rq k row \<longleftrightarrow>
     (pr_tenantId p, k) \<notin> set (map (\<lambda>r. (rw_tenant_id r, rw_idempotency_key r)) (db_runs d)) \<and>
     rw_id row \<notin> set (map rw_id (db_runs d)) \<and> 16 \<le> length k \<and> length k \<le> 128 \<and>
     tenant_exists d (pr_tenantId p) \<and>
     (\<exists>w h now. w \<in> set (db_workflows d) \<and> wr_tenant_id w = pr_tenantId p \<and>
        parse_uuid e (rr_workflowId rq) = Some (wr_id w) \<and>
        (h = None \<and> rr_providerCredentialHandle rq = None \<or>
         (\<exists>x. rr_providerCredentialHandle rq = Some x \<and> h = parse_uuid e x \<and> h \<noteq> None \<and>
              h \<notin> set (map rw_provider_credential_handle (db_runs d)))) \<and>
        row = new_run_row (rw_id row) (pr_tenantId p) (wr_id w) k (rr_input rq)
                (wr_budget_cents w) h now)"

lemma filter_eq_ConsD_set: "filter P xs = y # ys \<Longrightarrow> y \<in> set xs \<and> P y"
  by (auto dest: filter_eq_ConsD)

lemma select_workflows_completed:
  assumes "query rights (select_workflows i t) (e, s) = (Inr (w # ws), (e', s'))"
    and "parse_uuid e t = Some t"
  shows "s' = s \<and> same_sources e e' \<and> w \<in> set (db_workflows (se_db s)) \<and> wr_tenant_id w = t \<and>
    parse_uuid e i = Some (wr_id w)"
  using assms
  by (auto simp: completed select_workflows_def same_sources_def dest!: filter_eq_ConsD_set)

lemma insert_run_completed:
  assumes "query rights (insert_run i (pr_tenantId p) (rr_workflowId rq) k (rr_input rq)
      (wr_budget_cents w) (rr_providerCredentialHandle rq)) (e, s) = (Inr x, (e', s'))"
    and "parse_uuid e (pr_tenantId p) = Some (pr_tenantId p)"
    and "w \<in> set (db_workflows (se_db s))" and "wr_tenant_id w = pr_tenantId p"
    and "parse_uuid e (rr_workflowId rq) = Some (wr_id w)"
  shows "same_sources e e' \<and> visible e s (pr_tenantId p) \<and>
    (case x of
       None \<Rightarrow> s' = s
     | Some row \<Rightarrow> s' = s\<lparr>se_db := with_run row (se_db s)\<rparr> \<and> rw_id row = i \<and>
         rw_created_at row = se_now s \<and> may_insert e (se_db s) p rq k row)"
proof -
  have "same_sources e e'"
    using env_keepsD [OF env_keeps_query assms(1)] .
  moreover have "visible e s (pr_tenantId p)"
    using assms(1,2) by (auto simp: completed insert_run_def Let_def)
  moreover have "s' = s" if "x = None"
    using assms(1,2) that by (auto simp: completed insert_run_def Let_def split: if_splits)
  moreover have "s' = s\<lparr>se_db := with_run row (se_db s)\<rparr> \<and> rw_id row = i \<and>
      rw_created_at row = se_now s \<and> may_insert e (se_db s) p rq k row"
    if some: "x = Some row" for row
  proof -
    obtain h where row: "row = new_run_row i (pr_tenantId p) (wr_id w) k (rr_input rq)
        (wr_budget_cents w) h (se_now s)"
      and s': "s' = s\<lparr>se_db := with_run row (se_db s)\<rparr>"
      and h: "h = None \<and> rr_providerCredentialHandle rq = None \<or>
         (\<exists>x. rr_providerCredentialHandle rq = Some x \<and> h = parse_uuid e x \<and> h \<noteq> None \<and>
              h \<notin> set (map rw_provider_credential_handle (db_runs (se_db s))))"
      and k: "(pr_tenantId p, k) \<notin>
          set (map (\<lambda>r. (rw_tenant_id r, rw_idempotency_key r)) (db_runs (se_db s)))"
        "i \<notin> set (map rw_id (db_runs (se_db s)))" "16 \<le> length k" "length k \<le> 128"
        "tenant_exists (se_db s) (pr_tenantId p)"
      using assms(1,2,5) some
      by (auto simp: completed insert_run_def Let_def with_run_def split: if_splits)
    show ?thesis
      unfolding may_insert_def using s' h k row assms(3-5) by (auto simp: new_run_row_def)
  qed
  ultimately show ?thesis
    by (cases x) auto
qed

lemma may_insert_sources: "same_sources e e' \<Longrightarrow> may_insert e' d p rq k row = may_insert e d p rq k row"
  by (simp add: may_insert_def same_sources_parse)

text \<open>What a completed call of \<open>createRun\<close> did: it replayed a stored run, or it stored a new
  one, with its event, its outbox message and its audit record, under both quotas.\<close>

definition replays :: "db \<Rightarrow> principal \<Rightarrow> string \<Rightarrow> stored_run \<times> bool \<Rightarrow> bool" where
  "replays d p k x \<longleftrightarrow>
     (\<exists>row \<in> set (db_runs d). rw_tenant_id row = pr_tenantId p \<and> rw_idempotency_key row = k \<and>
        x = (run_of row (events_of d (pr_tenantId p) (rw_id row)), True))"

definition creates ::
  "env \<Rightarrow> timestamp \<Rightarrow> db \<Rightarrow> principal \<Rightarrow> run_request \<Rightarrow> string \<Rightarrow> stored_run \<times> bool \<Rightarrow> db \<Rightarrow> bool" where
  "creates e now d p rq k x d' \<longleftrightarrow>
     (\<exists>row limit. may_insert e d p rq k row \<and> (\<exists>n. rw_id row = uuids e n) \<and>
        rw_created_at row = now \<and> limit \<in> set (db_limits d) \<and> lm_tenant_id limit = pr_tenantId p \<and>
        active_count d (pr_tenantId p) < lm_max_active_runs limit \<and>
        day_count d (pr_tenantId p) now < lm_max_runs_per_day limit \<and>
        d' = with_new_run p row now d \<and>
        x = (run_of row (events_of d' (pr_tenantId p) (rw_id row)), False))"

lemma read_first_completed:
  assumes "read_first t rows (e, s) = (Inr x, (e', s'))"
    and "set rows \<subseteq> {r \<in> set (db_runs (se_db s)). rw_tenant_id r = t \<and> rw_idempotency_key r = k \<and> visible e s t}"
    and "parse_uuid e t = Some t"
    and "\<forall>r \<in> set (db_runs (se_db s)). parse_uuid e (rw_id r) = Some (rw_id r)"
    and "t = pr_tenantId p"
  shows "s' = s \<and> replays (se_db s) p k (x, True)"
proof -
  obtain row rest where rows: "rows = row # rest"
    and run: "readRunInTransaction t row (e, s) = (Inr x, (e', s'))"
    using assms(1) by (auto simp: read_first_def io_throw_def split: list.splits)
  then have "row \<in> set (db_runs (se_db s))" "rw_tenant_id row = t" "rw_idempotency_key row = k" "visible e s t"
    using assms(2) by auto
  with readRunInTransaction_completed [OF run assms(3)] assms(4,5) show ?thesis
    by (auto simp: replays_def)
qed

lemma select_runs_by_key_completed:
  assumes "query rights (select_runs_by_key t k) (e, s) = (Inr rows, (e', s'))"
    and "parse_uuid e t = Some t"
  shows "s' = s \<and> set rows \<subseteq>
    {r \<in> set (db_runs (se_db s)). rw_tenant_id r = t \<and> rw_idempotency_key r = k \<and> visible e s t}"
  using assms by (auto simp: completed select_runs_by_key_def)

lemma insert_new_run_completed:
  assumes run: "insert_new_run p rq k (e, s) = (Inr x, (e', s'))"
    and T: "parse_uuid e (pr_tenantId p) = Some (pr_tenantId p)"
    and R: "\<forall>r \<in> set (db_runs (se_db s)). parse_uuid e (rw_id r) = Some (rw_id r)"
    and U: "\<forall>n. parse_uuid e (uuids e n) = Some (uuids e n)"
  shows "(se_db s' = se_db s \<and> replays (se_db s) p k x) \<or>
    (\<exists>row. may_insert e (se_db s) p rq k row \<and> (\<exists>n. rw_id row = uuids e n) \<and>
       rw_created_at row = se_now s \<and> se_db s' = with_new_run p row (se_now s) (se_db s) \<and>
       visible e s (pr_tenantId p) \<and>
       x = (run_of row (events_of (se_db s') (pr_tenantId p) (rw_id row)), False))"
proof -
  let ?t = "pr_tenantId p"
  from run obtain w ws e1 s1 where
    1: "query [(Select, T_workflows)] (select_workflows (rr_workflowId rq) ?t) (e, s)
        = (Inr (w # ws), (e1, s1))"
    and rest: "io_bind next_uuid (\<lambda>i.
         io_bind (query [(Insert, T_runs), (Select, T_runs)]
                    (insert_run i ?t (rr_workflowId rq) k (rr_input rq)
                       (wr_budget_cents w) (rr_providerCredentialHandle rq))) (\<lambda>inserted.
         case inserted of
           None \<Rightarrow>
             io_bind (query [(Select, T_runs)] (select_runs_by_key ?t k)) (\<lambda>raced.
             io_bind (read_first ?t raced) (\<lambda>run. io_return (run, True)))
         | Some row \<Rightarrow> record_new_run p row)) (e1, s1) = (Inr x, (e', s'))"
    unfolding insert_new_run_def io_bind_first_eq_Inr by (elim exE) auto
  have w: "s1 = s" "same_sources e e1" "w \<in> set (db_workflows (se_db s))" "wr_tenant_id w = ?t"
      "parse_uuid e (rr_workflowId rq) = Some (wr_id w)"
    using select_workflows_completed [OF 1 T] by auto
  define i where "i = uuids e1 (issued e1)"
  obtain e2 s2 y where
    2: "query [(Insert, T_runs), (Select, T_runs)] (insert_run i ?t (rr_workflowId rq) k (rr_input rq)
          (wr_budget_cents w) (rr_providerCredentialHandle rq)) (e1\<lparr>issued := Suc (issued e1)\<rparr>, s)
        = (Inr y, (e2, s2))"
    and next_step: "(case y of
        None \<Rightarrow> io_bind (query [(Select, T_runs)] (select_runs_by_key ?t k)) (\<lambda>raced.
                 io_bind (read_first ?t raced) (\<lambda>run. io_return (run, True)))
      | Some row \<Rightarrow> record_new_run p row) (e2, s2) = (Inr x, (e', s'))"
    using rest w(1) unfolding i_def by (auto simp: io_bind_eq_Inr next_uuid_def)
  let ?e1 = "e1\<lparr>issued := Suc (issued e1)\<rparr>"
  have e1: "same_sources e ?e1"
    using w(2) by (rule same_sources_trans) simp
  note ins = insert_run_completed [OF 2]
  have y: "same_sources ?e1 e2" "visible e s ?t"
      "y = None \<Longrightarrow> s2 = s"
      "y = Some row \<Longrightarrow> s2 = s\<lparr>se_db := with_run row (se_db s)\<rparr> \<and> rw_id row = i \<and>
         rw_created_at row = se_now s \<and> may_insert e (se_db s) p rq k row" for row
    using ins T w e1
    by (auto simp: same_sources_parse [OF e1] same_sources_visible [OF w(2)]
        may_insert_sources [OF e1] split: option.splits)
  have e2: "same_sources e e2"
    using same_sources_trans [OF e1 y(1)] .
  have i: "i = uuids e (issued e1)"
    using w(2) by (simp add: i_def same_sources_def)
  show ?thesis
  proof (cases y)
    case None
    with next_step obtain rows e3 s3 run where
      3: "query [(Select, T_runs)] (select_runs_by_key ?t k) (e2, s2) = (Inr rows, (e3, s3))"
      and 4: "read_first ?t rows (e3, s3) = (Inr run, (e', s'))" and x: "x = (run, True)"
      by (auto simp: io_bind_eq_Inr io_return_def)
    have e3: "same_sources e e3"
      using same_sources_trans [OF e2 env_keepsD [OF env_keeps_query 3]] .
    have "s3 = s" and "set rows \<subseteq>
        {r \<in> set (db_runs (se_db s)). rw_tenant_id r = ?t \<and> rw_idempotency_key r = k \<and> visible e3 s ?t}"
      using select_runs_by_key_completed [OF 3] T e2 e3 y(3) [OF None]
      by (auto simp: same_sources_parse same_sources_visible)
    then show ?thesis
      using read_first_completed [OF 4, of k p] T R x
      by (simp add: same_sources_parse [OF e3])
  next
    case (Some row)
    with next_step have 3: "record_new_run p row (e2, s2) = (Inr x, (e', s'))" by simp
    have "se_db s' = with_new_run p row (se_now s2) (se_db s) \<and>
        x = (run_of row (events_of (se_db s') ?t (rw_id row)), False)"
      using y(4) [OF Some] T U i
      by (intro record_new_run_completed [OF 3]) (simp_all add: same_sources_parse [OF e2])
    with y(2) y(4) [OF Some] i show ?thesis by auto
  qed
qed

lemma createRun_completed:
  assumes run: "createRun_body p rq k (e, s) = (Inr x, (e', s'))"
    and T: "parse_uuid e (pr_tenantId p) = Some (pr_tenantId p)"
    and R: "\<forall>r \<in> set (db_runs (se_db s)). parse_uuid e (rw_id r) = Some (rw_id r)"
    and U: "\<forall>n. parse_uuid e (uuids e n) = Some (uuids e n)"
  shows "(se_db s' = se_db s \<and> replays (se_db s) p k x) \<or>
    creates e (se_now s) (se_db s) p rq k x (se_db s')"
proof -
  let ?t = "pr_tenantId p"
  from run obtain rows e1 s1 where
    1: "query [(Select, T_runs)] (select_runs_by_key ?t k) (e, s) = (Inr rows, (e1, s1))"
    and rest: "(if rows \<noteq> []
        then io_bind (read_first ?t rows) (\<lambda>run. io_return (run, True))
        else io_bind (query [(Select, T_limits), (Update, T_limits)] (select_limits ?t)) (\<lambda>limits.
          case limits of
            [] \<Rightarrow> io_throw (Error ''Tenant runtime limits missing'')
          | limit # _ \<Rightarrow>
              io_bind (query [(Select, T_runs)] (select_usage ?t)) (\<lambda>usage.
              if lm_max_active_runs limit \<le> fst usage
              then io_throw (Error ''Active run quota exceeded'')
              else if lm_max_runs_per_day limit \<le> snd usage
              then io_throw (Error ''Daily run quota exceeded'')
              else insert_new_run p rq k))) (e1, s1) = (Inr x, (e', s'))"
    unfolding createRun_body_def by (auto simp: io_bind_eq_Inr [of "query _ _"])
  note found = select_runs_by_key_completed [OF 1 T]
  have e1: "same_sources e e1"
    using env_keepsD [OF env_keeps_query 1] .
  show ?thesis
  proof (cases "rows = []")
    case False
    with rest obtain run where "read_first ?t rows (e1, s1) = (Inr run, (e', s'))" and "x = (run, True)"
      by (auto simp: io_bind_eq_Inr io_return_def)
    with read_first_completed [OF this(1), of k p] found T R show ?thesis
      by (simp add: same_sources_parse [OF e1] same_sources_visible [OF e1])
  next
    case True
    with rest obtain limit ls e2 s2 where
      2: "query [(Select, T_limits), (Update, T_limits)] (select_limits ?t) (e1, s)
          = (Inr (limit # ls), (e2, s2))"
      and "io_bind (query [(Select, T_runs)] (select_usage ?t)) (\<lambda>usage.
          if lm_max_active_runs limit \<le> fst usage
          then io_throw (Error ''Active run quota exceeded'')
          else if lm_max_runs_per_day limit \<le> snd usage
          then io_throw (Error ''Daily run quota exceeded'')
          else insert_new_run p rq k) (e2, s2) = (Inr x, (e', s'))"
      using found by (auto simp: io_bind_first_eq_Inr)
    then obtain usage e3 s3 where
      3: "query [(Select, T_runs)] (select_usage ?t) (e2, s2) = (Inr usage, (e3, s3))"
      and quota: "fst usage < lm_max_active_runs limit" "snd usage < lm_max_runs_per_day limit"
      and 4: "insert_new_run p rq k (e3, s3) = (Inr x, (e', s'))"
      by (auto simp: io_bind_eq_Inr [of "query _ _"] io_throw_def split: if_splits)
    have e2: "same_sources e e2"
      using same_sources_trans [OF e1 env_keepsD [OF env_keeps_query 2]] .
    have e3: "same_sources e e3"
      using same_sources_trans [OF e2 env_keepsD [OF env_keeps_query 3]] .
    have limit: "s2 = s" "limit \<in> set (db_limits (se_db s))" "lm_tenant_id limit = ?t" "visible e s ?t"
      using 2 T e1
      by (auto simp: completed select_limits_def same_sources_parse same_sources_visible
          dest!: filter_eq_ConsD_set)
    have usage: "s3 = s" "usage = (active_count (se_db s) ?t, day_count (se_db s) ?t (se_now s))"
      using select_usage_completed [OF 3] T limit
      by (auto simp: same_sources_parse [OF e2] same_sources_visible [OF e2])
    have "uuids e3 = uuids e"
      using e3 by (simp add: same_sources_def)
    then show ?thesis
      using insert_new_run_completed [OF 4] T R U limit usage quota
      unfolding creates_def
      by (auto simp: same_sources_parse [OF e3] may_insert_sources [OF e3])
  qed
qed

text \<open>What a completed call of \<open>transition\<close> did.\<close>

definition with_transition ::
  "principal \<Rightarrow> uuid \<Rightarrow> run_state \<Rightarrow> run_event \<Rightarrow> timestamp \<Rightarrow> db \<Rightarrow> db" where
  "with_transition p i target ev now d =
     (let approving = (target = Queued \<and> ev_type ev = Ev_approved);
          moved_db = with_event (pr_tenantId p) i (ev_type ev) (ev_detail ev) (ev_traceId ev) now
            (update_runs (\<lambda>r. rw_id r = i)
               (\<lambda>r. r\<lparr>rw_state := target,
                      rw_current_step := rw_current_step r + (if approving then 1 else 0),
                      rw_updated_at := now\<rparr>) d) in
      with_audit p (''run.'' @ event_type_name (ev_type ev)) i now
        (if approving then with_message (pr_tenantId p) i moved_db else moved_db))"

lemma select_runs_by_id_completed:
  assumes "query rights (select_runs_by_id i t) (e, s) = (Inr rows, (e', s'))"
    and "parse_uuid e t = Some t"
  shows "s' = s \<and> set rows \<subseteq> {r \<in> set (db_runs (se_db s)). rw_tenant_id r = t \<and>
    parse_uuid e i = Some (rw_id r) \<and> visible e s t}"
  using assms by (auto simp: completed select_runs_by_id_def)

lemma update_runs_cong:
  assumes "\<And>r. r \<in> set (db_runs d) \<Longrightarrow> P r = Q r"
  shows "update_runs P f d = update_runs Q f d"
  using assms by (simp add: update_runs_def cong: map_cong)

lemma distinct_map_inj: "distinct (map f xs) \<Longrightarrow> x \<in> set xs \<Longrightarrow> y \<in> set xs \<Longrightarrow> f x = f y \<Longrightarrow> x = y"
  by (auto simp: distinct_map inj_on_def)

lemma update_run_state_completed:
  assumes "query rights (update_run_state target n text) (e, s) = (Inr x, (e', s'))"
    and "parse_uuid e text = Some (rw_id row)" and "row \<in> set (db_runs (se_db s))"
    and "distinct (map rw_id (db_runs (se_db s)))" and "visible e s (rw_tenant_id row)"
  shows "s' = s\<lparr>se_db := update_runs (\<lambda>r. rw_id r = rw_id row)
    (\<lambda>r. r\<lparr>rw_state := target, rw_current_step := rw_current_step r + n, rw_updated_at := se_now s\<rparr>)
    (se_db s)\<rparr>"
proof -
  have "r = row" if "r \<in> set (db_runs (se_db s))" "rw_id r = rw_id row" for r
    using that assms(3,4) distinct_map_inj by metis
  then have "update_runs (\<lambda>r. visible e s (rw_tenant_id r) \<and> rw_id r = rw_id row) f (se_db s) =
      update_runs (\<lambda>r. rw_id r = rw_id row) f (se_db s)" for f
    using assms(5) by (intro update_runs_cong) auto
  with assms(1,2) show ?thesis
    by (auto simp: completed update_run_state_def)
qed

lemma update_runs_fields [simp]:
  "db_events (update_runs P f d) = db_events d" "db_outbox (update_runs P f d) = db_outbox d"
  "db_workflows (update_runs P f d) = db_workflows d" "db_tenants (update_runs P f d) = db_tenants d"
  "db_principals (update_runs P f d) = db_principals d" "db_limits (update_runs P f d) = db_limits d"
  "db_outbox_seq (update_runs P f d) = db_outbox_seq d" "db_audits (update_runs P f d) = db_audits d"
  "db_runs (update_runs P f d) = map (\<lambda>r. if P r then f r else r) (db_runs d)"
  by (simp_all add: update_runs_def)

lemma transition_completed:
  assumes run: "transition_body p given target ev (e, s) = (Inr x, (e', s'))"
    and T: "parse_uuid e (pr_tenantId p) = Some (pr_tenantId p)"
    and R: "\<forall>r \<in> set (db_runs (se_db s)). parse_uuid e (rw_id r) = Some (rw_id r)"
    and D: "distinct (map rw_id (db_runs (se_db s)))"
  shows "\<exists>row \<in> set (db_runs (se_db s)).
    rw_tenant_id row = pr_tenantId p \<and> parse_uuid e given = Some (rw_id row) \<and>
    assertTransition (rw_state row) target = Inr () \<and> length (ev_detail ev) \<le> 500 \<and>
    se_db s' = with_transition p (rw_id row) target ev (se_now s) (se_db s) \<and>
    x = run_of (row\<lparr>rw_state := target\<rparr>) (events_of (se_db s') (pr_tenantId p) (rw_id row))"
proof -
  let ?t = "pr_tenantId p" and ?approving = "target = Queued \<and> ev_type ev = Ev_approved"
  from run obtain row rows e1 s1 where
    1: "query [(Select, T_runs), (Update_run_state, T_runs)] (select_runs_by_id given ?t) (e, s)
        = (Inr (row # rows), (e1, s1))"
    and trans: "assertTransition (rw_state row) target = Inr ()"
    and rest: "io_bind (query [(Update_run_state, T_runs), (Select, T_runs)]
             (update_run_state target (if ?approving then 1 else 0) given)) (\<lambda>_.
        io_bind (query [(Insert, T_events)]
             (insert_event ?t given (ev_type ev) (ev_detail ev) (ev_traceId ev))) (\<lambda>_.
        io_bind (if ?approving then query [(Queue_function, T_outbox)] (queue_run_outbox ?t given)
                 else io_return ()) (\<lambda>_.
        io_bind (pg_audit p (''run.'' @ event_type_name (ev_type ev)) given) (\<lambda>_.
        readRunInTransaction ?t (row\<lparr>rw_state := target\<rparr>))))) (e1, s1) = (Inr x, (e', s'))"
    unfolding transition_body_def io_bind_first_eq_Inr Let_def runStateSchema_name option.case
      io_check_eq_Inr
    by (elim exE conjE) auto
  have e1: "same_sources e e1"
    using env_keepsD [OF env_keeps_query 1] .
  have row: "s1 = s" "row \<in> set (db_runs (se_db s))" "rw_tenant_id row = ?t"
      "parse_uuid e given = Some (rw_id row)" "visible e s ?t"
    using select_runs_by_id_completed [OF 1 T] by auto
  from rest obtain e2 s2 e3 s3 e4 s4 e5 s5 where
    2: "query [(Update_run_state, T_runs), (Select, T_runs)]
          (update_run_state target (if ?approving then 1 else 0) given) (e1, s) = (Inr (), (e2, s2))"
    and 3: "query [(Insert, T_events)]
          (insert_event ?t given (ev_type ev) (ev_detail ev) (ev_traceId ev)) (e2, s2) = (Inr (), (e3, s3))"
    and 4: "(if ?approving then query [(Queue_function, T_outbox)] (queue_run_outbox ?t given)
             else io_return ()) (e3, s3) = (Inr (), (e4, s4))"
    and 5: "pg_audit p (''run.'' @ event_type_name (ev_type ev)) given (e4, s4) = (Inr (), (e5, s5))"
    and 6: "readRunInTransaction ?t (row\<lparr>rw_state := target\<rparr>) (e5, s5) = (Inr x, (e', s'))"
    unfolding io_bind_eq_Inr row(1) by auto
  note e2 = same_sources_trans [OF e1 env_keepsD [OF env_keeps_query 2]]
  note e3 = same_sources_trans [OF e2 env_keepsD [OF env_keeps_query 3]]
  have e4: "same_sources e e4"
    using 4 by (intro same_sources_trans [OF e3])
      (auto simp: io_return_def split: if_splits dest: env_keepsD [OF env_keeps_query])
  let ?d2 = "update_runs (\<lambda>r. rw_id r = rw_id row)
    (\<lambda>r. r\<lparr>rw_state := target, rw_current_step := rw_current_step r + (if ?approving then 1 else 0),
           rw_updated_at := se_now s\<rparr>) (se_db s)"
  let ?d3 = "with_event ?t (rw_id row) (ev_type ev) (ev_detail ev) (ev_traceId ev) (se_now s) ?d2"
  have s2: "s2 = s\<lparr>se_db := ?d2\<rparr>"
    using update_run_state_completed [OF 2, of row] row D
    by (simp add: same_sources_parse [OF e1] same_sources_visible [OF e1])
  have s3: "s3 = s\<lparr>se_db := ?d3\<rparr>" "length (ev_detail ev) \<le> 500"
    using insert_event_completed [OF 3, of ?t "rw_id row"] T row s2
    by (auto simp: same_sources_parse [OF e2])
  have s4: "s4 = s\<lparr>se_db := (if ?approving then with_message ?t (rw_id row) ?d3 else ?d3)\<rparr>"
    using 4 queue_run_outbox_completed [of _ ?t given e3 s3 "()" e4 s4 ?t "rw_id row"] T row s3
    by (auto simp: same_sources_parse [OF e3] io_return_def split: if_splits)
  have s5: "same_sources e4 e5" "s5 = s\<lparr>se_db := with_transition p (rw_id row) target ev (se_now s) (se_db s)\<rparr>"
    using pg_audit_completed [OF 5, of "rw_id row"] T row s4
    by (simp_all add: same_sources_parse [OF e4] with_transition_def Let_def with_audit_def)
  note e5 = same_sources_trans [OF e4 s5(1)]
  have "s' = s5 \<and> x = run_of (row\<lparr>rw_state := target\<rparr>) (events_of (se_db s5) ?t (rw_id row))"
    using readRunInTransaction_completed [OF 6] T R row s5
    by (simp add: same_sources_parse [OF e5] same_sources_visible [OF e5])
  with row trans s3 s5 show ?thesis
    by (intro bexI [of _ row]) auto
qed

section \<open>The invariant of the schema\<close>

text \<open>
  Keys are unique, identifiers are in the canonical form the conversion \<open>cn\<close> gives, every event
  and every outbox message belongs to a run of the same tenant, every run to a workflow of its
  tenant, and the outbox is ordered by its identity column.
\<close>

definition run_refs :: "db \<Rightarrow> (uuid \<times> uuid) set" where
  "run_refs d = (\<lambda>r. (rw_tenant_id r, rw_id r)) ` set (db_runs d)"

definition runs_ok :: "(string \<Rightarrow> uuid option) \<Rightarrow> db \<Rightarrow> bool" where
  "runs_ok cn d \<longleftrightarrow>
     distinct (map rw_id (db_runs d)) \<and>
     distinct (map (\<lambda>r. (rw_tenant_id r, rw_idempotency_key r)) (db_runs d)) \<and>
     (\<forall>r \<in> set (db_runs d). cn (rw_id r) = Some (rw_id r) \<and>
        cn (rw_tenant_id r) = Some (rw_tenant_id r) \<and> tenant_exists d (rw_tenant_id r) \<and>
        cn (rw_workflow_id r) = Some (rw_workflow_id r) \<and>
        (\<exists>w \<in> set (db_workflows d).
           wr_id w = rw_workflow_id r \<and> wr_tenant_id w = rw_tenant_id r))"

definition outbox_ok :: "db \<Rightarrow> bool" where
  "outbox_ok d \<longleftrightarrow>
     sorted_wrt (<) (map ob_id (db_outbox d)) \<and>
     (\<forall>x \<in> set (db_outbox d). ob_id x < db_outbox_seq d \<and>
        (ob_tenant_id x, ob_run_id x) \<in> run_refs d \<and> ob_subject x = ''dar.run.queued'' \<and>
        ob_payload x = [(''runId'', JStr (ob_run_id x))])"

definition events_ok :: "db \<Rightarrow> bool" where
  "events_ok d \<longleftrightarrow> (\<forall>x \<in> set (db_events d). (er_tenant_id x, er_run_id x) \<in> run_refs d)"

definition principals_ok :: "(string \<Rightarrow> uuid option) \<Rightarrow> db \<Rightarrow> bool" where
  "principals_ok cn d \<longleftrightarrow>
     (\<forall>q \<in> set (db_principals d). cn (pn_tenant_id q) = Some (pn_tenant_id q)) \<and>
     (\<forall>w \<in> set (db_workflows d). cn (wr_id w) = Some (wr_id w)) \<and>
     distinct (map wr_id (db_workflows d)) \<and> distinct (map lm_tenant_id (db_limits d))"

definition db_ok :: "(string \<Rightarrow> uuid option) \<Rightarrow> db \<Rightarrow> bool" where
  "db_ok cn d \<longleftrightarrow> runs_ok cn d \<and> outbox_ok d \<and> events_ok d \<and> principals_ok cn d"

lemma tenant_exists_fields [simp]:
  "tenant_exists (with_event t i y x tr n d) = tenant_exists d"
  "tenant_exists (with_message t i d) = tenant_exists d"
  "tenant_exists (with_audit p a i n d) = tenant_exists d"
  "tenant_exists (with_workflow w d) = tenant_exists d" "tenant_exists (with_run r d) = tenant_exists d"
  "tenant_exists (update_runs P f d) = tenant_exists d"
  by (simp_all add: tenant_exists_def fun_eq_iff)

lemmas db_ok_defs = db_ok_def runs_ok_def outbox_ok_def events_ok_def principals_ok_def run_refs_def

lemma run_refs_fields [simp]:
  "run_refs (with_event t i y x tr n d) = run_refs d" "run_refs (with_message t i d) = run_refs d"
  "run_refs (with_audit p a i n d) = run_refs d" "run_refs (with_workflow w d) = run_refs d"
  "run_refs (with_run r d) = insert (rw_tenant_id r, rw_id r) (run_refs d)"
  by (simp_all add: run_refs_def with_run_def)

lemma db_ok_audit: "db_ok cn d \<Longrightarrow> db_ok cn (with_audit p a i n d)"
  by (simp add: db_ok_def runs_ok_def outbox_ok_def events_ok_def principals_ok_def)

lemma db_ok_event: "db_ok cn d \<Longrightarrow> (t, i) \<in> run_refs d \<Longrightarrow> db_ok cn (with_event t i y x tr n d)"
  by (auto simp: db_ok_def runs_ok_def outbox_ok_def events_ok_def principals_ok_def)
     (auto simp: with_event_def)

lemma db_ok_message: "db_ok cn d \<Longrightarrow> (t, i) \<in> run_refs d \<Longrightarrow> db_ok cn (with_message t i d)"
  by (auto simp: db_ok_def runs_ok_def outbox_ok_def events_ok_def principals_ok_def)
     (auto simp: with_message_def queued_message_def sorted_wrt_append less_Suc_eq)

lemma db_ok_workflow:
  "db_ok cn d \<Longrightarrow> cn (wr_id w) = Some (wr_id w) \<Longrightarrow> wr_id w \<notin> set (map wr_id (db_workflows d)) \<Longrightarrow>
   db_ok cn (with_workflow w d)"
  by (auto simp: db_ok_def runs_ok_def outbox_ok_def events_ok_def principals_ok_def)
     (auto simp: with_workflow_def)

lemma db_ok_run:
  assumes "db_ok cn d" and "rw_id r \<notin> set (map rw_id (db_runs d))"
    and "(rw_tenant_id r, rw_idempotency_key r) \<notin>
      set (map (\<lambda>r. (rw_tenant_id r, rw_idempotency_key r)) (db_runs d))"
    and "cn (rw_id r) = Some (rw_id r)" and "cn (rw_tenant_id r) = Some (rw_tenant_id r)"
    and "w \<in> set (db_workflows d)" and "wr_id w = rw_workflow_id r" and "wr_tenant_id w = rw_tenant_id r"
    and "tenant_exists d (rw_tenant_id r)"
  shows "db_ok cn (with_run r d)"
proof -
  have "cn (rw_workflow_id r) = Some (rw_workflow_id r)"
    using assms(1,6,7) by (auto simp: db_ok_def principals_ok_def)
  then have "runs_ok cn (with_run r d)"
    using assms by (auto simp: db_ok_def runs_ok_def) (auto simp: with_run_def)
  then show ?thesis
    using assms(1) by (auto simp: db_ok_def outbox_ok_def events_ok_def principals_ok_def)
qed

lemma db_ok_update:
  assumes "db_ok cn d" and "\<And>r. rw_id (f r) = rw_id r" and "\<And>r. rw_tenant_id (f r) = rw_tenant_id r"
    and "\<And>r. rw_idempotency_key (f r) = rw_idempotency_key r"
    and "\<And>r. rw_workflow_id (f r) = rw_workflow_id r"
  shows "db_ok cn (update_runs P f d)" and "run_refs (update_runs P f d) = run_refs d"
proof -
  show refs: "run_refs (update_runs P f d) = run_refs d"
    using map_if_same_key [of "\<lambda>r. (rw_tenant_id r, rw_id r)" f P "db_runs d"] assms(2,3)
    unfolding run_refs_def update_runs_fields by (metis (no_types, lifting) list.set_map)
  have "map rw_id (db_runs (update_runs P f d)) = map rw_id (db_runs d)"
    and "map (\<lambda>r. (rw_tenant_id r, rw_idempotency_key r)) (db_runs (update_runs P f d)) =
      map (\<lambda>r. (rw_tenant_id r, rw_idempotency_key r)) (db_runs d)"
    using assms(2-4) by simp_all
  moreover have "\<forall>r \<in> set (db_runs (update_runs P f d)). \<exists>r0 \<in> set (db_runs d).
      rw_id r = rw_id r0 \<and> rw_tenant_id r = rw_tenant_id r0 \<and> rw_workflow_id r = rw_workflow_id r0"
    using assms(2-5) by auto
  ultimately have "runs_ok cn (update_runs P f d)"
    using assms(1) unfolding db_ok_def runs_ok_def by (metis update_runs_fields(3) tenant_exists_fields(6))
  then show "db_ok cn (update_runs P f d)"
    using assms(1) refs by (simp add: db_ok_def outbox_ok_def events_ok_def principals_ok_def)
qed

end
