(* ===== verification/PostgresContract.thy ===== *)
theory PostgresContract
  imports PostgresBodies AppContract
begin

text \<open>
  The PostgreSQL store keeps the contract of a store. Its view is read off the run and event tables;
  its invariant is \<open>db_ok\<close> together with the canonical form of generated identifiers. The text
  of a request names the stored identifier it converts to.
\<close>

section \<open>How the changes show in the view\<close>

lemma db_view_cong:
  "db_runs d' = db_runs d \<Longrightarrow> db_events d' = db_events d \<Longrightarrow> db_view d' = db_view d"
  by (auto simp: db_view_def events_of_def fun_eq_iff split: option.splits)

lemma db_view_at:
  assumes "distinct (map rw_id (db_runs d))" and "row \<in> set (db_runs d)"
  shows "db_view d (rw_tenant_id row) (rw_id row) =
    Some (run_of row (events_of d (rw_tenant_id row) (rw_id row)))"
proof -
  have "find (\<lambda>r. rw_tenant_id r = rw_tenant_id row \<and> rw_id r = rw_id row) (db_runs d) = Some row"
    using assms by (intro find_unique) (auto intro: distinct_map_inj)
  then show ?thesis by (simp add: db_view_def)
qed

lemma events_of_with_event:
  "events_of (with_event t i y x tr n d) t' i' =
     events_of d t' i' @ (if t' = t \<and> i' = i
       then [toEvent \<lparr>er_tenant_id = t, er_run_id = i, er_event_type = y, er_detail = x,
                      er_trace_id = tr, er_created_at = n\<rparr>] else [])"
  by (auto simp: events_of_def with_event_def)

lemma events_of_fields [simp]:
  "events_of (with_message t i d) = events_of d" "events_of (with_audit p a j n d) = events_of d"
  "events_of (with_run r d) = events_of d" "events_of (update_runs P f d) = events_of d"
  by (simp_all add: events_of_def fun_eq_iff)

lemma db_view_new_run:
  assumes "rw_id row \<notin> set (map rw_id (db_runs d))" and "rw_tenant_id row = pr_tenantId p"
    and "d' = with_new_run p row now d"
  shows "db_view d' = (db_view d)(pr_tenantId p := (db_view d (pr_tenantId p))(rw_id row \<mapsto>
      run_of row (events_of d' (pr_tenantId p) (rw_id row))))"
    and "db_view d (pr_tenantId p) (rw_id row) = None"
proof -
  have fresh: "find (\<lambda>r. rw_tenant_id r = t \<and> rw_id r = rw_id row) (db_runs d) = None" for t
    using assms(1) by (auto simp: find_None_iff image_iff)
  show "db_view d (pr_tenantId p) (rw_id row) = None"
    by (simp add: db_view_def fresh)
  have "db_view d' t i = ((db_view d)(pr_tenantId p := (db_view d (pr_tenantId p))(rw_id row \<mapsto>
      run_of row (events_of d' (pr_tenantId p) (rw_id row))))) t i" for t i
  proof (cases "t = pr_tenantId p \<and> i = rw_id row")
    case True
    then show ?thesis
      using fresh [of t] assms(2,3)
      by (simp add: db_view_def find_append with_new_run_def) (simp add: with_run_def find_append)
  next
    case False
    then have "events_of d' t i = events_of d t i"
      using assms(3) by (auto simp: with_new_run_def events_of_with_event)
    moreover have "\<not> (rw_tenant_id row = t \<and> rw_id row = i)"
      using False assms(2) by auto
    then have "find (\<lambda>r. rw_tenant_id r = t \<and> rw_id r = i) (db_runs d') =
        find (\<lambda>r. rw_tenant_id r = t \<and> rw_id r = i) (db_runs d)"
      using assms(3) by (auto simp: with_new_run_def with_run_def find_append split: option.splits)
    ultimately show ?thesis
      using False by (auto simp: db_view_def split: option.splits)
  qed
  then show "db_view d' = (db_view d)(pr_tenantId p := (db_view d (pr_tenantId p))(rw_id row \<mapsto>
      run_of row (events_of d' (pr_tenantId p) (rw_id row))))"
    by (intro ext)
qed

text \<open>A change of one run and of its events: the tables of \<open>with_transition\<close>, and of a lease.\<close>

lemma db_view_moved:
  assumes D: "distinct (map rw_id (db_runs d))" and row: "row \<in> set (db_runs d)"
    and t: "t = rw_tenant_id row"
    and runs: "db_runs d' = map (\<lambda>r. if rw_id r = rw_id row then f r else r) (db_runs d)"
    and f: "\<And>r. rw_id (f r) = rw_id r" "\<And>r. rw_tenant_id (f r) = rw_tenant_id r"
    and others: "\<And>t' i. (t', i) \<noteq> (t, rw_id row) \<Longrightarrow> events_of d' t' i = events_of d t' i"
  shows "db_view d' = (db_view d)(t := (db_view d t)(rw_id row \<mapsto>
    run_of (f row) (events_of d' t (rw_id row))))"
proof -
  have D': "distinct (map rw_id (db_runs d'))"
    unfolding runs using D map_if_same_key [of rw_id f, OF f(1)] by metis
  have "f row \<in> set (db_runs d')"
    unfolding runs using row by auto
  from db_view_at [OF D' this] have at: "db_view d' t (rw_id row) = Some (run_of (f row) (events_of d' t (rw_id row)))"
    by (simp add: f t)
  have "db_view d' t' i = db_view d t' i" if "(t', i) \<noteq> (t, rw_id row)" for t' i
  proof -
    have "find (\<lambda>r. rw_tenant_id r = t' \<and> rw_id r = i) (db_runs d') =
        find (\<lambda>r. rw_tenant_id r = t' \<and> rw_id r = i) (db_runs d)"
    proof (cases "i = rw_id row")
      case True
      have "find (\<lambda>r. rw_tenant_id r = t' \<and> rw_id r = i) (db_runs d) = None"
        using that True D row t by (auto simp: find_None_iff dest: distinct_map_inj)
      moreover have "find (\<lambda>r. rw_tenant_id r = t' \<and> rw_id r = i) (db_runs d') = None"
        using that True D row t f
        by (auto simp: runs find_None_iff dest: distinct_map_inj split: if_splits)
      ultimately show ?thesis by simp
    next
      case False
      then have "(\<lambda>r. rw_tenant_id (if rw_id r = rw_id row then f r else r) = t' \<and>
            rw_id (if rw_id r = rw_id row then f r else r) = i) =
          (\<lambda>r. rw_tenant_id r = t' \<and> rw_id r = i)"
        using f by auto
      moreover have "(if rw_id r = rw_id row then f r else r) = r"
        if "find (\<lambda>r. rw_tenant_id r = t' \<and> rw_id r = i) (db_runs d) = Some r" for r
        using find_SomeD [OF that] False by auto
      ultimately show ?thesis
        unfolding runs find_map
        by (cases "find (\<lambda>r. rw_tenant_id r = t' \<and> rw_id r = i) (db_runs d)") auto
    qed
    then show ?thesis
      using others [OF that] by (simp add: db_view_def split: option.splits)
  qed
  with at show ?thesis
    by (intro ext) auto
qed

section \<open>Methods that run in a transaction\<close>

definition pg_ok :: "(string \<Rightarrow> uuid option) \<Rightarrow> pg world \<Rightarrow> bool" where
  "pg_ok cn w \<longleftrightarrow>
     parse_uuid (fst w) = cn \<and> (\<forall>n. cn (uuids (fst w) n) = Some (uuids (fst w) n)) \<and>
     db_ok cn (pg_db (snd w))"

definition pg_view :: "pg \<Rightarrow> run_view" where
  "pg_view p = db_view (pg_db p)"

definition pg_authentic :: "pg \<Rightarrow> principal \<Rightarrow> bool" where
  "pg_authentic p c \<longleftrightarrow>
     (\<exists>q \<in> set (db_principals (pg_db p)). pn_tenant_id q = pr_tenantId c \<and> pn_role q = pr_role c \<and>
        pn_subject q = pr_subject c)"

lemma pg_ok_env: "pg_ok cn (e, p) \<Longrightarrow> same_sources e e' \<Longrightarrow> pg_ok cn (e', p)"
  by (simp add: pg_ok_def same_sources_def)

definition tenant_session :: "pg \<Rightarrow> string \<Rightarrow> timestamp \<Rightarrow> session" where
  "tenant_session p t now = \<lparr>se_db = pg_db p, se_role = pg_role p, se_tenant = Some t, se_now = now\<rparr>"

lemma tenant_session_simps [simp]:
  "se_db (tenant_session p t now) = pg_db p" "se_tenant (tenant_session p t now) = Some t"
  "se_now (tenant_session p t now) = now" "se_role (tenant_session p t now) = pg_role p"
  by (simp_all add: tenant_session_def)

lemma withTenant_cases:
  assumes "withTenant t body (e, p) = (r, (e', p'))"
  obtains (given_up) err where "r = Inl err" and "p' = p"
  | (committed) x e1 e2 s where "same_sources e e1"
      and "body (e1, tenant_session p t (clock e (ticks e))) = (Inr x, (e2, s))"
      and "p' = p\<lparr>pg_db := se_db s\<rparr>" and "r = Inr x \<or> (\<exists>err. r = Inl err)"
  using assms unfolding withTenant_def
proof (cases rule: pg_transaction_cases)
  case given_up
  then show thesis by (rule that(1))
next
  case (committed x e2 s)
  let ?e = "e\<lparr>ticks := Suc (ticks e), roundtrips := roundtrips e + 3\<rparr>"
  have "body (?e, tenant_session p t (clock e (ticks e))) = (Inr x, (e2, s))"
    using committed(1)
    by (auto simp: io_bind_eq_Inr set_tenant_def roundtrip_Inr io_modify_def open_session_def
        tenant_session_def numeral_3_eq_3)
  moreover have "same_sources e ?e"
    by (simp add: same_sources_def)
  ultimately show thesis
    using committed(2,3) that(2) by blast
qed

lemma withTenant_law:
  assumes E: "env_keeps body"
    and step: "\<And>e1 now x e2 s. parse_uuid e1 = cn \<Longrightarrow> \<forall>n. cn (uuids e1 n) = Some (uuids e1 n) \<Longrightarrow>
      db_ok cn (pg_db p) \<Longrightarrow> body (e1, tenant_session p t now) = (Inr x, (e2, s)) \<Longrightarrow>
      db_ok cn (se_db s) \<and> Q x (se_db s)"
  shows "io_spec (\<lambda>w. pg_ok cn w \<and> snd w = p) (withTenant t body)
    (\<lambda>x w. pg_ok cn w \<and> Q x (pg_db (snd w)) \<and> snd w = p\<lparr>pg_db := pg_db (snd w)\<rparr>)
    (\<lambda>_ w. pg_ok cn w \<and> (snd w = p \<or>
       (\<exists>x. Q x (pg_db (snd w)) \<and> snd w = p\<lparr>pg_db := pg_db (snd w)\<rparr>)))"
proof -
  have keeps: "env_keeps (withTenant t body)"
    unfolding withTenant_def set_tenant_def by (intro env_rules E)
  have committed_ok: "pg_ok cn (e', p\<lparr>pg_db := se_db s\<rparr>) \<and> Q x (se_db s)"
    if "pg_ok cn (e, p)" and "same_sources e e1" and "same_sources e e'"
      and "body (e1, tenant_session p t now) = (Inr x, (e2, s))" for e e' e1 e2 s x now
    using that step [of e1 now x e2 s] by (auto simp: pg_ok_def same_sources_def)
  show ?thesis
  proof (rule io_specI, goal_cases)
    case (1 w err w')
    then obtain e e' p' where w: "w = (e, p)" "w' = (e', p')" and ok: "pg_ok cn (e, p)"
      by (cases w; cases w') auto
    note env = env_keepsD [OF keeps 1(2) [unfolded w]]
    from 1(2) [unfolded w] show ?case
    proof (cases rule: withTenant_cases)
      case given_up
      then show ?thesis using pg_ok_env [OF ok env] w by simp
    next
      case committed
      then show ?thesis using committed_ok [OF ok committed(1) env committed(2)] w by auto
    qed
  next
    case (2 w x w')
    then obtain e e' p' where w: "w = (e, p)" "w' = (e', p')" and ok: "pg_ok cn (e, p)"
      by (cases w; cases w') auto
    note env = env_keepsD [OF keeps 2(2) [unfolded w]]
    from 2(2) [unfolded w] show ?case
    proof (cases rule: withTenant_cases)
      case committed
      then show ?thesis using committed_ok [OF ok committed(1) env committed(2)] w by auto
    qed simp
  qed
qed

section \<open>The laws\<close>

lemma pool_query_cases:
  assumes "pool_query rights q (e, p) = (r, (e', p'))"
  obtains (refused) err where "same_sources e e'" and "r = Inl err" and "p' = p"
  | (performed) e1 x d where "same_sources e e'" and "same_sources e e1"
      and "q e1 ((open_session p)\<lparr>se_now := clock e (ticks e)\<rparr>) = Inr (x, d)"
      and "list_all (granted (pg_role p)) rights"
      and "p' = p\<lparr>pg_db := d\<rparr>" and "r = Inr x \<or> (\<exists>err. r = Inl err)"
proof -
  let ?e = "e\<lparr>roundtrips := Suc (roundtrips e), ticks := Suc (ticks e)\<rparr>"
  let ?q = "q ?e ((open_session p)\<lparr>se_now := clock e (ticks e)\<rparr>)"
  have eq: "pool_query rights q (e, p) =
     (case fates e (roundtrips e) of
        NotPerformed given \<Rightarrow> (Inl (Error given), (?e, p))
      | Performed \<Rightarrow>
          (if list_all (granted (pg_role p)) rights
           then (case ?q of
                   Inl err \<Rightarrow> (Inl (Error (db_message e err)), (?e, p))
                 | Inr (x, d) \<Rightarrow> (Inr x, (?e, p\<lparr>pg_db := d\<rparr>)))
           else (Inl (Error (db_message e (PermissionDenied ''permission denied''))), (?e, p)))
      | PerformedButLost given \<Rightarrow>
          (if list_all (granted (pg_role p)) rights
           then (case ?q of
                   Inl err \<Rightarrow> (Inl (Error given), (?e, p))
                 | Inr (x, d) \<Rightarrow> (Inl (Error given), (?e, p\<lparr>pg_db := d\<rparr>)))
           else (Inl (Error given), (?e, p))))"
    by (simp add: pool_query_def io_bind_def next_fate_def next_clock_def Let_def open_session_def
        split: db_fate.splits sum.splits)
  have env: "same_sources e ?e"
    by (simp add: same_sources_def)
  consider (denied) "\<not> list_all (granted (pg_role p)) rights" | (failed) err where "?q = Inl err"
    | (fine) x d where "list_all (granted (pg_role p)) rights" "?q = Inr (x, d)"
    by (cases ?q) auto
  then show thesis
  proof cases
    case denied
    with assms show thesis
      unfolding eq by (cases "fates e (roundtrips e)") (auto intro!: refused env)
  next
    case failed
    with assms show thesis
      unfolding eq by (cases "fates e (roundtrips e)") (auto intro!: refused env split: if_splits)
  next
    case fine
    show thesis
    proof (cases "fates e (roundtrips e)")
      case (NotPerformed given)
      with assms fine show thesis
        unfolding eq by (auto intro!: refused env)
    qed (use assms fine env in \<open>auto simp: eq intro!: performed [OF _ env fine(2,1)]\<close>)
  qed
qed

lemma pg_db_same [simp]: "p\<lparr>pg_db := pg_db p\<rparr> = (p :: pg)"
  by (cases p) simp

lemma pool_read_law:
  assumes "\<And>e s x d. q e s = Inr (x, d) \<Longrightarrow> d = se_db s \<and> R x (se_db s)"
  shows "io_spec (\<lambda>w. pg_ok cn w \<and> snd w = p) (pool_query rights q)
    (\<lambda>x w. pg_ok cn w \<and> snd w = p \<and> R x (pg_db p)) (\<lambda>_ w. pg_ok cn w \<and> snd w = p)"
proof (rule io_specI, goal_cases)
  case (1 w err w')
  then obtain e e' p' where w: "w = (e, p)" "w' = (e', p')" and ok: "pg_ok cn (e, p)"
    by (cases w; cases w') auto
  from 1(2) [unfolded w] show ?case
    by (cases rule: pool_query_cases)
       (use ok w pg_ok_env assms in \<open>force simp: open_session_def\<close>)+
next
  case (2 w x w')
  then obtain e e' p' where w: "w = (e, p)" "w' = (e', p')" and ok: "pg_ok cn (e, p)"
    by (cases w; cases w') auto
  from 2(2) [unfolded w] show ?case
    by (cases rule: pool_query_cases)
       (use ok w pg_ok_env assms in \<open>force simp: open_session_def\<close>)+
qed

lemma pg_ready_law:
  "io_spec (\<lambda>w. pg_ok cn w \<and> snd w = p) pg_ready
    (\<lambda>_ w. pg_ok cn w \<and> snd w = p) (\<lambda>_ w. pg_ok cn w \<and> snd w = p)"
  unfolding pg_ready_def
  by (rule io_spec_weaken [OF pool_read_law [where R = "\<lambda>_ _. True"]]) auto

lemma pg_authenticate_law:
  "io_spec (\<lambda>w. pg_ok cn w \<and> snd w = p) (pg_authenticate slug key)
    (\<lambda>x w. pg_ok cn w \<and> snd w = p \<and> (\<forall>q. x = Some q \<longrightarrow> pg_authentic p q))
    (\<lambda>_ w. pg_ok cn w \<and> snd w = p)"
proof (cases "truthy key")
  case False
  then show ?thesis
    by (auto simp: pg_authenticate_def intro: io_spec_return)
next
  case True
  let ?R = "\<lambda>rows d. \<forall>(t, r, sub, h) \<in> set rows. \<exists>q \<in> set (db_principals d).
    pn_tenant_id q = t \<and> pn_role q = r \<and> pn_subject q = sub"
  have rows: "io_spec (\<lambda>w. pg_ok cn w \<and> snd w = p)
      (pool_query [(Select, T_api_keys), (Select, T_principals), (Select, T_tenants)]
         (select_credentials slug))
      (\<lambda>x w. pg_ok cn w \<and> snd w = p \<and> ?R x (pg_db p)) (\<lambda>_ w. pg_ok cn w \<and> snd w = p)"
    by (rule pool_read_law) (auto simp: select_credentials_def Let_def)
  have "io_spec (\<lambda>w. pg_ok cn w \<and> snd w = p \<and> ?R rows (pg_db p))
      (io_bind (hashApiKey (the key)) (\<lambda>hash. io_return
        (case find (\<lambda>(t, r, sub, h). equalHash h hash) rows of
           None \<Rightarrow> None
         | Some (t, r, sub, h) \<Rightarrow> Some \<lparr>pr_tenantId = t, pr_role = r, pr_subject = sub\<rparr>)))
      (\<lambda>x w. pg_ok cn w \<and> snd w = p \<and> (\<forall>q. x = Some q \<longrightarrow> pg_authentic p q))
      (\<lambda>_ w. pg_ok cn w \<and> snd w = p)" for rows
    by (auto simp: hashApiKey_def io_spec_def io_defs pg_authentic_def split: option.splits
        dest!: find_SomeD)
  then show ?thesis
    unfolding pg_authenticate_def using True by (simp add: io_spec_bind [OF rows])
qed

lemma env_keeps_bodies [env_rules]:
  "env_keeps (pg_audit p action i)" "env_keeps (readRunInTransaction t row)"
  "env_keeps (toRun row evs)" "env_keeps (read_first t rows)" "env_keeps (record_new_run p row)"
  "env_keeps (insert_new_run p rq k)" "env_keeps (createRun_body p rq k)"
  "env_keeps (transition_body p i target ev)" "env_keeps (zod_throw :: ('s, 'a) io)"
  "env_keeps (lease_body i o' n)"
  unfolding pg_audit_def readRunInTransaction_def toRun_eq read_first_def record_new_run_def
    insert_new_run_def createRun_body_def transition_body_def zod_throw_def lease_body_def
  by (intro env_rules)+

lemma pg_authentic_canonical:
  "pg_authentic p c \<Longrightarrow> db_ok cn (pg_db p) \<Longrightarrow> cn (pr_tenantId c) = Some (pr_tenantId c)"
  by (auto simp: pg_authentic_def db_ok_def principals_ok_def)

lemma pg_createWorkflow_law:
  assumes "pg_authentic p c"
  shows "io_spec (\<lambda>w. pg_ok cn w \<and> snd w = p) (pg_createWorkflow c d)
    (\<lambda>x w. pg_ok cn w \<and> pg_view (snd w) = pg_view p \<and> sw_tenantId x = pr_tenantId c \<and> sw_definition x = d)
    (\<lambda>_ w. pg_ok cn w \<and> pg_view (snd w) = pg_view p)"
proof -
  let ?Q = "\<lambda>x d'. db_view d' = db_view (pg_db p) \<and> sw_tenantId x = pr_tenantId c \<and> sw_definition x = d"
  show ?thesis
    unfolding pg_createWorkflow_def
  proof (rule io_spec_weaken [OF withTenant_law [where Q = ?Q and cn = cn and p = p]], goal_cases)
    case 1
    show ?case by (intro env_rules)
  next
    case (2 e now x e' s)
    let ?s = "tenant_session p (pr_tenantId c) now"
    have T: "cn (pr_tenantId c) = Some (pr_tenantId c)"
      using pg_authentic_canonical [OF assms 2(3)] .
    let ?e = "e\<lparr>issued := Suc (issued e)\<rparr>"
    from 2(4) obtain row e1 s1 e2 where
      ins: "query [(Insert, T_workflows), (Select, T_workflows)]
          (insert_workflow (uuids e (issued e)) (pr_tenantId c) d) (?e, ?s) = (Inr row, (e1, s1))"
      and aud: "pg_audit c ''workflow.created'' (wr_id row) (e1, s1) = (Inr (), (e2, s))"
      and x: "x = \<lparr>sw_id = wr_id row, sw_tenantId = wr_tenant_id row, sw_definition = d,
                sw_createdAt = wr_created_at row\<rparr>"
      by (auto simp: io_bind_eq_Inr next_uuid_def io_return_def)
    from ins T 2(1) have row: "s1 = ?s\<lparr>se_db := with_workflow row (pg_db p)\<rparr>"
        "wr_id row = uuids e (issued e)" "wr_tenant_id row = pr_tenantId c"
        "wr_id row \<notin> set (map wr_id (db_workflows (pg_db p)))" "parse_uuid e1 = cn"
      by (auto simp: completed insert_workflow_def Let_def with_workflow_def)
    have "s = s1\<lparr>se_db := with_audit c ''workflow.created'' (wr_id row) now
        (with_workflow row (pg_db p))\<rparr>"
      using pg_audit_completed [OF aud, of "wr_id row"] T 2(2) row by (simp add: with_audit_def)
    moreover have "db_ok cn (with_workflow row (pg_db p))"
      using db_ok_workflow [OF 2(3)] 2(2) row by simp
    ultimately show ?case
      using x row db_ok_audit
      by (auto intro!: db_view_cong)
  qed (auto simp: pg_view_def)
qed

lemma may_insert_row:
  assumes "may_insert e d p rq k row"
  shows "rw_tenant_id row = pr_tenantId p" and "rw_idempotency_key row = k" and "rw_state row = Queued"
    and "rw_id row \<notin> set (map rw_id (db_runs d))"
    and "(pr_tenantId p, k) \<notin> set (map (\<lambda>r. (rw_tenant_id r, rw_idempotency_key r)) (db_runs d))"
    and "\<exists>w \<in> set (db_workflows d). wr_id w = rw_workflow_id row \<and> wr_tenant_id w = pr_tenantId p"
    and "tenant_exists d (pr_tenantId p)"
proof -
  from assms obtain w h now where row: "row = new_run_row (rw_id row) (pr_tenantId p) (wr_id w) k
      (rr_input rq) (wr_budget_cents w) h now" and w: "w \<in> set (db_workflows d)" "wr_tenant_id w = pr_tenantId p"
    by (auto simp: may_insert_def)
  show "rw_tenant_id row = pr_tenantId p" "rw_idempotency_key row = k" "rw_state row = Queued"
    by (subst row, simp add: new_run_row_def)+
  have "rw_workflow_id row = wr_id w"
    by (subst row, simp add: new_run_row_def)
  with w show "\<exists>w \<in> set (db_workflows d). wr_id w = rw_workflow_id row \<and> wr_tenant_id w = pr_tenantId p"
    by auto
qed (use assms in \<open>auto simp: may_insert_def\<close>)

lemma creates_ok:
  assumes "creates e now d p rq k x d'" and "db_ok cn d"
    and "cn (pr_tenantId p) = Some (pr_tenantId p)" and "\<forall>n. cn (uuids e n) = Some (uuids e n)"
  shows "db_ok cn d'"
proof -
  from assms(1) obtain row where ins: "may_insert e d p rq k row"
    and id: "cn (rw_id row) = Some (rw_id row)" and d': "d' = with_new_run p row now d"
    using assms(4) by (auto simp: creates_def)
  note row = may_insert_row [OF ins]
  have "db_ok cn (with_run row d)"
    using row id assms(2,3) db_ok_run [of cn d row] by auto
  then show ?thesis
    unfolding d' with_new_run_def
    by (intro db_ok_audit db_ok_message db_ok_event) (simp_all add: row(1))
qed

lemma creates_view:
  assumes "creates e now d p rq k x d'"
  shows "\<not> snd x \<and> run_tenantId (fst x) = pr_tenantId p \<and> run_idempotencyKey (fst x) = k \<and>
    adds_run (pr_tenantId p) (fst x) (db_view d) (db_view d')"
proof -
  from assms obtain row where ins: "may_insert e d p rq k row"
    and d': "d' = with_new_run p row now d"
    and x: "x = (run_of row (events_of d' (pr_tenantId p) (rw_id row)), False)"
    by (auto simp: creates_def)
  note row = may_insert_row [OF ins]
  show ?thesis
    using db_view_new_run [OF row(4) row(1) d'] x row by (simp add: adds_run_def)
qed

lemma replays_view:
  assumes "replays d p k x" and "distinct (map rw_id (db_runs d))"
  shows "snd x \<and> run_tenantId (fst x) = pr_tenantId p \<and> run_idempotencyKey (fst x) = k \<and>
    db_view d (pr_tenantId p) (run_id (fst x)) = Some (fst x)"
proof -
  from assms(1) obtain row where row: "row \<in> set (db_runs d)" "rw_tenant_id row = pr_tenantId p"
      "rw_idempotency_key row = k" "x = (run_of row (events_of d (pr_tenantId p) (rw_id row)), True)"
    by (auto simp: replays_def)
  show ?thesis
    using db_view_at [OF assms(2) row(1)] row by simp
qed

lemma pg_createRun_law:
  assumes "pg_authentic p c"
  shows "io_spec (\<lambda>w. pg_ok cn w \<and> snd w = p) (pg_createRun c rq k)
    (\<lambda>x w. pg_ok cn w \<and> run_tenantId (fst x) = pr_tenantId c \<and> run_idempotencyKey (fst x) = k \<and>
       (if snd x then pg_view (snd w) = pg_view p \<and>
                      pg_view p (pr_tenantId c) (run_id (fst x)) = Some (fst x)
        else adds_run (pr_tenantId c) (fst x) (pg_view p) (pg_view (snd w))))
    (\<lambda>_ w. pg_ok cn w \<and> (pg_view (snd w) = pg_view p \<or>
       (\<exists>r. adds_run (pr_tenantId c) r (pg_view p) (pg_view (snd w)))))"
proof -
  let ?Q = "\<lambda>x d'. run_tenantId (fst x) = pr_tenantId c \<and> run_idempotencyKey (fst x) = k \<and>
       (if snd x then db_view d' = db_view (pg_db p) \<and>
                      db_view (pg_db p) (pr_tenantId c) (run_id (fst x)) = Some (fst x)
        else adds_run (pr_tenantId c) (fst x) (db_view (pg_db p)) (db_view d'))"
  show ?thesis
    unfolding pg_createRun_def
  proof (rule io_spec_weaken [OF withTenant_law [where Q = ?Q and cn = cn and p = p]], goal_cases)
    case 1
    show ?case by (intro env_rules)
  next
    case (2 e now x e' s)
    let ?d = "pg_db p"
    have runs: "distinct (map rw_id (db_runs ?d))" "\<forall>r \<in> set (db_runs ?d). cn (rw_id r) = Some (rw_id r)"
      using 2(3) by (auto simp: db_ok_def runs_ok_def)
    have T: "cn (pr_tenantId c) = Some (pr_tenantId c)"
      using pg_authentic_canonical [OF assms 2(3)] .
    from createRun_completed [OF 2(4)] T runs 2(1,2) consider
      (replay) "se_db s = ?d" "replays ?d c k x" | (create) "creates e now ?d c rq k x (se_db s)"
      by auto
    then show ?case
    proof cases
      case replay
      then show ?thesis
        using 2(3) replays_view [OF replay(2) runs(1)] by simp
    next
      case create
      then show ?thesis
        using creates_ok [OF create 2(3) T 2(2)] creates_view [OF create] by auto
    qed
  qed (auto simp: pg_view_def split: if_splits)
qed

lemma pg_readRun_law:
  assumes "pg_authentic p c"
  shows "io_spec (\<lambda>w. pg_ok cn w \<and> snd w = p) (pg_readRun c i)
    (\<lambda>x w. pg_ok cn w \<and> snd w = p \<and> (\<forall>r. x = Some r \<longrightarrow>
       run_tenantId r = pr_tenantId c \<and> cn i = Some (run_id r) \<and>
       pg_view p (pr_tenantId c) (run_id r) = Some r))
    (\<lambda>_ w. pg_ok cn w \<and> snd w = p)"
proof -
  let ?Q = "\<lambda>x d'. d' = pg_db p \<and> (\<forall>r. x = Some r \<longrightarrow>
       run_tenantId r = pr_tenantId c \<and> cn i = Some (run_id r) \<and>
       db_view (pg_db p) (pr_tenantId c) (run_id r) = Some r)"
  show ?thesis
    unfolding pg_readRun_def
  proof (rule io_spec_weaken [OF withTenant_law [where Q = ?Q and cn = cn and p = p]], goal_cases)
    case 1
    show ?case by (intro env_rules)
  next
    case (2 e now x e' s)
    let ?s = "tenant_session p (pr_tenantId c) now"
    have T: "parse_uuid e (pr_tenantId c) = Some (pr_tenantId c)"
      using pg_authentic_canonical [OF assms 2(3)] 2(1) by simp
    have runs: "distinct (map rw_id (db_runs (pg_db p)))"
        "\<forall>r \<in> set (db_runs (pg_db p)). cn (rw_id r) = Some (rw_id r)"
      using 2(3) by (auto simp: db_ok_def runs_ok_def)
    from 2(4) obtain rows e1 s1 where
      1: "query [(Select, T_runs)] (select_runs_by_id i (pr_tenantId c)) (e, ?s) = (Inr rows, (e1, s1))"
      and rest: "(case rows of
          [] \<Rightarrow> io_return None
        | row # _ \<Rightarrow> io_bind (readRunInTransaction (pr_tenantId c) row) (\<lambda>run. io_return (Some run)))
          (e1, s1) = (Inr x, (e', s))"
      by (auto simp: io_bind_eq_Inr [of "query _ _"])
    note found = select_runs_by_id_completed [OF 1 T]
    show ?case
    proof (cases rows)
      case Nil
      with rest found 2(3) show ?thesis by (auto simp: io_return_def)
    next
      case (Cons row rest')
      with rest obtain run where 3: "readRunInTransaction (pr_tenantId c) row (e1, s1) = (Inr run, (e', s))"
        and x: "x = Some run"
        by (auto simp: io_bind_eq_Inr io_return_def)
      note e1 = env_keepsD [OF env_keeps_query 1]
      have row: "row \<in> set (db_runs (pg_db p))" "rw_tenant_id row = pr_tenantId c"
          "cn i = Some (rw_id row)" "visible e ?s (pr_tenantId c)" "s1 = ?s"
        using found Cons 2(1) by auto
      have "s = ?s \<and> run = run_of row (events_of (pg_db p) (pr_tenantId c) (rw_id row))"
        using readRunInTransaction_completed [OF 3] T row runs 2(1)
        by (simp add: same_sources_parse [OF e1] same_sources_visible [OF e1])
      with x row 2(3) db_view_at [OF runs(1) row(1)] show ?thesis by simp
    qed
  qed (auto simp: pg_view_def)
qed

lemma with_transition_runs:
  "db_runs (with_transition p i target ev now d) =
     map (\<lambda>r. if rw_id r = i
        then r\<lparr>rw_state := target, rw_current_step := rw_current_step r +
               (if target = Queued \<and> ev_type ev = Ev_approved then 1 else 0), rw_updated_at := now\<rparr>
        else r) (db_runs d)"
  by (simp add: with_transition_def Let_def)

lemma with_transition_events:
  "events_of (with_transition p i target ev now d) t j =
     events_of d t j @ (if t = pr_tenantId p \<and> j = i
       then [toEvent \<lparr>er_tenant_id = t, er_run_id = i, er_event_type = ev_type ev,
               er_detail = ev_detail ev, er_trace_id = ev_traceId ev, er_created_at = now\<rparr>] else [])"
  by (simp add: with_transition_def Let_def events_of_with_event)

lemma with_transition_ok:
  assumes "db_ok cn d" and "row \<in> set (db_runs d)" and "rw_tenant_id row = pr_tenantId p"
  shows "db_ok cn (with_transition p (rw_id row) target ev now d)"
proof -
  have "(pr_tenantId p, rw_id row) \<in> run_refs d"
    using assms(2,3) by (auto simp: run_refs_def image_iff intro!: bexI [of _ row])
  then show ?thesis
    unfolding with_transition_def Let_def using assms(1)
    by (auto intro!: db_ok_audit db_ok_message db_ok_event db_ok_update simp: db_ok_update(2))
qed

lemma with_transition_view:
  assumes "distinct (map rw_id (db_runs d))" and "row \<in> set (db_runs d)"
    and "rw_tenant_id row = pr_tenantId p" and "assertTransition (rw_state row) target = Inr ()"
    and "d' = with_transition p (rw_id row) target ev now d"
  shows "moves_run (pr_tenantId p) target
    (run_of (row\<lparr>rw_state := target\<rparr>) (events_of d' (pr_tenantId p) (rw_id row))) (db_view d) (db_view d')"
proof -
  let ?n = "if target = Queued \<and> ev_type ev = Ev_approved then 1 else 0"
  let ?f = "\<lambda>r. r\<lparr>rw_state := target, rw_current_step := rw_current_step r + ?n, rw_updated_at := now\<rparr>"
  have view: "db_view d' = (db_view d)(pr_tenantId p := (db_view d (pr_tenantId p))(rw_id row \<mapsto>
      run_of (?f row) (events_of d' (pr_tenantId p) (rw_id row))))"
    using assms(1-3,5)
    by (intro db_view_moved) (auto simp: with_transition_runs with_transition_events)
  have same: "run_of (?f row) evs = run_of (row\<lparr>rw_state := target\<rparr>) evs" for evs
    by (simp add: run_of_def)
  have before: "db_view d (pr_tenantId p) (rw_id row) =
      Some (run_of row (events_of d (pr_tenantId p) (rw_id row)))"
    using db_view_at [OF assms(1,2)] assms(3) by simp
  show ?thesis
    unfolding moves_run_def
    using view before assms(4,5)
    by (intro exI [of _ "run_of row (events_of d (pr_tenantId p) (rw_id row))"] exI)
       (auto simp: same with_transition_events run_of_def)
qed

lemma pg_transition_law:
  assumes "pg_authentic p c"
  shows "io_spec (\<lambda>w. pg_ok cn w \<and> snd w = p) (pg_transition c i target ev)
    (\<lambda>r w. pg_ok cn w \<and> run_tenantId r = pr_tenantId c \<and> cn i = Some (run_id r) \<and>
       moves_run (pr_tenantId c) target r (pg_view p) (pg_view (snd w)))
    (\<lambda>_ w. pg_ok cn w \<and> (pg_view (snd w) = pg_view p \<or>
       (\<exists>r. cn i = Some (run_id r) \<and>
          moves_run (pr_tenantId c) target r (pg_view p) (pg_view (snd w)))))"
proof -
  let ?Q = "\<lambda>r d'. run_tenantId r = pr_tenantId c \<and> cn i = Some (run_id r) \<and>
       moves_run (pr_tenantId c) target r (db_view (pg_db p)) (db_view d')"
  show ?thesis
    unfolding pg_transition_def
  proof (rule io_spec_weaken [OF withTenant_law [where Q = ?Q and cn = cn and p = p]], goal_cases)
    case 1
    show ?case by (intro env_rules)
  next
    case (2 e now x e' s)
    let ?d = "pg_db p"
    have runs: "distinct (map rw_id (db_runs ?d))" "\<forall>r \<in> set (db_runs ?d). cn (rw_id r) = Some (rw_id r)"
      using 2(3) by (auto simp: db_ok_def runs_ok_def)
    obtain row where row: "row \<in> set (db_runs ?d)" "rw_tenant_id row = pr_tenantId c"
        "cn i = Some (rw_id row)" "assertTransition (rw_state row) target = Inr ()"
        "se_db s = with_transition c (rw_id row) target ev now ?d"
        "x = run_of (row\<lparr>rw_state := target\<rparr>) (events_of (se_db s) (pr_tenantId c) (rw_id row))"
      using transition_completed [OF 2(4)] pg_authentic_canonical [OF assms 2(3)] runs 2(1) by auto
    show ?case
      using with_transition_ok [OF 2(3) row(1,2)] with_transition_view [OF runs(1) row(1,2,4,5)] row
      by simp
  qed (auto simp: pg_view_def)
qed

lemma pg_listAudit_law:
  assumes "pg_authentic p c"
  shows "io_spec (\<lambda>w. pg_ok cn w \<and> snd w = p) (pg_listAudit c)
    (\<lambda>xs w. pg_ok cn w \<and> snd w = p \<and> (\<forall>x \<in> set xs. au_tenantId x = pr_tenantId c))
    (\<lambda>_ w. pg_ok cn w \<and> snd w = p)"
proof -
  let ?Q = "\<lambda>xs d'. d' = pg_db p \<and> (\<forall>x \<in> set xs. au_tenantId x = pr_tenantId c)"
  show ?thesis
    unfolding pg_listAudit_def
  proof (rule io_spec_weaken [OF withTenant_law [where Q = ?Q and cn = cn and p = p]], goal_cases)
    case 1
    show ?case by (intro env_rules)
  next
    case (2 e now x e' s)
    then show ?case
      using pg_authentic_canonical [OF assms 2(3)]
      by (auto simp: completed select_audits_def Let_def io_return_def)
  qed auto
qed

interpretation pg: runtime_store_contract PostgresDurableStore pg_view "pg_ok cn" pg_authentic
  "\<lambda>i j. cn i = Some j" for cn
proof (unfold_locales, goal_cases)
  case (2 e s e')
  then show ?case by (rule pg_ok_env)
qed (simp_all add: PostgresDurableStore_def pg_ready_law pg_authenticate_law pg_createWorkflow_law
    pg_createRun_law pg_readRun_law pg_transition_law pg_listAudit_law)

end
