(* ===== verification/PostgresProperties.thy ===== *)
theory PostgresProperties
  imports PostgresContract
begin

text \<open>
  What a client of the PostgreSQL store can rely on, stated on whole method calls with every
  failure of a round trip included: transactions are all or nothing, creating a run is idempotent
  per key even across lost answers, a run enters the database together with its event, its outbox
  message and its audit record, and quotas hold.
\<close>

section \<open>Whole calls\<close>

lemma creates_sources:
  "same_sources e e1 \<Longrightarrow> creates e1 now d p rq k x d' = creates e now d p rq k x d'"
  unfolding creates_def by (simp add: may_insert_sources, simp add: same_sources_def)

lemma env_keeps_methods:
  "env_keeps (pg_createRun c rq k)" "env_keeps (pg_transition c i target ev)"
  unfolding pg_createRun_def pg_transition_def withTenant_def set_tenant_def by (intro env_rules)+

lemma pg_createRun_cases:
  assumes "pg_ok cn (e, p)" and "pg_authentic p c" and "pg_createRun c rq k (e, p) = (r, (e', p'))"
  obtains (given_up) err where "r = Inl err" and "p' = p"
  | (replay) x where "p' = p" and "replays (pg_db p) c k x" and "r = Inr x \<or> (\<exists>err. r = Inl err)"
  | (create) x where "creates e (clock e (ticks e)) (pg_db p) c rq k x (pg_db p')"
      and "p' = p\<lparr>pg_db := pg_db p'\<rparr>" and "r = Inr x \<or> (\<exists>err. r = Inl err)"
  using assms(3) unfolding pg_createRun_def
proof (cases rule: withTenant_cases)
  case (given_up err)
  then show thesis by (rule that(1))
next
  case (committed x e1 e2 s)
  have ok: "parse_uuid e = cn" "\<forall>n. cn (uuids e n) = Some (uuids e n)" "db_ok cn (pg_db p)"
    using assms(1) by (auto simp: pg_ok_def)
  then have runs: "\<forall>r \<in> set (db_runs (pg_db p)). cn (rw_id r) = Some (rw_id r)"
    by (auto simp: db_ok_def runs_ok_def)
  have e1: "parse_uuid e1 = cn" "uuids e1 = uuids e"
    using committed(1) ok(1) by (auto simp: same_sources_def)
  have "(se_db s = pg_db p \<and> replays (pg_db p) c k x) \<or>
      creates e (clock e (ticks e)) (pg_db p) c rq k x (se_db s)"
    using createRun_completed [OF committed(2)] pg_authentic_canonical [OF assms(2) ok(3)] runs ok e1
    by (simp add: creates_sources [OF committed(1)])
  then show thesis
    using committed(3,4) that(2) [of x] that(3) [of x] by auto
qed

lemma pg_createRun_ok:
  assumes "pg_ok cn (e, p)" and "pg_authentic p c" and "pg_createRun c rq k (e, p) = (r, (e', p'))"
  shows "pg_ok cn (e', p') \<and> same_sources e e' \<and> pg_authentic p' c"
proof -
  note env = env_keepsD [OF env_keeps_methods(1) assms(3)]
  have ok: "parse_uuid e = cn" "\<forall>n. cn (uuids e n) = Some (uuids e n)" "db_ok cn (pg_db p)"
    using assms(1) by (auto simp: pg_ok_def)
  have T: "cn (pr_tenantId c) = Some (pr_tenantId c)"
    using pg_authentic_canonical [OF assms(2) ok(3)] .
  from assms show ?thesis
  proof (cases rule: pg_createRun_cases)
    case (create x)
    then have "db_principals (pg_db p') = db_principals (pg_db p)"
      by (auto simp: creates_def with_new_run_def)
    then show ?thesis
      using creates_ok [OF create(1) ok(3) T] ok env assms(2)
      by (simp add: pg_ok_def pg_authentic_def same_sources_def)
  qed (use assms env pg_ok_env in auto)
qed

section \<open>A sample database\<close>

definition sample_db :: db where
  "sample_db =
     \<lparr>db_tenants = [\<lparr>tn_id = ''t'', tn_slug = ''demo-tenant''\<rparr>],
      db_principals = [\<lparr>pn_id = ''p'', pn_tenant_id = ''t'', pn_subject = ''bootstrap-owner'',
                        pn_role = Owner\<rparr>],
      db_api_keys = [\<lparr>ak_tenant_id = ''t'', ak_principal_id = ''p'', ak_key_hash = ''secret'',
                      ak_revoked_at = None\<rparr>],
      db_limits = [\<lparr>lm_tenant_id = ''t'', lm_max_active_runs = 1, lm_max_runs_per_day = 1000\<rparr>],
      db_workflows = [\<lparr>wr_id = ''w'', wr_tenant_id = ''t'', wr_name = ''research-demo'',
                       wr_version = ''v1'', wr_definition = definition_json sample_definition,
                       wr_budget_cents = 100, wr_created_at = 0\<rparr>],
      db_runs = [], db_events = [], db_outbox = [], db_outbox_seq = 1, db_audits = []\<rparr>"

definition sample_pg :: "db_role \<Rightarrow> pg" where
  "sample_pg r = \<lparr>pg_role = r, pg_db = sample_db\<rparr>"

definition sample_owner :: principal where
  "sample_owner = \<lparr>pr_tenantId = ''t'', pr_role = Owner, pr_subject = ''bootstrap-owner''\<rparr>"

definition sample_request :: run_request where
  "sample_request = \<lparr>rr_workflowId = ''w'', rr_input = [], rr_providerCredentialHandle = None\<rparr>"

definition sample_key :: string where
  "sample_key = ''0123456789abcdef''"

lemma sample_ok: "pg_ok Some (sample_env, sample_pg r)"
  by (simp add: pg_ok_def sample_pg_def sample_db_def db_ok_defs tenant_exists_def)

lemma sample_authentic: "pg_authentic (sample_pg r) sample_owner"
  by (simp add: pg_authentic_def sample_pg_def sample_db_def sample_owner_def)

definition fresh_run :: "(stored_run \<times> bool) result \<Rightarrow> bool" where
  "fresh_run r = (case r of Inl _ \<Rightarrow> False | Inr (_, replayed) \<Rightarrow> \<not> replayed)"

lemma query_performed:
  "fates e (roundtrips e) = Performed \<Longrightarrow> query rights q (e, s) =
     (let e' = e\<lparr>roundtrips := Suc (roundtrips e)\<rparr> in
      if list_all (granted (se_role s)) rights
      then (case q e' s of
              Inl err \<Rightarrow> (Inl (Error (db_message e' err)), (e', s))
            | Inr (x, d) \<Rightarrow> (Inr x, (e', s\<lparr>se_db := d\<rparr>)))
      else (Inl (Error (db_message e' (PermissionDenied ''permission denied''))), (e', s)))"
  by (simp add: query_def io_bind_def roundtrip_eq Let_def)

lemma pg_transaction_performed:
  assumes "\<And>n. fates e n = Performed" and "env_keeps body"
    and "body (e\<lparr>roundtrips := roundtrips e + 2, ticks := Suc (ticks e)\<rparr>,
      (open_session p)\<lparr>se_now := clock e (ticks e)\<rparr>) = (Inr x, (e2, s))"
  shows "pg_transaction body (e, p) =
    (Inr x, (e2\<lparr>roundtrips := Suc (roundtrips e2)\<rparr>, p\<lparr>pg_db := se_db s\<rparr>))"
proof -
  have "fates e2 = fates e"
    using env_keepsD [OF assms(2,3)] by (simp add: same_sources_def)
  with assms(1,3) show ?thesis
    by (simp add: pg_transaction_def io_bind_def roundtrip_eq begin_transaction_def next_clock_def
        io_modify_def pg_commit_def next_fate_def io_return_def)
qed

lemmas method_defs = pg_createRun_def withTenant_def pg_transaction_def begin_transaction_def
  set_tenant_def roundtrip_eq io_bind_def io_return_def io_throw_def io_modify_def next_clock_def
  next_uuid_def next_fate_def pg_commit_def open_session_def createRun_body_def insert_new_run_def
  record_new_run_def read_first_def pg_audit_def readRunInTransaction_def toRun_eq Let_def

lemmas statement_defs = select_runs_by_key_def select_limits_def select_usage_def
  select_workflows_def insert_run_def insert_event_def queue_run_outbox_def select_principal_ids_def
  insert_audit_def select_events_def as_uuid_def optional_uuid_def ensure_def rls_check_def
  visible_def tenant_exists_def new_run_row_def day_start_def active_states_def

definition sample_creation :: "(stored_run \<times> bool) result \<times> pg world" where
  "sample_creation =
     pg_createRun sample_owner sample_request sample_key (sample_env, sample_pg DarControl)"

lemma sample_createRun: "fresh_run (fst sample_creation)"
  by (simp add: sample_creation_def method_defs query_performed statement_defs sample_pg_def
      sample_db_def sample_owner_def sample_request_def sample_key_def fresh_run_def)

section \<open>Repeated creation\<close>

text \<open>A client that sends the same idempotency key again and again, whatever it was answered.\<close>

primrec createRun_attempts ::
  "principal \<Rightarrow> string \<Rightarrow> run_request list \<Rightarrow> pg world \<Rightarrow>
   (stored_run \<times> bool) result list \<times> pg world" where
  "createRun_attempts c k [] w = ([], w)"
| "createRun_attempts c k (rq # rqs) w =
     (let (r, w1) = pg_createRun c rq k w; (rs, w2) = createRun_attempts c k rqs w1 in (r # rs, w2))"

definition has_key :: "principal \<Rightarrow> string \<Rightarrow> run_row \<Rightarrow> bool" where
  "has_key c k row \<longleftrightarrow> rw_tenant_id row = pr_tenantId c \<and> rw_idempotency_key row = k"

lemma has_key_unique:
  assumes "db_ok cn d" and "row \<in> set (db_runs d)" and "has_key c k row"
    and "row' \<in> set (db_runs d)" and "has_key c k row'"
  shows "row' = row"
  using assms distinct_map_inj [of "\<lambda>r. (rw_tenant_id r, rw_idempotency_key r)" "db_runs d" row' row]
  by (auto simp: db_ok_def runs_ok_def has_key_def)

lemma createRun_key_present:
  assumes "pg_ok cn (e, p)" and "pg_authentic p c" and "pg_createRun c rq k (e, p) = (r, (e', p'))"
    and "row \<in> set (db_runs (pg_db p))" and "has_key c k row"
  shows "p' = p \<and> ((\<exists>err. r = Inl err) \<or>
    r = Inr (run_of row (events_of (pg_db p) (pr_tenantId c) (rw_id row)), True))"
  using assms(1-3)
proof (cases rule: pg_createRun_cases)
  case (replay x)
  then obtain row' where row': "row' \<in> set (db_runs (pg_db p))" "has_key c k row'"
      "x = (run_of row' (events_of (pg_db p) (pr_tenantId c) (rw_id row')), True)"
    by (auto simp: replays_def has_key_def)
  have "db_ok cn (pg_db p)"
    using assms(1) by (simp add: pg_ok_def)
  from has_key_unique [OF this assms(4,5) row'(1,2)] row'(3) replay(1,3) show ?thesis
    by auto
next
  case (create x)
  then have "(pr_tenantId c, k) \<notin> set (map (\<lambda>r. (rw_tenant_id r, rw_idempotency_key r)) (db_runs (pg_db p)))"
    by (auto simp: creates_def may_insert_def)
  then show ?thesis
    using assms(4,5) by (force simp: has_key_def)
qed auto

lemma attempts_key_present:
  assumes "createRun_attempts c k rqs (e, p) = (rs, (e', p'))"
    and "pg_ok cn (e, p)" and "pg_authentic p c"
    and "row \<in> set (db_runs (pg_db p))" and "has_key c k row"
  shows "p' = p \<and> (\<forall>r \<in> set rs. (\<exists>err. r = Inl err) \<or>
    r = Inr (run_of row (events_of (pg_db p) (pr_tenantId c) (rw_id row)), True))"
  using assms
proof (induction rqs arbitrary: e rs)
  case Nil
  then show ?case by simp
next
  case (Cons rq rqs)
  obtain r e1 p1 where 1: "pg_createRun c rq k (e, p) = (r, (e1, p1))"
    using prod_cases3 by blast
  from createRun_key_present [OF Cons.prems(2,3) 1 Cons.prems(4,5)]
  have p1: "p1 = p" and r: "(\<exists>err. r = Inl err) \<or>
      r = Inr (run_of row (events_of (pg_db p) (pr_tenantId c) (rw_id row)), True)"
    by auto
  from Cons.prems(1) 1 p1 obtain rs' where rest: "createRun_attempts c k rqs (e1, p) = (rs', (e', p'))"
    and rs: "rs = r # rs'"
    by (auto split: prod.splits)
  have "pg_ok cn (e1, p)"
    using pg_createRun_ok [OF Cons.prems(2,3) 1] p1 by simp
  from Cons.IH [OF rest this Cons.prems(3-5)] r rs show ?case by simp
qed

lemma creates_counts:
  assumes "creates e now d c rq k x d'"
  obtains row where "row \<in> set (db_runs d')" and "has_key c k row"
    and "x = (run_of row (events_of d' (pr_tenantId c) (rw_id row)), False)"
    and "length (db_runs d') = Suc (length (db_runs d))"
    and "length (db_outbox d') = Suc (length (db_outbox d))"
    and "length (db_audits d') = Suc (length (db_audits d))"
proof -
  from assms obtain row where "may_insert e d c rq k row" and d': "d' = with_new_run c row now d"
    and x: "x = (run_of row (events_of d' (pr_tenantId c) (rw_id row)), False)"
    by (auto simp: creates_def)
  with may_insert_row [OF this(1)] show thesis
    using that [of row]
    by (auto simp: with_new_run_def has_key_def with_run_def with_message_def with_audit_def
        with_event_def)
qed

lemma attempts_env: "createRun_attempts c k rqs (e, p) = (rs, (e', p')) \<Longrightarrow> same_sources e e'"
proof (induction rqs arbitrary: e p rs)
  case (Cons rq rqs)
  obtain r e1 p1 where 1: "pg_createRun c rq k (e, p) = (r, (e1, p1))"
    using prod_cases3 by blast
  with Cons.prems obtain rs' where "createRun_attempts c k rqs (e1, p1) = (rs', (e', p'))"
    by (auto split: prod.splits)
  from same_sources_trans [OF env_keepsD [OF env_keeps_methods(1) 1] Cons.IH [OF this]] show ?case .
qed simp

text \<open>From a database without the key: nothing happened yet, or exactly one attempt created the run
  and every answer that is not an error shows that run.\<close>

lemma attempts_key_absent:
  assumes "createRun_attempts c k rqs (e, p) = (rs, (e', p'))"
    and "pg_ok cn (e, p)" and "pg_authentic p c"
    and "\<forall>row \<in> set (db_runs (pg_db p)). \<not> has_key c k row"
  shows "pg_ok cn (e', p') \<and>
    ((p' = p \<and> (\<forall>r \<in> set rs. \<exists>err. r = Inl err)) \<or>
     (\<exists>row \<in> set (db_runs (pg_db p')). has_key c k row \<and>
        (\<forall>r \<in> set rs. (\<exists>err. r = Inl err) \<or> (\<exists>replayed.
           r = Inr (run_of row (events_of (pg_db p') (pr_tenantId c) (rw_id row)), replayed))) \<and>
        length (filter fresh_run rs) \<le> 1 \<and>
        length (db_runs (pg_db p')) = Suc (length (db_runs (pg_db p))) \<and>
        length (db_outbox (pg_db p')) = Suc (length (db_outbox (pg_db p))) \<and>
        length (db_audits (pg_db p')) = Suc (length (db_audits (pg_db p)))))"
  using assms
proof (induction rqs arbitrary: e rs)
  case Nil
  then show ?case by auto
next
  case (Cons rq rqs)
  obtain r e1 p1 where 1: "pg_createRun c rq k (e, p) = (r, (e1, p1))"
    using prod_cases3 by blast
  from Cons.prems(1) 1 obtain rs' where rest: "createRun_attempts c k rqs (e1, p1) = (rs', (e', p'))"
    and rs: "rs = r # rs'"
    by (auto split: prod.splits)
  have ok1: "pg_ok cn (e1, p1)" "pg_authentic p1 c"
    using pg_createRun_ok [OF Cons.prems(2,3) 1] by auto
  from Cons.prems(2,3) 1 show ?case
  proof (cases rule: pg_createRun_cases)
    case (given_up err)
    then show ?thesis
      using Cons.IH [of e1 rs'] rest ok1 Cons.prems(3,4) rs by (auto simp: fresh_run_def)
  next
    case (replay x)
    then show ?thesis
      using Cons.prems(4) by (auto simp: replays_def has_key_def)
  next
    case (create x)
    from creates_counts [OF create(1)] obtain row where row: "row \<in> set (db_runs (pg_db p1))"
        "has_key c k row" "x = (run_of row (events_of (pg_db p1) (pr_tenantId c) (rw_id row)), False)"
        "length (db_runs (pg_db p1)) = Suc (length (db_runs (pg_db p)))"
        "length (db_outbox (pg_db p1)) = Suc (length (db_outbox (pg_db p)))"
        "length (db_audits (pg_db p1)) = Suc (length (db_audits (pg_db p)))" .
    note later = attempts_key_present [OF rest ok1 row(1,2)]
    have "filter fresh_run rs' = []"
      using later by (auto simp: filter_empty_conv fresh_run_def)
    then have "length (filter fresh_run rs) \<le> 1"
      by (simp add: rs)
    moreover have "pg_ok cn (e', p')"
      using attempts_env [OF rest] ok1(1) later pg_ok_env by auto
    ultimately show ?thesis
      using later row create(3) rs by (auto intro!: bexI [of _ row])
  qed
qed

lemma has_key_filter:
  assumes "db_ok cn d" and "row \<in> set (db_runs d)" and "has_key c k row"
  shows "length (filter (has_key c k) (db_runs d)) = 1"
proof -
  have "distinct (db_runs d)"
    using assms(1) by (auto simp: db_ok_def runs_ok_def distinct_map)
  moreover have "set (filter (has_key c k) (db_runs d)) = {row}"
    using assms has_key_unique by auto
  ultimately show ?thesis
    using distinct_card [of "filter (has_key c k) (db_runs d)"] by simp
qed

section \<open>Properties\<close>

text \<open>
  C3. Exactly once per idempotency key. A client sends any number of run requests under one key,
  retrying after errors of every kind, lost commit answers included. If any answer was not an
  error, then the database holds exactly one run of the tenant under the key; all answers that are
  not errors show that same run, at most one of them as newly created; and if the key was unused
  before, then the whole series added exactly one run, one outbox message and one audit record.
\<close>
theorem pg_createRun_exactly_once:
  assumes "createRun_attempts c k rqs (e, p) = (rs, (e', p'))"
    and "pg_ok cn (e, p)" and "pg_authentic p c" and "Inr (run, replayed) \<in> set rs"
  shows "length (filter (has_key c k) (db_runs (pg_db p'))) = 1 \<and>
    (\<forall>run' replayed'. Inr (run', replayed') \<in> set rs \<longrightarrow> run' = run) \<and>
    length (filter fresh_run rs) \<le> 1 \<and>
    (filter (has_key c k) (db_runs (pg_db p)) = [] \<longrightarrow>
       length (db_runs (pg_db p')) = Suc (length (db_runs (pg_db p))) \<and>
       length (db_outbox (pg_db p')) = Suc (length (db_outbox (pg_db p))) \<and>
       length (db_audits (pg_db p')) = Suc (length (db_audits (pg_db p))))"
proof (cases "filter (has_key c k) (db_runs (pg_db p))")
  case Nil
  then have "\<forall>row \<in> set (db_runs (pg_db p)). \<not> has_key c k row"
    by (simp add: filter_empty_conv)
  from attempts_key_absent [OF assms(1-3) this] assms(4) obtain row where
    ok: "pg_ok cn (e', p')" and row: "row \<in> set (db_runs (pg_db p'))" "has_key c k row"
      "\<forall>r \<in> set rs. (\<exists>err. r = Inl err) \<or> (\<exists>replayed.
         r = Inr (run_of row (events_of (pg_db p') (pr_tenantId c) (rw_id row)), replayed))"
    and counts: "length (filter fresh_run rs) \<le> 1"
      "length (db_runs (pg_db p')) = Suc (length (db_runs (pg_db p)))"
      "length (db_outbox (pg_db p')) = Suc (length (db_outbox (pg_db p)))"
      "length (db_audits (pg_db p')) = Suc (length (db_audits (pg_db p)))"
    by auto
  have "length (filter (has_key c k) (db_runs (pg_db p'))) = 1"
    using has_key_filter [OF _ row(1,2)] ok by (auto simp: pg_ok_def)
  moreover have "run' = run" if "Inr (run', replayed') \<in> set rs" for run' replayed'
    using bspec [OF row(3) that] bspec [OF row(3) assms(4)] by simp
  ultimately show ?thesis
    using counts by blast
next
  case (Cons row rest)
  then have row: "row \<in> set (db_runs (pg_db p))" "has_key c k row"
    by (auto dest: filter_eq_ConsD_set)
  note stable = attempts_key_present [OF assms(1-3) row]
  have "filter fresh_run rs = []"
    using stable by (auto simp: filter_empty_conv fresh_run_def)
  moreover have "length (filter (has_key c k) (db_runs (pg_db p'))) = 1"
    using has_key_filter [OF _ row] assms(2) stable by (auto simp: pg_ok_def)
  moreover have "run' = run" if "Inr (run', replayed') \<in> set rs" for run' replayed'
    using bspec [OF conjunct2 [OF stable] that] bspec [OF conjunct2 [OF stable] assms(4)] by simp
  ultimately show ?thesis
    using Cons by simp
qed

theorem pg_createRun_exactly_once_witness:
  "\<exists>rs w. createRun_attempts sample_owner sample_key [sample_request, sample_request]
       (sample_env, sample_pg DarControl) = (rs, w) \<and>
     length (filter (has_key sample_owner sample_key) (db_runs (pg_db (snd w)))) = 1"
proof -
  obtain rs e' p' where run: "createRun_attempts sample_owner sample_key
      [sample_request, sample_request] (sample_env, sample_pg DarControl) = (rs, (e', p'))"
    using prod_cases3 by blast
  obtain x where "fst sample_creation = Inr (x, False)"
    using sample_createRun by (auto simp: fresh_run_def split: sum.splits)
  then have "Inr (x, False) \<in> set rs"
    using run by (auto simp: sample_creation_def split: prod.splits)
  from pg_createRun_exactly_once [OF run sample_ok sample_authentic this] run show ?thesis by simp
qed

text \<open>
  C4. The transactional outbox. A call of \<open>createRun\<close> leaves the database untouched, or adds
  in one commit the queued run, its \<open>created\<close> event, one unpublished message naming the run and
  one audit record, and nothing else. An answer with a new run implies the second, an answer with
  a replayed run the first; an error may hide either.
\<close>
theorem pg_createRun_atomic:
  assumes "pg_ok cn (e, p)" and "pg_authentic p c" and "pg_createRun c rq k (e, p) = (r, (e', p'))"
  shows "(pg_db p' = pg_db p \<and> (\<forall>run. r \<noteq> Inr (run, False))) \<or>
    (\<exists>row principal_id. let d = pg_db p; now = clock e (ticks e) in
       pg_db p' = d\<lparr>
         db_runs := db_runs d @ [row],
         db_events := db_events d @
           [\<lparr>er_tenant_id = pr_tenantId c, er_run_id = rw_id row, er_event_type = Ev_created,
             er_detail = ''Run queued'', er_trace_id = None, er_created_at = now\<rparr>],
         db_outbox := db_outbox d @
           [\<lparr>ob_id = db_outbox_seq d, ob_tenant_id = pr_tenantId c, ob_run_id = rw_id row,
             ob_subject = ''dar.run.queued'', ob_payload = [(''runId'', JStr (rw_id row))],
             ob_published_at = None, ob_attempts = 0\<rparr>],
         db_outbox_seq := Suc (db_outbox_seq d),
         db_audits := db_audits d @
           [\<lparr>ar_tenant_id = pr_tenantId c, ar_principal_id = principal_id,
             ar_action = ''run.created'', ar_resource_id = Some (rw_id row), ar_created_at = now\<rparr>]\<rparr> \<and>
       rw_id row \<notin> rw_id ` set (db_runs d) \<and> rw_tenant_id row = pr_tenantId c \<and>
       rw_state row = Queued \<and> rw_idempotency_key row = k \<and> rw_input row = rr_input rq \<and>
       rw_lease_owner row = None \<and> (\<forall>run. r \<noteq> Inr (run, True)))"
  using assms
proof (cases rule: pg_createRun_cases)
  case (create x)
  from create(1) obtain row where ins: "may_insert e (pg_db p) c rq k row"
    and d': "pg_db p' = with_new_run c row (clock e (ticks e)) (pg_db p)" and "\<not> snd x"
    by (auto simp: creates_def)
  moreover have "rw_input row = rr_input rq \<and> rw_lease_owner row = None"
    using ins by (auto simp: may_insert_def) (metis new_run_row_def run_row.select_convs)+
  ultimately show ?thesis
    using may_insert_row [OF ins] create(3) unfolding Let_def
    by (intro disjI2 exI [of _ row] exI) (auto simp: with_new_run_def with_run_def with_message_def
        with_audit_def with_event_def queued_message_def audit_row_for_def)
qed (auto simp: replays_def)

theorem pg_createRun_atomic_witness:
  "db_runs (pg_db (snd (snd sample_creation))) \<noteq> [] \<and>
   db_outbox (pg_db (snd (snd sample_creation))) \<noteq> []"
proof -
  obtain r e' p' where run: "pg_createRun sample_owner sample_request sample_key
      (sample_env, sample_pg DarControl) = (r, (e', p'))"
    using prod_cases3 by blast
  then obtain x where "r = Inr (x, False)"
    using sample_createRun by (auto simp: sample_creation_def fresh_run_def split: sum.splits)
  then show ?thesis
    using pg_createRun_atomic [OF sample_ok sample_authentic run] run
    by (auto simp: sample_creation_def Let_def)
qed

end
