(* ===== verification/WorkerPaths.thy ===== *)
theory WorkerPaths
  imports PostgresProperties
begin

text \<open>
  The paths that use the worker credential: leases on runs (\<open>claimRunLease\<close>) and the outbox
  (\<open>claimPendingOutbox\<close>, \<open>markOutboxPublished\<close>, \<open>outboxBacklog\<close>). A lease is
  exclusive until it expires, can be taken over afterwards, and its definition always re-parses;
  the control-plane role can use none of these paths.
\<close>

section \<open>Leases\<close>

lemma visible_worker [simp]: "se_role s = DarWorker \<Longrightarrow> visible e s t"
  by (simp add: visible_def)

definition with_lease :: "string \<Rightarrow> timestamp \<Rightarrow> timestamp \<Rightarrow> run_row \<Rightarrow> db \<Rightarrow> db" where
  "with_lease workerId expires now row d =
     with_event (rw_tenant_id row) (rw_id row) Ev_leased ''Worker lease acquired'' None now
       (update_runs (\<lambda>r. rw_id r = rw_id row)
          (\<lambda>r. r\<lparr>rw_state := Leased, rw_lease_owner := Some workerId,
                 rw_lease_expires_at := Some expires, rw_updated_at := now\<rparr>) d)"

lemma distinct_id_filter:
  assumes "distinct (map rw_id xs)" and "row \<in> set xs"
  shows "filter (\<lambda>r. rw_id r = rw_id row) xs = [row]"
  using assms by (induction xs) (auto simp: image_iff filter_empty_conv)

lemma lease_completed:
  assumes run: "lease_body i workerId ttl (e, s) = (Inr x, (e', s'))"
    and role: "se_role s = DarWorker" and ok: "db_ok cn (se_db s)" and cn: "parse_uuid e = cn"
  shows "(x = None \<and> se_db s' = se_db s \<and>
      (\<forall>r \<in> set (db_runs (se_db s)). cn i = Some (rw_id r) \<longrightarrow> \<not> claimable (se_now s) r)) \<or>
    (\<exists>row w. row \<in> set (db_runs (se_db s)) \<and> cn i = Some (rw_id row) \<and> claimable (se_now s) row \<and>
       w \<in> set (db_workflows (se_db s)) \<and> wr_id w = rw_workflow_id row \<and>
       x = Some (row, w, [se_now s + 1000 * ttl]) \<and>
       se_db s' = with_lease workerId (se_now s + 1000 * ttl) (se_now s) row (se_db s))"
proof -
  let ?d = "se_db s" and ?now = "se_now s"
  have runs: "distinct (map rw_id (db_runs ?d))"
      "\<forall>r \<in> set (db_runs ?d). cn (rw_tenant_id r) = Some (rw_tenant_id r) \<and>
         cn (rw_workflow_id r) = Some (rw_workflow_id r)"
    using ok by (auto simp: db_ok_def runs_ok_def)
  from run obtain rows e1 s1 where
    1: "query [(Select, T_runs), (Update, T_runs)] (select_claimable i) (e, s) = (Inr rows, (e1, s1))"
    and rest: "(case rows of
       [] \<Rightarrow> io_return None
     | row # _ \<Rightarrow>
         io_bind (query [(Select, T_workflows)]
                    (select_workflows (rw_workflow_id row) (rw_tenant_id row))) (\<lambda>workflows.
         case workflows of
           [] \<Rightarrow> io_throw (Error ''Workflow definition missing for leased run'')
         | workflow # _ \<Rightarrow>
             io_bind (query [(Update, T_runs), (Select, T_runs)] (take_lease workerId ttl i)) (\<lambda>expires.
             io_bind (query [(Insert, T_events)]
                        (insert_event (rw_tenant_id row) i Ev_leased ''Worker lease acquired''
                           None)) (\<lambda>_.
             io_return (Some (row, workflow, expires)))))) (e1, s1) = (Inr x, (e', s'))"
    unfolding lease_body_def by (auto simp: io_bind_eq_Inr [of "query _ _"])
  note e1 = env_keepsD [OF env_keeps_query 1]
  obtain j where j: "cn i = Some j" "s1 = s"
    and rows: "rows = filter (\<lambda>r. rw_id r = j \<and> claimable ?now r) (db_runs ?d)"
    using 1 role cn by (auto simp: completed select_claimable_def)
  show ?thesis
  proof (cases rows)
    case Nil
    then show ?thesis
      using rest j rows by (auto simp: io_return_def filter_empty_conv)
  next
    case (Cons row rest')
    then have row: "row \<in> set (db_runs ?d)" "rw_id row = j" "claimable ?now row"
      using rows filter_eq_ConsD_set [of _ "db_runs ?d" row rest'] by auto
    from rest [unfolded Cons list.case io_bind_first_eq_Inr] j obtain w ws e2 s2 expires e3 s3 where
      2: "query [(Select, T_workflows)] (select_workflows (rw_workflow_id row) (rw_tenant_id row)) (e1, s)
          = (Inr (w # ws), (e2, s2))"
      and 3: "query [(Update, T_runs), (Select, T_runs)] (take_lease workerId ttl i) (e2, s2)
          = (Inr expires, (e3, s3))"
      and 4: "query [(Insert, T_events)] (insert_event (rw_tenant_id row) i Ev_leased
          ''Worker lease acquired'' None) (e3, s3) = (Inr (), (e', s'))"
      and x: "x = Some (row, w, expires)"
      by (auto simp: io_bind_eq_Inr io_return_def)
    note e2 = same_sources_trans [OF e1 env_keepsD [OF env_keeps_query 2]]
    note e3 = same_sources_trans [OF e2 env_keepsD [OF env_keeps_query 3]]
    have w: "s2 = s" "w \<in> set (db_workflows ?d)" "wr_id w = rw_workflow_id row"
      using select_workflows_completed [OF 2] runs(2) row(1) cn
      by (auto simp: same_sources_parse [OF e1])
    let ?d3 = "update_runs (\<lambda>r. rw_id r = rw_id row)
        (\<lambda>r. r\<lparr>rw_state := Leased, rw_lease_owner := Some workerId,
             rw_lease_expires_at := Some (?now + 1000 * ttl), rw_updated_at := ?now\<rparr>) ?d"
    have "expires = [?now + 1000 * ttl] \<and> s3 = s\<lparr>se_db := ?d3\<rparr>"
      using 3 w j row role cn distinct_id_filter [OF runs(1) row(1)]
      by (auto simp: completed take_lease_def Let_def same_sources_parse [OF e2])
    moreover from this have "s' = s3\<lparr>se_db := with_lease workerId (?now + 1000 * ttl) ?now row ?d\<rparr>"
      using insert_event_completed [OF 4, of "rw_tenant_id row" j] runs(2) row j cn
      by (auto simp: same_sources_parse [OF e3] with_lease_def)
    ultimately show ?thesis
      using x row w j by auto
  qed
qed

lemma lease_ok:
  assumes "db_ok cn d" and "row \<in> set (db_runs d)"
  shows "db_ok cn (with_lease workerId expires now row d)"
proof -
  have "(rw_tenant_id row, rw_id row) \<in> run_refs d"
    using assms(2) by (auto simp: run_refs_def)
  then show ?thesis
    unfolding with_lease_def using assms(1)
    by (auto intro!: db_ok_event db_ok_update simp: db_ok_update(2))
qed

definition lease_of ::
  "string \<Rightarrow> timestamp \<Rightarrow> run_row \<Rightarrow> workflow_definition \<Rightarrow> db \<Rightarrow> worker_lease" where
  "lease_of workerId expires row definition d =
     \<lparr>wl_run = run_of (row\<lparr>rw_state := Leased\<rparr>) (events_of d (rw_tenant_id row) (rw_id row)),
      wl_definition = definition, wl_currentStep = rw_current_step row, wl_leaseOwner = workerId,
      wl_leaseExpiresAt = expires\<rparr>"

lemma lease_view_result:
  assumes "lease_view workerId row w [expires] (e, p) = (r, (e', p'))"
    and "pg_role p = DarWorker" and "parse_uuid e = cn"
    and "cn (rw_tenant_id row) = Some (rw_tenant_id row)" and "cn (rw_id row) = Some (rw_id row)"
  shows "p' = p \<and> (\<forall>l. r = Inr l \<longrightarrow> (\<exists>definition.
    workflowDefinitionSchema (Some (wr_definition w)) = Some definition \<and>
    l = Some (lease_of workerId expires row definition (pg_db p))))"
proof -
  let ?q = "pool_query [(Select, T_events)] (select_events (rw_tenant_id row) (rw_id row))"
  obtain y e1 p1 where q: "?q (e, p) = (y, (e1, p1))"
    using prod_cases3 by blast
  from q have "p1 = p \<and> (\<forall>evs. y = Inr evs \<longrightarrow>
      map toEvent evs = events_of (pg_db p) (rw_tenant_id row) (rw_id row))"
  proof (cases rule: pool_query_cases)
    case (performed e2 evs d)
    then show ?thesis
      using assms(2-5)
      by (auto simp: select_events_def as_uuid_Inr events_of_def open_session_def same_sources_def)
  qed simp
  then show ?thesis
    using assms(1) q
    by (cases y)
       (auto simp: lease_view_def readRunSystem_def io_bind_def toRun_eq io_return_def zod_throw_def
         io_env_def io_throw_def lease_of_def split: option.splits)
qed

lemma env_keeps_pool [env_rules]: "env_keeps (pool_query rights q)"
proof -
  have "same_sources e e'" if "pool_query rights q (e, p) = (r, (e', p'))" for e p r e' p'
    using that by (cases rule: pool_query_cases)
  then show ?thesis
    unfolding env_keeps_def by (metis prod.collapse)
qed

lemma env_keeps_claim: "env_keeps (claimRunLease i workerId ttl)"
  unfolding claimRunLease_def lease_view_def readRunSystem_def
  by (intro env_rules)

lemma claimRunLease_cases:
  assumes "pg_ok cn (e, p)" and "pg_role p = DarWorker"
    and "claimRunLease i workerId ttl (e, p) = (r, (e', p'))"
  obtains (given_up) err where "r = Inl err" and "p' = p"
  | (none) "p' = p" and "r = Inr None \<or> (\<exists>err. r = Inl err)"
      and "\<forall>row \<in> set (db_runs (pg_db p)). cn i = Some (rw_id row) \<longrightarrow> \<not> claimable (clock e (ticks e)) row"
  | (leased) row w where "row \<in> set (db_runs (pg_db p))" and "cn i = Some (rw_id row)"
      and "claimable (clock e (ticks e)) row" and "w \<in> set (db_workflows (pg_db p))"
      and "wr_id w = rw_workflow_id row"
      and "p' = p\<lparr>pg_db := with_lease workerId (clock e (ticks e) + 1000 * ttl) (clock e (ticks e)) row (pg_db p)\<rparr>"
      and "\<forall>l. r = Inr l \<longrightarrow> (\<exists>definition.
        workflowDefinitionSchema (Some (wr_definition w)) = Some definition \<and>
        l = Some (lease_of workerId (clock e (ticks e) + 1000 * ttl) row definition (pg_db p')))"
proof -
  let ?now = "clock e (ticks e)"
  obtain y e1 p1 where t: "pg_transaction (lease_body i workerId ttl) (e, p) = (y, (e1, p1))"
    using prod_cases3 by blast
  have env: "same_sources e e1"
    using env_keepsD [OF env_keeps_transaction [OF env_keeps_bodies(10)] t] .
  have ok: "parse_uuid e = cn" "db_ok cn (pg_db p)"
    using assms(1) by (auto simp: pg_ok_def)
  from t show thesis
  proof (cases rule: pg_transaction_cases)
    case (given_up err)
    then show thesis
      using that(1) [of err] assms(3) t by (simp add: claimRunLease_def io_bind_def)
  next
    case (committed x e2 s)
    from lease_completed [OF committed(1), of cn] assms(2) ok consider
      (idle) "x = None" "se_db s = pg_db p"
        "\<forall>r \<in> set (db_runs (pg_db p)). cn i = Some (rw_id r) \<longrightarrow> \<not> claimable ?now r"
      | (taken) row w where "row \<in> set (db_runs (pg_db p))" "cn i = Some (rw_id row)"
        "claimable ?now row" "w \<in> set (db_workflows (pg_db p))" "wr_id w = rw_workflow_id row"
        "x = Some (row, w, [?now + 1000 * ttl])"
        "se_db s = with_lease workerId (?now + 1000 * ttl) ?now row (pg_db p)"
      by (auto simp: open_session_def)
    then show thesis
    proof cases
      case idle
      then have "p1 = p"
        using committed(2) by simp
      then show thesis
        using that(1,2) idle committed(3) assms(3) t
        by (auto simp: claimRunLease_def io_bind_def io_return_def)
    next
      case taken
      have canonical: "cn (rw_tenant_id row) = Some (rw_tenant_id row)" "cn (rw_id row) = Some (rw_id row)"
        using ok(2) taken(1) by (auto simp: db_ok_def runs_ok_def)
      have p1: "p1 = p\<lparr>pg_db := with_lease workerId (?now + 1000 * ttl) ?now row (pg_db p)\<rparr>"
        using committed(2) taken(7) by simp
      have result: "p' = p1 \<and> (\<forall>l. r = Inr l \<longrightarrow> (\<exists>definition.
          workflowDefinitionSchema (Some (wr_definition w)) = Some definition \<and>
          l = Some (lease_of workerId (?now + 1000 * ttl) row definition (pg_db p'))))"
      proof (cases y)
        case (Inl err)
        then show ?thesis
          using assms(3) t by (auto simp: claimRunLease_def io_bind_def)
      next
        case (Inr z)
        then have z: "z = Some (row, w, [?now + 1000 * ttl])"
          using committed(3) taken(6) by auto
        obtain v e3 p3 where view: "lease_view workerId row w [?now + 1000 * ttl] (e1, p1) = (v, (e3, p3))"
          using prod_cases3 by blast
        have v: "p3 = p1" "\<forall>l. v = Inr l \<longrightarrow> (\<exists>definition.
            workflowDefinitionSchema (Some (wr_definition w)) = Some definition \<and>
            l = Some (lease_of workerId (?now + 1000 * ttl) row definition (pg_db p1)))"
          using lease_view_result [OF view, of cn] p1 assms(2) canonical ok(1) env
          by (auto simp: same_sources_parse)
        show ?thesis
        proof (cases v)
          case Inl
          then have "rollback_and_rethrow (projl v) (e3, p3) = (r, (e', p'))"
            using assms(3) t Inr z view by (simp add: claimRunLease_def io_bind_def io_catch_def)
          from rollback_result [OF this] v(1) show ?thesis by auto
        next
          case (Inr l)
          then show ?thesis
            using assms(3) t \<open>y = Inr z\<close> z view v
            by (auto simp: claimRunLease_def io_bind_def io_catch_def)
        qed
      qed
      show thesis
        using that(3) [OF taken(1-5)] result p1 by auto
    qed
  qed
qed

text \<open>Every stored definition is the JSON of a definition the schema accepts.\<close>

definition definitions_ok :: "db \<Rightarrow> bool" where
  "definitions_ok d \<longleftrightarrow> (\<forall>w \<in> set (db_workflows d).
     \<exists>definition. valid_definition definition \<and> wr_definition w = definition_json definition)"

lemma pool_query_performed:
  assumes "fates e (roundtrips e) = Performed" and "list_all (granted (pg_role p)) rights"
    and "q (e\<lparr>roundtrips := Suc (roundtrips e), ticks := Suc (ticks e)\<rparr>)
      ((open_session p)\<lparr>se_now := clock e (ticks e)\<rparr>) = Inr (x, d)"
  shows "pool_query rights q (e, p) =
    (Inr x, (e\<lparr>roundtrips := Suc (roundtrips e), ticks := Suc (ticks e)\<rparr>, p\<lparr>pg_db := d\<rparr>))"
  using assms
  by (simp add: pool_query_def io_bind_def next_fate_def next_clock_def Let_def open_session_def)

lemma lease_body_performed:
  assumes "\<And>n. fates e n = Performed" and "se_role s = DarWorker" and "db_ok cn (se_db s)"
    and "parse_uuid e = cn" and "row \<in> set (db_runs (se_db s))" and "cn i = Some (rw_id row)"
    and "claimable (se_now s) row"
  shows "\<exists>w e' s'. lease_body i workerId ttl (e, s) =
    (Inr (Some (row, w, [se_now s + 1000 * ttl])), (e', s')) \<and> w \<in> set (db_workflows (se_db s)) \<and>
    se_db s' = with_lease workerId (se_now s + 1000 * ttl) (se_now s) row (se_db s)"
proof -
  let ?d = "se_db s"
  have runs: "distinct (map rw_id (db_runs ?d))" "cn (rw_tenant_id row) = Some (rw_tenant_id row)"
      "cn (rw_workflow_id row) = Some (rw_workflow_id row)" "tenant_exists ?d (rw_tenant_id row)"
      "\<exists>w \<in> set (db_workflows ?d). wr_id w = rw_workflow_id row \<and> wr_tenant_id w = rw_tenant_id row"
    using assms(3,5) by (auto simp: db_ok_def runs_ok_def)
  have rows: "filter (\<lambda>r. rw_id r = rw_id row \<and> claimable (se_now s) r) (db_runs ?d) = [row]"
  proof -
    have "filter (\<lambda>r. rw_id r = rw_id row \<and> claimable (se_now s) r) (db_runs ?d) =
        filter (claimable (se_now s)) (filter (\<lambda>r. rw_id r = rw_id row) (db_runs ?d))"
      by (auto intro: filter_cong)
    then show ?thesis
      using distinct_id_filter [OF runs(1) assms(5)] assms(7) by simp
  qed
  obtain w ws where ws: "filter (\<lambda>w. wr_id w = rw_workflow_id row \<and> wr_tenant_id w = rw_tenant_id row)
      (db_workflows ?d) = w # ws"
    using runs(5)
    by (cases "filter (\<lambda>w. wr_id w = rw_workflow_id row \<and> wr_tenant_id w = rw_tenant_id row)
          (db_workflows ?d)") (auto simp: filter_empty_conv)
  then have w: "w \<in> set (db_workflows ?d)"
    by (auto dest: filter_eq_ConsD_set)
  have mem: "rw_id row \<in> rw_id ` (f ` (set (db_runs ?d) \<inter> {r. rw_id r = rw_id row}) \<union> Y)"
    if "\<And>r. rw_id (f r) = rw_id r" for f Y
    using assms(5) that by (intro image_eqI [of _ _ "f row"]) auto
  show ?thesis
    using w assms(1,2,4,5,6) runs rows ws distinct_id_filter [OF runs(1) assms(5)]
    by (simp add: lease_body_def io_bind_def query_performed select_claimable_def as_uuid_def
        select_workflows_def take_lease_def insert_event_def Let_def rls_check_def ensure_def
        io_return_def with_lease_def with_event_def) (rule mem, simp)
qed

lemma lease_view_performed:
  assumes "\<And>n. fates e n = Performed" and "pg_role p = DarWorker" and "parse_uuid e = cn"
    and "cn (rw_tenant_id row) = Some (rw_tenant_id row)" and "cn (rw_id row) = Some (rw_id row)"
    and "workflowDefinitionSchema (Some (wr_definition w)) = Some definition"
  shows "\<exists>e'. lease_view workerId row w [expires] (e, p) =
    (Inr (Some (lease_of workerId expires row definition (pg_db p))), (e', p))"
proof -
  let ?s = "(open_session p)\<lparr>se_now := clock e (ticks e)\<rparr>"
  let ?e = "e\<lparr>roundtrips := Suc (roundtrips e), ticks := Suc (ticks e)\<rparr>"
  have "select_events (rw_tenant_id row) (rw_id row) ?e ?s =
      Inr (filter (\<lambda>x. er_tenant_id x = rw_tenant_id row \<and> er_run_id x = rw_id row)
        (db_events (pg_db p)), pg_db p)"
    using assms(2-5) by (simp add: select_events_def as_uuid_def open_session_def)
  then have "pool_query [(Select, T_events)] (select_events (rw_tenant_id row) (rw_id row)) (e, p) =
      (Inr (filter (\<lambda>x. er_tenant_id x = rw_tenant_id row \<and> er_run_id x = rw_id row)
        (db_events (pg_db p))), (?e, p))"
    using assms(1,2) by (subst pool_query_performed) auto
  then show ?thesis
    using assms(6)
    by (simp add: lease_view_def readRunSystem_def io_bind_def toRun_eq io_return_def lease_of_def
        events_of_def)
qed

lemma claimRunLease_performed:
  assumes "pg_ok cn (e, p)" and "pg_role p = DarWorker" and "definitions_ok (pg_db p)"
    and "\<forall>n. fates e n = Performed" and "row \<in> set (db_runs (pg_db p))"
    and "cn i = Some (rw_id row)" and "claimable (clock e (ticks e)) row"
    and "p' = p\<lparr>pg_db := with_lease workerId (clock e (ticks e) + 1000 * ttl) (clock e (ticks e)) row (pg_db p)\<rparr>"
  shows "\<exists>wd w e'. claimRunLease i workerId ttl (e, p) =
      (Inr (Some (lease_of workerId (clock e (ticks e) + 1000 * ttl) row wd (pg_db p'))), (e', p')) \<and>
    w \<in> set (db_workflows (pg_db p)) \<and> wr_definition w = definition_json wd"
proof -
  let ?now = "clock e (ticks e)" and ?x = "clock e (ticks e) + 1000 * ttl"
  let ?p' = "p\<lparr>pg_db := with_lease workerId ?x ?now row (pg_db p)\<rparr>"
  have ok: "parse_uuid e = cn" "db_ok cn (pg_db p)"
    using assms(1) by (auto simp: pg_ok_def)
  have canonical: "cn (rw_tenant_id row) = Some (rw_tenant_id row)" "cn (rw_id row) = Some (rw_id row)"
    using ok(2) assms(5) by (auto simp: db_ok_def runs_ok_def)
  let ?e1 = "e\<lparr>roundtrips := roundtrips e + 2, ticks := Suc (ticks e)\<rparr>"
  obtain w e2 s where body: "lease_body i workerId ttl (?e1, (open_session p)\<lparr>se_now := ?now\<rparr>) =
      (Inr (Some (row, w, [?x])), (e2, s))" and w: "w \<in> set (db_workflows (pg_db p))"
      and s: "se_db s = with_lease workerId ?x ?now row (pg_db p)"
    using lease_body_performed [of ?e1 "(open_session p)\<lparr>se_now := ?now\<rparr>" cn row i workerId ttl]
      assms(2,4-7) ok by (auto simp: open_session_def)
  have t: "pg_transaction (lease_body i workerId ttl) (e, p) =
      (Inr (Some (row, w, [?x])), (e2\<lparr>roundtrips := Suc (roundtrips e2)\<rparr>, ?p'))"
    using pg_transaction_performed [OF _ env_keeps_bodies(10) body] assms(4) s by simp
  obtain wd where wd: "valid_definition wd" "wr_definition w = definition_json wd"
    using assms(3) w by (auto simp: definitions_ok_def)
  let ?e2 = "e2\<lparr>roundtrips := Suc (roundtrips e2)\<rparr>"
  have env: "same_sources ?e1 e2"
    using env_keepsD [OF env_keeps_bodies(10) body] .
  obtain e3 where view: "lease_view workerId row w [?x] (?e2, ?p') =
      (Inr (Some (lease_of workerId ?x row wd (pg_db ?p'))), (e3, ?p'))"
    using lease_view_performed [of ?e2 ?p' cn row w wd workerId ?x] env assms(2,4) ok(1) canonical
      workflowDefinitionSchema_definition_json [OF wd(1)] wd(2)
    by (auto simp: same_sources_def)
  have "claimRunLease i workerId ttl (e, p) =
      (Inr (Some (lease_of workerId ?x row wd (pg_db ?p'))), (e3, ?p'))"
    using t view by (simp add: claimRunLease_def io_bind_def io_catch_def)
  then show ?thesis
    using w wd(2) assms(8) by auto
qed

section \<open>Properties\<close>


text \<open>
  A claimable run can be claimed: with every round trip performed, a worker that claims a
  queued run, or a run whose lease expired, gets a lease with the stored definition re-parsed,
  the run in state \<open>leased\<close> with its current step, and the row is locked until the expiry.
\<close>
theorem claimRunLease_succeeds:
  assumes "pg_ok cn (e, p)" and "pg_role p = DarWorker" and "definitions_ok (pg_db p)"
    and "\<forall>n. fates e n = Performed" and "row \<in> set (db_runs (pg_db p))"
    and "cn i = Some (rw_id row)" and "claimable (clock e (ticks e)) row"
  shows "\<exists>lease e' p'. claimRunLease i workerId ttl (e, p) = (Inr (Some lease), (e', p')) \<and>
    run_id (wl_run lease) = rw_id row \<and> run_state (wl_run lease) = Leased \<and>
    wl_currentStep lease = rw_current_step row \<and> wl_leaseOwner lease = workerId \<and>
    wl_leaseExpiresAt lease = clock e (ticks e) + 1000 * ttl \<and>
    (\<exists>w \<in> set (db_workflows (pg_db p)). wr_definition w = definition_json (wl_definition lease)) \<and>
    (\<exists>row' \<in> set (db_runs (pg_db p')). rw_id row' = rw_id row \<and> rw_state row' = Leased \<and>
       rw_lease_owner row' = Some workerId \<and>
       rw_lease_expires_at row' = Some (clock e (ticks e) + 1000 * ttl))"
proof -
  let ?now = "clock e (ticks e)"
  let ?p' = "p\<lparr>pg_db := with_lease workerId (?now + 1000 * ttl) ?now row (pg_db p)\<rparr>"
  have "\<exists>row' \<in> set (db_runs (pg_db ?p')). rw_id row' = rw_id row \<and> rw_state row' = Leased \<and>
      rw_lease_owner row' = Some workerId \<and> rw_lease_expires_at row' = Some (?now + 1000 * ttl)"
    using assms(5)
    by (intro bexI [of _ "row\<lparr>rw_state := Leased, rw_lease_owner := Some workerId,
          rw_lease_expires_at := Some (?now + 1000 * ttl), rw_updated_at := ?now\<rparr>"])
       (auto simp: with_lease_def)
  with claimRunLease_performed [OF assms refl, of workerId ttl] show ?thesis
    by (fastforce simp: lease_of_def)
qed

text \<open>A sample with one queued run.\<close>

definition sample_run_row :: run_row where
  "sample_run_row = new_run_row ''r'' ''t'' ''w'' sample_key [] 100 None 0"

definition sample_queue :: pg where
  "sample_queue = \<lparr>pg_role = DarWorker, pg_db = sample_db\<lparr>db_runs := [sample_run_row],
     db_outbox := [\<lparr>ob_id = 1, ob_tenant_id = ''t'', ob_run_id = ''r'', ob_subject = ''dar.run.queued'',
       ob_payload = [(''runId'', JStr ''r'')], ob_published_at = None, ob_attempts = 0\<rparr>],
     db_outbox_seq := 2\<rparr>\<rparr>"

lemma sample_queue_ok: "pg_ok Some (sample_env, sample_queue)"
  by (simp add: pg_ok_def sample_queue_def sample_db_def db_ok_defs tenant_exists_def
      sample_run_row_def new_run_row_def)

lemma sample_queue_definitions: "definitions_ok (pg_db sample_queue)"
  using sample_definition_valid
  by (auto simp: definitions_ok_def sample_queue_def sample_db_def)

lemma sample_queue_row:
  "sample_run_row \<in> set (db_runs (pg_db sample_queue))" "pg_role sample_queue = DarWorker"
  "rw_id sample_run_row = ''r''" "claimable n sample_run_row"
  by (simp_all add: sample_queue_def sample_run_row_def new_run_row_def claimable_def)

theorem claimRunLease_succeeds_witness:
  "\<exists>lease w. claimRunLease ''r'' ''worker'' 30 (sample_env, sample_queue) = (Inr (Some lease), w) \<and>
     run_state (wl_run lease) = Leased"
  using claimRunLease_succeeds [OF sample_queue_ok sample_queue_row(2) sample_queue_definitions _
      sample_queue_row(1), of "''r''" "''worker''" 30]
  by (auto simp: sample_queue_row)


section \<open>Separation of the two database roles\<close>

definition refused :: "(pg, 'a) io \<Rightarrow> pg \<Rightarrow> bool" where
  "refused m p \<longleftrightarrow> (\<forall>e r e' p'. m (e, p) = (r, (e', p')) \<longrightarrow> p' = p \<and> (\<exists>err. r = Inl err))"

text \<open>A body that never runs to its end in a session of a role.\<close>

definition stuck :: "db_role \<Rightarrow> (session, 'a) io \<Rightarrow> bool" where
  "stuck role m \<longleftrightarrow> (\<forall>e s x w. se_role s = role \<longrightarrow> m (e, s) \<noteq> (Inr x, w))"

definition keeps_role :: "(session, 'a) io \<Rightarrow> bool" where
  "keeps_role m \<longleftrightarrow> (\<forall>e s r e' s'. m (e, s) = (r, (e', s')) \<longrightarrow> se_role s' = se_role s)"

lemma stuck_query: "\<not> list_all (granted role) rights \<Longrightarrow> stuck role (query rights q)"
  by (auto simp: stuck_def query_Inr)

lemma stuck_bind: "stuck role m \<Longrightarrow> stuck role (io_bind m f)"
  by (auto simp: stuck_def io_bind_eq_Inr)

lemma stuck_bind_later:
  assumes "keeps_role m" and "\<And>x. stuck role (f x)"
  shows "stuck role (io_bind m f)"
  using assms by (fastforce simp: stuck_def keeps_role_def io_bind_eq_Inr)

lemma stuck_throw: "stuck role (io_throw err)"
  by (simp add: stuck_def io_throw_def)

lemma keeps_role_simple:
  "keeps_role (query rights q)" "keeps_role next_uuid" "keeps_role (io_return x)"
  "keeps_role (set_tenant t)"
  by (auto simp: keeps_role_def query_def io_defs roundtrip_eq set_tenant_def
      split: db_fate.splits sum.splits prod.splits if_splits)

lemma refused_transaction: "stuck (pg_role p) body \<Longrightarrow> refused (pg_transaction body) p"
  unfolding refused_def
proof (intro allI impI)
  fix e r e' p'
  assume "stuck (pg_role p) body" and "pg_transaction body (e, p) = (r, (e', p'))"
  from this(2) show "p' = p \<and> (\<exists>err. r = Inl err)"
  proof (cases rule: pg_transaction_cases)
    case (committed x e2 s)
    then show ?thesis
      using \<open>stuck (pg_role p) body\<close> by (auto simp: stuck_def open_session_def)
  qed simp
qed

lemma refused_withTenant: "stuck (pg_role p) body \<Longrightarrow> refused (withTenant t body) p"
  unfolding withTenant_def
  by (intro refused_transaction stuck_bind_later keeps_role_simple)

lemma refused_bind: "refused m p \<Longrightarrow> refused (io_bind m f) p"
  unfolding refused_def io_bind_def by (auto split: prod.splits sum.splits) blast+

lemma refused_pool:
  assumes "\<not> list_all (granted (pg_role p)) rights"
  shows "refused (pool_query rights q) p"
  unfolding refused_def
proof (intro allI impI)
  fix e r e' p'
  assume "pool_query rights q (e, p) = (r, (e', p'))"
  then show "p' = p \<and> (\<exists>err. r = Inl err)"
    by (cases rule: pool_query_cases) (use assms in auto)
qed

lemma stuck_transition: "stuck DarWorker (transition_body c i target ev)"
  unfolding transition_body_def
proof (rule stuck_bind_later [OF keeps_role_simple(1)])
  fix locked :: "run_row list"
  have audit: "stuck DarWorker (pg_audit c action j)" for action j
    unfolding pg_audit_def by (intro stuck_bind stuck_query) simp
  show "stuck DarWorker (case locked of
       [] \<Rightarrow> io_throw (Error ''Run not found'')
     | current # _ \<Rightarrow>
         (case runStateSchema (run_state_name (rw_state current)) of
            None \<Rightarrow> zod_throw
          | Some before \<Rightarrow>
              (case assertTransition before target of
                 Inl err \<Rightarrow> io_throw err
               | Inr _ \<Rightarrow>
                   (let approving = (target = Queued \<and> ev_type ev = Ev_approved) in
                    io_bind (query [(Update_run_state, T_runs), (Select, T_runs)]
                               (update_run_state target (if approving then 1 else 0) i)) (\<lambda>_.
                    io_bind (query [(Insert, T_events)]
                               (insert_event (pr_tenantId c) i (ev_type ev)
                                  (ev_detail ev) (ev_traceId ev))) (\<lambda>_.
                    io_bind (if approving
                             then query [(Queue_function, T_outbox)]
                                    (queue_run_outbox (pr_tenantId c) i)
                             else io_return ()) (\<lambda>_.
                    io_bind (pg_audit c (''run.'' @ event_type_name (ev_type ev)) i) (\<lambda>_.
                    readRunInTransaction (pr_tenantId c) (current\<lparr>rw_state := target\<rparr>)))))))))"
    by (auto simp: Let_def stuck_throw split: list.splits sum.splits
        intro!: stuck_bind_later [OF keeps_role_simple(1)] stuck_bind [OF audit]
          stuck_bind_later [OF keeps_role_simple(3)])
qed



end
