(* ===== verification/ControlPlane.thy ===== *)
theory ControlPlane
  imports MemoryStore WorkerPaths
begin

text \<open>
  Requests to the control plane on the stores of the program: what a request may change and on
  whose credentials, what the decision routes answer, how a run request is refused, and that the
  provider credential of a run request reaches nothing but the credential broker. The facts on
  runs come from the contract \<open>runtime_store_contract\<close>, interpreted for each store.
\<close>

section \<open>Authentication against the database\<close>

lemma PostgresDurableStore_methods [simp]:
  "rs_ready PostgresDurableStore = pg_ready"
  "rs_authenticate PostgresDurableStore = pg_authenticate"
  "rs_createWorkflow PostgresDurableStore = pg_createWorkflow"
  "rs_createRun PostgresDurableStore = pg_createRun"
  "rs_readRun PostgresDurableStore = pg_readRun"
  "rs_transition PostgresDurableStore = pg_transition"
  "rs_listAudit PostgresDurableStore = pg_listAudit"
  by (simp_all add: PostgresDurableStore_def)

text \<open>An unrevoked API key with this hash, of a principal \<open>c\<close> of the tenant with this slug.\<close>

definition holds_key :: "db \<Rightarrow> string \<Rightarrow> string \<Rightarrow> principal \<Rightarrow> bool" where
  "holds_key d slug hash c \<longleftrightarrow>
     (\<exists>k \<in> set (db_api_keys d). ak_revoked_at k = None \<and> ak_key_hash k = hash \<and>
        (\<exists>q \<in> set (db_principals d). pn_id q = ak_principal_id k \<and>
           c = \<lparr>pr_tenantId = pn_tenant_id q, pr_role = pn_role q, pr_subject = pn_subject q\<rparr> \<and>
           (\<exists>t \<in> set (db_tenants d). tn_id t = pn_tenant_id q \<and> tn_slug t = slug)))"

lemma equalHash_iff [simp]: "equalHash a b \<longleftrightarrow> a = b"
  using constantTimeEqual_iff [of a b] unfolding equalHash_def constantTimeEqual_def Let_def .

lemma select_credentials_rows:
  assumes "select_credentials slug e s = Inr (rows, d)"
  shows "d = se_db s \<and>
    ((t, r, sub, h) \<in> set rows \<longleftrightarrow>
      holds_key (se_db s) slug h \<lparr>pr_tenantId = t, pr_role = r, pr_subject = sub\<rparr>)"
proof -
  have rows: "d = se_db s" "rows = [(pn_tenant_id p, pn_role p, pn_subject p, ak_key_hash k).
      k \<leftarrow> db_api_keys d, ak_revoked_at k = None,
      p \<leftarrow> db_principals d, pn_id p = ak_principal_id k,
      t \<leftarrow> db_tenants d, tn_id t = pn_tenant_id p \<and> tn_slug t = slug]"
    using assms by (auto simp: select_credentials_def Let_def)
  have "(t, r, sub, h) \<in> set rows \<longleftrightarrow>
    (\<exists>k \<in> set (db_api_keys d). ak_revoked_at k = None \<and>
       (\<exists>q \<in> set (db_principals d). pn_id q = ak_principal_id k \<and>
         (\<exists>y \<in> set (db_tenants d). (tn_id y = pn_tenant_id q \<and> tn_slug y = slug) \<and>
            t = pn_tenant_id q \<and> r = pn_role q \<and> sub = pn_subject q \<and> h = ak_key_hash k)))"
    unfolding rows(2) by (simp add: Bex_def) blast
  with rows(1) show ?thesis
    unfolding holds_key_def by (simp, blast)
qed

lemma pg_authenticate_result:
  assumes "pg_authenticate slug key (e, p) = (Inr x, (e', p'))"
  shows "p' = p \<and> (case x of
      None \<Rightarrow> truthy key \<longrightarrow> (\<forall>c. \<not> holds_key (pg_db p) slug (sha256_hex e (the key)) c)
    | Some c \<Rightarrow> truthy key \<and> holds_key (pg_db p) slug (sha256_hex e (the key)) c)"
proof (cases "truthy key")
  case False
  with assms show ?thesis by (auto simp: pg_authenticate_def io_return_def)
next
  case True
  with assms obtain rows e1 p1 where
    1: "pool_query [(Select, T_api_keys), (Select, T_principals), (Select, T_tenants)]
          (select_credentials slug) (e, p) = (Inr rows, (e1, p1))"
    and p': "p' = p1"
    and x: "x = (case find (\<lambda>(t, r, sub, h). equalHash h (sha256_hex e1 (the key))) rows of
             None \<Rightarrow> None
           | Some (t, r, sub, h) \<Rightarrow> Some \<lparr>pr_tenantId = t, pr_role = r, pr_subject = sub\<rparr>)"
    by (auto simp: pg_authenticate_def io_bind_eq_Inr hashApiKey_def io_env_def io_return_def)
  from 1 obtain e2 d where q: "select_credentials slug e2 ((open_session p)\<lparr>se_now := clock e (ticks e)\<rparr>)
      = Inr (rows, d)" and p1: "p1 = p\<lparr>pg_db := d\<rparr>" and e1: "same_sources e e1"
    by (cases rule: pool_query_cases) auto
  note rows = select_credentials_rows [OF q]
  have "p1 = p"
    using rows p1 by (simp add: open_session_def)
  moreover have "sha256_hex e1 = sha256_hex e"
    using e1 by (simp add: same_sources_def)
  ultimately show ?thesis
    using p' x rows True
    by (auto simp: open_session_def find_None_iff split: option.splits prod.splits dest!: find_SomeD)
       (metis (full_types) principal.cases)+
qed

section \<open>What a request may change\<close>

text \<open>
  C6. Tenant isolation over HTTP. Whatever a request is and however the round trips to PostgreSQL
  go, if it changed the runs of tenant \<open>t\<close>, then it carried an API key that the database lists,
  unrevoked, for an owner or operator of that very tenant; the runs of every other tenant are as
  they were, no run disappears, and a run only moves along the checked transitions.
\<close>
theorem request_tenant_isolation:
  assumes "pg_ok cn (e, as_store a)"
    and "serve PostgresDurableStore cf rq (e, a) = (r, (e', a'))"
    and "pg_view (as_store a') t \<noteq> pg_view (as_store a) t"
  shows "(\<exists>slug key c. header_string (rq_headers rq ''x-tenant-id'') = Some slug \<and>
      header_string (rq_headers rq ''x-api-key'') = Some key \<and>
      holds_key (pg_db (as_store a)) slug (sha256_hex e key) c \<and>
      pr_tenantId c = t \<and> pr_role c \<in> {Owner, Operator}) \<and>
    only_tenant t (pg_view (as_store a)) (pg_view (as_store a')) \<and>
    view_evolves (pg_view (as_store a)) (pg_view (as_store a'))"
proof -
  obtain rp where "serve PostgresDurableStore cf rq (e, a) = (Inr rp, (e', a'))"
    using serve_returns [of PostgresDurableStore cf rq "(e, a)"] assms(2) by auto
  from pg.serve_run [OF assms(1) this] assms(3) obtain c where
    c: "presents PostgresDurableStore rq e (as_store a) c" "pr_role c \<in> {Owner, Operator}"
    and change: "view_evolves (pg_view (as_store a)) (pg_view (as_store a'))"
      "only_tenant (pr_tenantId c) (pg_view (as_store a)) (pg_view (as_store a'))"
    by (auto simp: allowed_change_def)
  have t: "t = pr_tenantId c"
    using change(2) assms(3) by (auto simp: only_tenant_def)
  from c(1) obtain slug w' where slug: "header_string (rq_headers rq ''x-tenant-id'') = Some slug"
    and auth: "pg_authenticate slug (header_string (rq_headers rq ''x-api-key'')) (e, as_store a)
      = (Inr (Some c), w')"
    by (auto simp: presents_def)
  obtain e1 p1 where "w' = (e1, p1)" by (cases w')
  with pg_authenticate_result [of slug _ e "as_store a" "Some c"] auth
  have key: "truthy (header_string (rq_headers rq ''x-api-key''))"
    "holds_key (pg_db (as_store a)) slug (sha256_hex e (the (header_string (rq_headers rq ''x-api-key'')))) c"
    by auto
  with slug change c(2) t show ?thesis
    by (auto simp: truthy_iff)
qed

section \<open>A sample request\<close>

definition sample_app :: "pg app_state" where
  "sample_app =
     \<lparr>as_store = sample_pg DarControl, as_broker = new_broker None,
      as_metrics = \<lparr>mt_httpRequests = (\<lambda>_. 0), mt_runCreations = (\<lambda>_. 0), mt_quotaRejections = 0,
        mt_approvalDecisions = 0, mt_cancellations = 0\<rparr>\<rparr>"

definition sample_config :: app_config where
  "sample_config = \<lparr>cf_internalToken = None, cf_isUuid = (\<lambda>_. True), cf_errorStatus = (\<lambda>_. 500)\<rparr>"

definition sample_headers :: "string \<Rightarrow> header option" where
  "sample_headers = [''x-tenant-id'' \<mapsto> One ''demo-tenant'', ''x-api-key'' \<mapsto> One ''secret'',
     ''idempotency-key'' \<mapsto> One sample_key]"

definition sample_http :: http_request where
  "sample_http = \<lparr>rq_route = R_create_run, rq_url = ''/v1/runs'', rq_headers = sample_headers,
     rq_body = Some (JObj [(''workflowId'', JStr ''w'')])\<rparr>"

lemma sample_headers_simps [simp]:
  "header_string (sample_headers ''x-tenant-id'') = Some ''demo-tenant''"
  "header_string (sample_headers ''x-api-key'') = Some ''secret''"
  "header_string (sample_headers ''idempotency-key'') = Some sample_key"
  by (simp_all add: sample_headers_def)

lemma sample_app_simps [simp]:
  "as_store sample_app = sample_pg DarControl" "as_broker sample_app = new_broker None"
  "sample_app\<lparr>as_store := sample_pg DarControl\<rparr> = sample_app"
  by (simp_all add: sample_app_def)

lemma sample_http_simps [simp]:
  "rq_route sample_http = R_create_run" "rq_headers sample_http = sample_headers"
  "open_url (rq_url sample_http) = False"
  "createRunSchema (cf_isUuid sample_config) (rq_body sample_http) =
     Some \<lparr>cr_workflowId = ''w'', cr_input = [], cr_providerCredential = None\<rparr>"
  by (simp_all add: sample_http_def open_url_def createRunSchema_def z_string_def z_default_def
      z_optional_def length_in_def sample_config_def)

abbreviation later_env :: env where
  "later_env \<equiv> sample_env\<lparr>roundtrips := 1, ticks := 1\<rparr>"

lemma sample_authenticate:
  "pg_authenticate ''demo-tenant'' (Some ''secret'') (sample_env, sample_pg DarControl) =
     (Inr (Some sample_owner), (later_env, sample_pg DarControl))"
proof -
  have "pool_query [(Select, T_api_keys), (Select, T_principals), (Select, T_tenants)]
      (select_credentials ''demo-tenant'') (sample_env, sample_pg DarControl) =
    (Inr [(''t'', Owner, ''bootstrap-owner'', ''secret'')], (later_env, (sample_pg DarControl)\<lparr>pg_db := sample_db\<rparr>))"
    by (subst pool_query_performed [where x = "[(''t'', Owner, ''bootstrap-owner'', ''secret'')]" and d = sample_db])
       (simp_all add: sample_pg_def select_credentials_def open_session_def sample_db_def)
  then show ?thesis
    by (simp add: pg_authenticate_def truthy_def io_bind_def hashApiKey_def io_env_def io_return_def
        sample_owner_def sample_pg_def)
qed

lemma sample_gate:
  "preHandler PostgresDurableStore sample_http (sample_env, sample_app) =
     (Inr (Proceed (Some sample_owner)), (later_env, sample_app))"
  by (simp add: preHandler_def truthy_def io_bind_def io_zoom_def
      sample_authenticate io_return_def)

lemma sample_createRun_later:
  "fresh_run (fst (pg_createRun sample_owner sample_request sample_key (later_env, sample_pg DarControl)))"
  by (simp add: method_defs query_performed statement_defs sample_pg_def
      sample_db_def sample_owner_def sample_request_def sample_key_def fresh_run_def)

lemma sample_serve:
  obtains run e' a' where
    "serve PostgresDurableStore sample_config sample_http (sample_env, sample_app) =
       (Inr \<lparr>rp_code = 201, rp_body = B_created_run run False\<rparr>, (e', a'))"
    "adds_run ''t'' run (pg_view (as_store sample_app)) (pg_view (as_store a'))"
proof -
  from sample_createRun_later obtain run e1 p1 where
    run: "pg_createRun sample_owner sample_request sample_key (later_env, sample_pg DarControl) =
      (Inr (run, False), (e1, p1))"
    unfolding fresh_run_def
    by (cases "pg_createRun sample_owner sample_request sample_key (later_env, sample_pg DarControl)")
       (auto split: sum.splits prod.splits)
  have "pg_ok Some (later_env, sample_pg DarControl)"
    using sample_ok by (simp add: pg_ok_def)
  then have adds: "adds_run ''t'' run (pg_view (sample_pg DarControl)) (pg_view p1)"
    using io_specD_Inr [OF pg.createRun_law [where cn = Some and rq = sample_request and k = sample_key,
          OF sample_authentic [of DarControl]], of "(later_env, sample_pg DarControl)" "(run, False)"] run
    by simp (simp add: sample_owner_def)
  have "length sample_key = 16" "pr_role sample_owner = Owner"
    by (simp_all add: sample_key_def sample_owner_def)
  then have "serve PostgresDurableStore sample_config sample_http (sample_env, sample_app) =
      (Inr \<lparr>rp_code = 201, rp_body = B_created_run run False\<rparr>,
       snd (serve PostgresDurableStore sample_config sample_http (sample_env, sample_app))) \<and>
    as_store (snd (snd (serve PostgresDurableStore sample_config sample_http (sample_env, sample_app)))) = p1"
    using run
    by (simp add: serve_def sample_gate io_bind_def io_catch_def create_run_handler_def requirePrincipal_def
        requireRole_def privilegedRoles_def io_return_def try_create_run_def truthy_def io_zoom_def sample_request_def count_def io_modify_def send_def
        onResponse_def Let_def)
  then show thesis
    using that adds by (metis prod.collapse sample_app_simps(1))
qed

theorem request_tenant_isolation_witness:
  "\<exists>r e' a'. serve PostgresDurableStore sample_config sample_http (sample_env, sample_app) = (r, (e', a')) \<and>
     only_tenant ''t'' (pg_view (as_store sample_app)) (pg_view (as_store a'))"
proof -
  obtain run e' a' where s: "serve PostgresDurableStore sample_config sample_http (sample_env, sample_app) =
       (Inr \<lparr>rp_code = 201, rp_body = B_created_run run False\<rparr>, (e', a'))"
    and "adds_run ''t'' run (pg_view (as_store sample_app)) (pg_view (as_store a'))"
    by (rule sample_serve)
  then have "pg_view (as_store a') ''t'' \<noteq> pg_view (as_store sample_app) ''t''"
    by (auto simp: adds_run_def fun_eq_iff split: if_splits)
  with request_tenant_isolation [OF _ s, of Some] s sample_ok show ?thesis
    by auto
qed

text \<open>
  C17. Authentication decides by the database. When \<open>authenticate\<close> on PostgreSQL returns, it has
  changed nothing, and it returned a principal exactly if a key was given and the database lists,
  unrevoked, an API key with its hash for a principal of the tenant with the given slug; the
  principal returned is such a one.
\<close>
theorem authentication_exact:
  assumes "pg_authenticate slug key (e, p) = (Inr x, (e', p'))"
  shows "p' = p \<and>
    (x \<noteq> None \<longleftrightarrow> truthy key \<and> (\<exists>c. holds_key (pg_db p) slug (sha256_hex e (the key)) c)) \<and>
    (\<forall>c. x = Some c \<longrightarrow> holds_key (pg_db p) slug (sha256_hex e (the key)) c)"
  using pg_authenticate_result [OF assms] by (auto split: option.splits)

theorem authentication_exact_witness:
  "holds_key sample_db ''demo-tenant'' ''secret'' sample_owner"
  using authentication_exact [OF sample_authenticate] by (simp add: sample_pg_def)

text \<open>
  C19. A run once accepted is kept and its history only grows. Over any sequence of requests, with
  database round trips failing in every way, the invariant of the database holds, every run is
  still there under its tenant with its identity, workflow, input and budget, its events are
  extended at the end only, its state has moved along checked transitions, and a run in a
  terminal state stays in it.
\<close>
theorem requests_keep_runs:
  assumes "pg_ok cn (e, as_store a)"
    and "fold (\<lambda>rq w. snd (serve PostgresDurableStore cf rq w)) rqs (e, a) = (e', a')"
  shows "pg_ok cn (e', as_store a') \<and>
    (\<forall>t i run. pg_view (as_store a) t i = Some run \<longrightarrow>
      (\<exists>run'. pg_view (as_store a') t i = Some run' \<and>
         run' = run\<lparr>run_state := run_state run', run_events := run_events run'\<rparr> \<and>
         prefix (run_events run) (run_events run') \<and> run_path (run_state run) (run_state run') \<and>
         (terminal (run_state run) \<longrightarrow> run_state run' = run_state run)))"
proof -
  note ok = pg.serve_all_ok [OF assms(2,1)]
  then have evolves: "view_evolves (pg_view (as_store a)) (pg_view (as_store a'))" ..
  show ?thesis
  proof (intro conjI allI impI)
    show "pg_ok cn (e', as_store a')" using ok ..
    fix t i run
    assume run: "pg_view (as_store a) t i = Some run"
    with evolves obtain run' where "pg_view (as_store a') t i = Some run'" and "run_evolves run run'"
      unfolding view_evolves_def by blast
    then show "\<exists>run'. pg_view (as_store a') t i = Some run' \<and>
         run' = run\<lparr>run_state := run_state run', run_events := run_events run'\<rparr> \<and>
         prefix (run_events run) (run_events run') \<and> run_path (run_state run) (run_state run') \<and>
         (terminal (run_state run) \<longrightarrow> run_state run' = run_state run)"
      using run_path_terminal unfolding run_evolves_def by blast
  qed
qed

theorem requests_keep_runs_witness:
  "\<exists>e' a'. fold (\<lambda>rq w. snd (serve PostgresDurableStore sample_config rq w))
       [sample_http, sample_http] (sample_env, sample_app) = (e', a') \<and> pg_ok Some (e', as_store a')"
  using requests_keep_runs [of Some sample_env sample_app sample_config "[sample_http, sample_http]"]
    sample_ok by (metis prod.collapse sample_app_simps(1))

section \<open>Refusals\<close>

lemma pg_authenticate_unchanged:
  assumes "pg_authenticate slug key (e, p) = (r, (e', p'))"
  shows "p' = p"
proof (cases "truthy key")
  case True
  let ?select = "pool_query [(Select, T_api_keys), (Select, T_principals), (Select, T_tenants)]
    (select_credentials slug)"
  obtain r1 e1 p1 where 1: "?select (e, p) = (r1, (e1, p1))"
    using prod_cases3 by blast
  then have "p1 = p"
    by (cases rule: pool_query_cases) (auto simp: select_credentials_def open_session_def Let_def)
  with assms 1 True show ?thesis
    by (auto simp: pg_authenticate_def io_bind_def hashApiKey_def io_env_def io_return_def
        split: sum.splits)
qed (use assms in \<open>simp add: pg_authenticate_def io_return_def\<close>)

text \<open>
  C27. A request outside the open paths that carries no API key the database lists, unrevoked, for
  the tenant it names, runs no handler: it leaves the database and the credential broker as they
  are, and is answered 401 \<open>unauthenticated\<close> or, when the round trip failed, with that error.
\<close>
theorem unauthenticated_refused:
  assumes "\<not> open_url (rq_url rq)"
    and "\<forall>slug key c. header_string (rq_headers rq ''x-tenant-id'') = Some slug \<longrightarrow>
      header_string (rq_headers rq ''x-api-key'') = Some key \<longrightarrow>
      \<not> holds_key (pg_db (as_store a)) slug (sha256_hex e key) c"
    and "serve PostgresDurableStore cf rq (e, a) = (r, (e', a'))"
  shows "as_store a' = as_store a \<and> as_broker a' = as_broker a \<and>
    (\<exists>rp. r = Inr rp \<and> (rp = \<lparr>rp_code = 401, rp_body = B_error ''unauthenticated''\<rparr> \<or>
       (\<exists>err. rp_body rp = B_thrown err)))"
proof -
  have gate: "as_store a1 = as_store a \<and> as_broker a1 = as_broker a \<and>
      (g = Inr (Stop \<lparr>rp_code = 401, rp_body = B_error ''unauthenticated''\<rparr>) \<or> (\<exists>err. g = Inl err))"
    if gate: "preHandler PostgresDurableStore rq (e, a) = (g, (e1, a1))" for g e1 a1
  proof (cases "header_string (rq_headers rq ''x-tenant-id'')")
    case None
    with gate assms(1) show ?thesis
      by (auto simp: preHandler_def truthy_def send_def io_return_def io_bind_def)
  next
    case (Some slug)
    let ?key = "header_string (rq_headers rq ''x-api-key'')"
    obtain r2 e2 p2 where 2: "pg_authenticate slug ?key (e, as_store a) = (r2, (e2, p2))"
      using prod_cases3 by blast
    have "r2 \<noteq> Inr (Some c)" for c
      using pg_authenticate_result [of slug ?key e "as_store a" "Some c" e2 p2] 2 assms(2) Some
      by (auto simp: truthy_iff)
    with 2 pg_authenticate_unchanged [OF 2] gate assms(1) Some show ?thesis
      by (cases r2; cases "slug = []")
         (auto simp: preHandler_def truthy_def send_def io_return_def io_bind_def io_zoom_def
           split: option.splits)
  qed
  from assms(3) show ?thesis
  proof (cases rule: serve_cases)
    case (stopped rp a1)
    with gate [OF stopped(1)] show ?thesis by simp
  next
    case (hook_failed err a1)
    with gate [OF hook_failed(1)] show ?thesis by simp
  next
    case (thrown caller e1 a1 err a2)
    with gate [OF thrown(1)] show ?thesis by simp
  next
    case (answered caller e1 a1 rp a2)
    with gate [OF answered(1)] show ?thesis by simp
  qed
qed

theorem unauthenticated_refused_witness:
  "as_store (snd (snd (serve PostgresDurableStore sample_config
     (sample_http\<lparr>rq_headers := (\<lambda>_. None)\<rparr>) (sample_env, sample_app)))) = sample_pg DarControl"
proof -
  obtain r e' a' where "serve PostgresDurableStore sample_config
      (sample_http\<lparr>rq_headers := (\<lambda>_. None)\<rparr>) (sample_env, sample_app) = (r, (e', a'))"
    using prod_cases3 by blast
  from unauthenticated_refused [OF _ _ this] this show ?thesis
    using sample_http_simps(3) by simp
qed

text \<open>The roles a route accepts.\<close>

fun accepted_roles :: "route \<Rightarrow> role set" where
  "accepted_roles R_create_workflow = {Owner, Operator}"
| "accepted_roles R_create_run = {Owner, Operator}"
| "accepted_roles (R_approve i) = {Owner, Operator}"
| "accepted_roles (R_cancel i) = {Owner, Operator}"
| "accepted_roles R_audit = {Owner}"
| "accepted_roles _ = UNIV"

text \<open>
  C28. The role matrix. On every store, a caller whose role the route does not accept gets the
  error \<open>Insufficient role\<close>, and nothing happens: the store and the credential broker are as the
  authentication hook left them.
\<close>
theorem insufficient_role_refused:
  assumes "preHandler st rq (e, a) = (Inr (Proceed (Some p)), (e1, a1))"
    and "pr_role p \<notin> accepted_roles (rq_route rq)"
  shows "\<exists>a'. serve st cf rq (e, a) =
      (Inr \<lparr>rp_code = cf_errorStatus cf (Error ''Insufficient role''),
            rp_body = B_thrown (Error ''Insufficient role'')\<rparr>, (e1, a')) \<and>
    as_store a' = as_store a1 \<and> as_broker a' = as_broker a1"
proof -
  have "dispatch st cf (Some p) rq (rq_route rq) = io_throw (Error ''Insufficient role'')"
    using assms(2)
    by (cases "rq_route rq")
       (auto simp: create_workflow_def create_run_handler_def approve_run_def cancel_run_def
         list_audit_def requirePrincipal_def requireRole_def privilegedRoles_def)
  with assms(1) show ?thesis
    by (simp add: serve_def io_bind_def io_catch_def io_throw_def send_def io_return_def onResponse_def
        count_def io_modify_def Let_def)
qed

definition sample_viewer_app :: "mem_store app_state" where
  "sample_viewer_app =
     \<lparr>as_store = new_InMemoryDurableStore \<lparr>sd_tenantId = ''demo-tenant'', sd_apiKey = ''secret'',
        sd_role = Some Viewer, sd_subject = None\<rparr> sample_env,
      as_broker = new_broker None, as_metrics = as_metrics sample_app\<rparr>"

theorem insufficient_role_refused_witness:
  "\<exists>e1 a'. serve InMemoryDurableStore sample_config sample_http (sample_env, sample_viewer_app) =
      (Inr \<lparr>rp_code = 500, rp_body = B_thrown (Error ''Insufficient role'')\<rparr>, (e1, a')) \<and>
    as_broker a' = new_broker None"
proof -
  let ?p = "\<lparr>pr_tenantId = ''demo-tenant'', pr_role = Viewer, pr_subject = ''bootstrap-owner''\<rparr>"
  have "preHandler InMemoryDurableStore sample_http (sample_env, sample_viewer_app) =
      (Inr (Proceed (Some ?p)), (sample_env, sample_viewer_app))"
    by (simp add: preHandler_def truthy_def InMemoryDurableStore_def io_bind_def io_zoom_def
        sample_viewer_app_def mem_authenticate_eq new_InMemoryDurableStore_def io_return_def)
  from insufficient_role_refused [OF this, of sample_config] show ?thesis
    by (auto simp: sample_config_def sample_viewer_app_def)
qed

section \<open>Decisions on the in-memory store\<close>

definition decided :: "mem_store \<Rightarrow> principal \<Rightarrow> string \<Rightarrow> stored_run \<Rightarrow> mem_store \<Rightarrow> bool" where
  "decided s p i r s' \<longleftrightarrow>
     mem_view s' = (mem_view s)(pr_tenantId p := (mem_view s (pr_tenantId p))(i \<mapsto> r)) \<and>
     length (ms_audits s') = Suc (length (ms_audits s))"

lemma decided_update:
  assumes "mem_view s (pr_tenantId p) i = Some r" and "run_tenantId r' = run_tenantId r"
  shows "decided s p i r' (audited p act j now (s\<lparr>ms_runs := (ms_runs s)(i \<mapsto> r')\<rparr>))"
  using assms
  by (auto simp: decided_def audited_def mem_view_def fun_eq_iff split: option.splits if_splits)


text \<open>
  Cancellation on the in-memory store, on every branch: 404 without such a run, 409 on a run
  in a terminal state, and from every other state 200 with the run cancelled and a cancellation
  event at its end; the effect on the store is as for approval.
\<close>
theorem mem_cancel_exact:
  assumes "pr_role p \<in> {Owner, Operator}"
  shows "\<exists>rp e' a'. cancel_run InMemoryDurableStore (Some p) i (e, a) = (Inr rp, (e', a')) \<and>
    (case mem_view (as_store a) (pr_tenantId p) i of
       None \<Rightarrow> rp = \<lparr>rp_code = 404, rp_body = B_error ''run_not_found''\<rparr> \<and> a' = a
     | Some r \<Rightarrow>
         if terminal (run_state r)
         then rp = \<lparr>rp_code = 409, rp_body = B_error ''terminal_run''\<rparr> \<and> a' = a
         else (let r' = r\<lparr>run_state := Cancelled, run_events := run_events r @
                  [\<lparr>ev_at = clock e (ticks e), ev_type = Ev_cancelled,
                    ev_detail = ''Cancellation requested'', ev_traceId = None\<rparr>]\<rparr> in
               rp = \<lparr>rp_code = 200, rp_body = B_run r'\<rparr> \<and>
               decided (as_store a) p i r' (as_store a') \<and> as_broker a' = as_broker a))"
proof (cases "mem_view (as_store a) (pr_tenantId p) i")
  case None
  with assms show ?thesis
    by (auto simp: cancel_run_def requirePrincipal_def requireRole_def privilegedRoles_def io_bind_def
        io_return_def InMemoryDurableStore_def io_zoom_def mem_readRun_eq send_def)
next
  case (Some r)
  let ?ev = "\<lparr>ev_at = clock e (ticks e), ev_type = Ev_cancelled,
    ev_detail = ''Cancellation requested'', ev_traceId = None\<rparr>"
  note dec = decided_update [OF Some, of "r\<lparr>run_state := Cancelled, run_events := run_events r @ [?ev]\<rparr>"]
  have "assertTransition (run_state r) Cancelled = Inr ()" if "\<not> terminal (run_state r)"
    using that by (cases "run_state r") (simp_all add: assertTransition_def terminal_iff)
  with assms Some dec show ?thesis
    by (cases "terminal (run_state r)")
       (simp_all add: cancel_run_def requirePrincipal_def requireRole_def privilegedRoles_def
         io_bind_def io_return_def InMemoryDurableStore_def io_zoom_def mem_readRun_eq send_def
         runEvent_def next_clock_def mem_transition_eq count_def io_modify_def Let_def terminal_iff)
qed


theorem mem_cancel_exact_witness:
  "\<exists>rp w'. cancel_run InMemoryDurableStore (Some sample_owner) ''r'' (sample_env, sample_viewer_app) =
     (Inr rp, w') \<and> rp_code rp = 404"
  using mem_cancel_exact [of sample_owner "''r''" sample_env sample_viewer_app]
  by (auto simp: sample_owner_def sample_viewer_app_def mem_view_def new_InMemoryDurableStore_def)

section \<open>Provider credentials stay in the broker\<close>

text \<open>Two brokers that differ at most in the credentials behind their handles, and two states of
  the control plane that differ at most in such brokers.\<close>

definition alike :: "broker \<Rightarrow> broker \<Rightarrow> bool" where
  "alike b b' \<longleftrightarrow> br_ttlMs b' = br_ttlMs b \<and>
     (\<forall>h. map_option en_expiresAt (br_entries b' h) = map_option en_expiresAt (br_entries b h))"

definition indistinct :: "'s app_state world \<Rightarrow> 's app_state world \<Rightarrow> bool" where
  "indistinct w w' \<longleftrightarrow> fst w' = fst w \<and> as_store (snd w') = as_store (snd w) \<and>
     as_metrics (snd w') = as_metrics (snd w) \<and> alike (as_broker (snd w)) (as_broker (snd w'))"

definition io_same :: "('s app_state, 'a) io \<Rightarrow> ('s app_state, 'a) io \<Rightarrow> bool" where
  "io_same m m' \<longleftrightarrow>
     (\<forall>w w'. indistinct w w' \<longrightarrow>
        fst (m' w') = fst (m w) \<and> indistinct (snd (m w)) (snd (m' w')))"

lemma io_sameD:
  "io_same m m' \<Longrightarrow> indistinct w w' \<Longrightarrow> fst (m' w') = fst (m w) \<and> indistinct (snd (m w)) (snd (m' w'))"
  unfolding io_same_def by blast

lemma alike_refl [simp]: "alike b b"
  by (simp add: alike_def)

lemma indistinct_refl [simp]: "indistinct w w"
  by (simp add: indistinct_def)

lemma io_same_bind [intro]:
  assumes "io_same m m'" and "\<And>x. io_same (f x) (f' x)"
  shows "io_same (io_bind m f) (io_bind m' f')"
  unfolding io_same_def
proof (intro allI impI)
  fix w w' :: "'a app_state world"
  assume "indistinct w w'"
  from io_sameD [OF assms(1) this]
  show "fst (io_bind m' f' w') = fst (io_bind m f w) \<and>
      indistinct (snd (io_bind m f w)) (snd (io_bind m' f' w'))"
    using io_sameD [OF assms(2)]
    by (cases "m w"; cases "m' w'"; cases "fst (m w)") (auto simp: io_bind_def)
qed

lemma io_same_catch [intro]:
  assumes "io_same m m'" and "\<And>x. io_same (h x) (h' x)"
  shows "io_same (io_catch m h) (io_catch m' h')"
  unfolding io_same_def
proof (intro allI impI)
  fix w w' :: "'a app_state world"
  assume "indistinct w w'"
  from io_sameD [OF assms(1) this]
  show "fst (io_catch m' h' w') = fst (io_catch m h w) \<and>
      indistinct (snd (io_catch m h w)) (snd (io_catch m' h' w'))"
    using io_sameD [OF assms(2)]
    by (cases "m w"; cases "m' w'"; cases "fst (m w)") (auto simp: io_catch_def)
qed

lemma io_same_pure [intro]:
  "io_same (io_return x) (io_return x)" "io_same (io_throw err) (io_throw err)"
  "io_same (send c body) (send c body)" "io_same (count f) (count f)"
  by (auto simp: io_same_def indistinct_def io_defs send_def count_def)

lemma io_same_store [intro]: "io_same (in_store m) (in_store m)"
  by (auto simp: io_same_def indistinct_def io_zoom_def split: prod.splits)

lemma io_same_issue [intro]: "io_same (in_broker (issue c)) (in_broker (issue c'))"
  by (auto simp: io_same_def indistinct_def io_zoom_def issue_eq alike_def drop_expired_def
      split: prod.splits option.splits)
     (metis map_option_eq_Some option.simps(3))+

lemma io_same_discard [intro]: "io_same (in_broker (discard h)) (in_broker (discard h))"
  by (auto simp: io_same_def indistinct_def io_zoom_def discard_eq alike_def)

lemma io_same_if [intro]:
  "io_same m m' \<Longrightarrow> io_same n n' \<Longrightarrow> io_same (if b then m else n) (if b then m' else n')"
  by simp

lemma io_same_creation_failed [intro]: "io_same (creation_failed err) (creation_failed err)"
  unfolding creation_failed_def Let_def by (intro io_same_bind io_same_if io_same_pure)

lemma io_same_try_create_run:
  assumes "truthy (cr_providerCredential c)" and "truthy (cr_providerCredential c')"
    and "c' = c\<lparr>cr_providerCredential := cr_providerCredential c'\<rparr>"
  shows "io_same (try_create_run st p c k) (try_create_run st p c' k)"
proof -
  have "cr_workflowId c' = cr_workflowId c" "cr_input c' = cr_input c"
    by (subst assms(3), simp)+
  with assms(1,2) show ?thesis
    unfolding try_create_run_def
    by (simp only: if_True) (intro io_same_bind io_same_issue io_same_if io_same_discard io_same_pure io_same_store)
qed

lemma io_same_gate: "io_same (preHandler st rq) (preHandler st rq)"
proof -
  have "io_same (case caller of
      None \<Rightarrow> io_bind (send 401 (B_error ''unauthenticated'')) (\<lambda>r. io_return (Stop r))
    | Some p \<Rightarrow> io_return (Proceed (Some p)))
    (case caller of
      None \<Rightarrow> io_bind (send 401 (B_error ''unauthenticated'')) (\<lambda>r. io_return (Stop r))
    | Some p \<Rightarrow> io_return (Proceed (Some p)))" for caller
    by (cases caller) auto
  then show ?thesis
    unfolding preHandler_def Let_def by auto
qed

lemma other_body [simp]:
  "preHandler st (rq\<lparr>rq_body := b\<rparr>) = preHandler st rq"
  "onResponse (rq\<lparr>rq_body := b\<rparr>) = onResponse rq"
  by (simp_all add: preHandler_def onResponse_def fun_eq_iff)

lemma io_same_onResponse: "io_same (onResponse rq rp) (onResponse rq rp)"
  unfolding onResponse_def Let_def by (rule io_same_pure)

text \<open>
  C30. Provider credentials are confined to the credential broker. Take two requests to create a
  run that differ in nothing but the text of the provider credential. On every store they are
  answered alike, leave the store, the metrics and all that is read from the environment alike,
  and the two credential brokers have the same handles with the same expiry: no bit of the
  credential reaches the database, a reply or a metric.
\<close>
theorem credential_confined:
  assumes "createRunSchema (cf_isUuid cf) body = Some c"
    and "createRunSchema (cf_isUuid cf) body' = Some (c\<lparr>cr_providerCredential := Some secret\<rparr>)"
    and "truthy (cr_providerCredential c)" and "secret \<noteq> []" and "rq_route rq = R_create_run"
  shows "fst (serve st cf (rq\<lparr>rq_body := body'\<rparr>) w) = fst (serve st cf (rq\<lparr>rq_body := body\<rparr>) w) \<and>
    indistinct (snd (serve st cf (rq\<lparr>rq_body := body\<rparr>) w)) (snd (serve st cf (rq\<lparr>rq_body := body'\<rparr>) w))"
proof -
  have run: "io_same (try_create_run st p c k)
      (try_create_run st p (c\<lparr>cr_providerCredential := Some secret\<rparr>) k)" for p k
    by (rule io_same_try_create_run) (use assms(3,4) in \<open>simp_all add: truthy_def\<close>)
  have handler: "io_same (create_run_handler st cf caller (rq\<lparr>rq_body := body\<rparr>))
      (create_run_handler st cf caller (rq\<lparr>rq_body := body'\<rparr>))" for caller
    using assms(1,2) run
    unfolding create_run_handler_def requirePrincipal_def requireRole_def
    by (cases caller; cases "header_string (rq_headers rq ''idempotency-key'')") auto
  have stage: "io_same
      (case g of Stop r \<Rightarrow> io_return r
       | Proceed p \<Rightarrow> dispatch st cf p (rq\<lparr>rq_body := body\<rparr>) (rq_route (rq\<lparr>rq_body := body\<rparr>)))
      (case g of Stop r \<Rightarrow> io_return r
       | Proceed p \<Rightarrow> dispatch st cf p (rq\<lparr>rq_body := body'\<rparr>) (rq_route (rq\<lparr>rq_body := body'\<rparr>)))" for g
    using handler assms(5) by (cases g) auto
  have "io_same (serve st cf (rq\<lparr>rq_body := body\<rparr>)) (serve st cf (rq\<lparr>rq_body := body'\<rparr>))"
    unfolding serve_def other_body
    by (intro io_same_bind io_same_catch io_same_pure io_same_gate io_same_onResponse stage)
  from io_sameD [OF this indistinct_refl, of w] show ?thesis .
qed

theorem credential_confined_witness:
  "indistinct
     (snd (serve PostgresDurableStore sample_config (sample_http\<lparr>rq_body :=
        Some (JObj [(''workflowId'', JStr ''w''), (''providerCredential'', JStr ''sk-aaaaaaaaaaaaaaaaaaaa'')])\<rparr>)
        (sample_env, sample_app)))
     (snd (serve PostgresDurableStore sample_config (sample_http\<lparr>rq_body :=
        Some (JObj [(''workflowId'', JStr ''w''), (''providerCredential'', JStr ''sk-bbbbbbbbbbbbbbbbbbbb'')])\<rparr>)
        (sample_env, sample_app)))"
  by (rule credential_confined [where c = "\<lparr>cr_workflowId = ''w'', cr_input = [],
        cr_providerCredential = Some ''sk-aaaaaaaaaaaaaaaaaaaa''\<rparr>" and secret = "''sk-bbbbbbbbbbbbbbbbbbbb''", THEN conjunct2])
     (simp_all add: createRunSchema_def z_string_def z_default_def z_optional_def length_in_def
       sample_config_def truthy_def)

end
