(* ===== verification/ConsoleServer.thy ===== *)
theory ConsoleServer
  imports Console ControlPlane
begin

text \<open>
  The console and the control plane together. \<open>control_plane_fetch\<close> is the network the console
  meets when the server runs at the address entered: the call is routed as the routes of \<open>app.ts\<close>
  say, served, and answered with the JSON text of the reply. Run identifiers are UUIDs and need no
  percent encoding. \<open>iso_date\<close> renders an instant, \<open>details\<close> the issues of a rejected body, which the
  model does not keep.
\<close>

section \<open>Routing and replies\<close>

definition route_of :: "string \<Rightarrow> string \<Rightarrow> route option" where
  "route_of meth path =
     (if meth = ''POST'' \<and> path = ''/v1/workflows'' then Some R_create_workflow
      else if meth = ''POST'' \<and> path = ''/v1/runs'' then Some R_create_run
      else if starts_with ''/v1/runs/'' path
      then (let rest = drop (length ''/v1/runs/'') path;
                i = takeWhile (\<lambda>c. c \<noteq> CHR ''/'') rest; tail = dropWhile (\<lambda>c. c \<noteq> CHR ''/'') rest in
            if meth = ''GET'' \<and> tail = [] then Some (R_read_run i)
            else if meth = ''POST'' \<and> tail = ''/approve'' then Some (R_approve i)
            else if meth = ''POST'' \<and> tail = ''/cancel'' then Some (R_cancel i)
            else None)
      else None)"

definition event_json :: "(timestamp \<Rightarrow> string) \<Rightarrow> run_event \<Rightarrow> json" where
  "event_json iso_date ev = JObj
     ([(''at'', JStr (iso_date (ev_at ev))), (''type'', JStr (event_type_name (ev_type ev))),
       (''detail'', JStr (ev_detail ev))] @
      (case ev_traceId ev of None \<Rightarrow> [] | Some t \<Rightarrow> [(''traceId'', JStr t)]))"

definition run_json :: "(timestamp \<Rightarrow> string) \<Rightarrow> stored_run \<Rightarrow> json" where
  "run_json iso_date r = JObj
     [(''id'', JStr (run_id r)), (''tenantId'', JStr (run_tenantId r)),
      (''workflowId'', JStr (run_workflowId r)), (''state'', JStr (run_state_name (run_state r))),
      (''input'', JObj (run_input r)), (''budgetCents'', JNum (of_int (run_budgetCents r))),
      (''idempotencyKey'', JStr (run_idempotencyKey r)), (''createdAt'', JStr (iso_date (run_createdAt r))),
      (''events'', JArr (map (event_json iso_date) (run_events r)))]"

definition workflow_json :: "(timestamp \<Rightarrow> string) \<Rightarrow> stored_workflow \<Rightarrow> json" where
  "workflow_json iso_date w = JObj
     [(''id'', JStr (sw_id w)), (''tenantId'', JStr (sw_tenantId w)),
      (''definition'', definition_json (sw_definition w)), (''createdAt'', JStr (iso_date (sw_createdAt w)))]"

definition audit_json :: "(timestamp \<Rightarrow> string) \<Rightarrow> audit_record \<Rightarrow> json" where
  "audit_json iso_date a = JObj
     [(''at'', JStr (iso_date (au_at a))), (''tenantId'', JStr (au_tenantId a)), (''subject'', JStr (au_subject a)),
      (''action'', JStr (au_action a)), (''resourceId'', JStr (au_resourceId a))]"

fun body_json :: "(timestamp \<Rightarrow> string) \<Rightarrow> json \<Rightarrow> reply_body \<Rightarrow> json option" where
  "body_json iso_date details (B_status s) = Some (JObj [(''status'', JStr s)])"
| "body_json iso_date details B_metrics = None"
| "body_json iso_date details (B_error s) = Some (JObj [(''error'', JStr s)])"
| "body_json iso_date details (B_error_details s) = Some (JObj [(''error'', JStr s), (''details'', details)])"
| "body_json iso_date details (B_thrown err) =
     Some (JObj [(''error'', JStr ''Internal Server Error''), (''message'', JStr (message err))])"
| "body_json iso_date details (B_workflow w) = Some (JObj [(''workflow'', workflow_json iso_date w)])"
| "body_json iso_date details (B_run r) = Some (JObj [(''run'', run_json iso_date r)])"
| "body_json iso_date details (B_created_run r b) = Some (JObj [(''run'', run_json iso_date r), (''replayed'', JBool b)])"
| "body_json iso_date details (B_credential c) = Some (JObj [(''credential'', JStr c)])"
| "body_json iso_date details (B_records rs) = Some (JObj [(''records'', JArr (map (audit_json iso_date) rs))])"

definition control_plane_fetch ::
  "string \<Rightarrow> (timestamp \<Rightarrow> string) \<Rightarrow> json \<Rightarrow> 's runtime_store \<Rightarrow> app_config \<Rightarrow> 's app_state fetch" where
  "control_plane_fetch base iso_date details st cf c =
     (if \<not> starts_with base (ca_url c) then io_throw (Error ''Failed to fetch'')
      else
       (let path = drop (length base) (ca_url c) in
        case route_of (ca_method c) path of
          None \<Rightarrow> io_return \<lparr>re_status = 404, re_body = Some (JObj [(''error'', JStr ''Not Found'')])\<rparr>
        | Some r \<Rightarrow>
            io_bind (serve st cf \<lparr>rq_route = r, rq_url = path,
                rq_headers = (\<lambda>k. map_option One (map_of (ca_headers c) k)), rq_body = ca_body c\<rparr>) (\<lambda>rp.
            io_return \<lparr>re_status = rp_code rp, re_body = body_json iso_date details (rp_body rp)\<rparr>)))"

section \<open>The controls of the page\<close>

lemma event_members:
  "js_get pf (Some (event_json iso_date ev)) ''at'' = Inr (Some (JStr (iso_date (ev_at ev))))"
  "js_optional_get (Some (event_json iso_date ev)) ''type'' = Some (JStr (event_type_name (ev_type ev)))"
  "js_optional_get (Some (event_json iso_date ev)) ''detail'' = Some (JStr (ev_detail ev))"
  by (simp_all add: event_json_def)

lemma timeline_events:
  "\<exists>rows. timeline pf (map (event_json iso_date) evs) = Inr rows \<and> length rows = length evs \<and>
     map (snd \<circ> snd) rows = map (\<lambda>ev. Some (JStr (ev_detail ev))) evs"
proof (induction evs)
  case (Cons ev evs)
  then obtain rows where "timeline pf (map (event_json iso_date) evs) = Inr rows" "length rows = length evs"
      "map (snd \<circ> snd) rows = map (\<lambda>ev. Some (JStr (ev_detail ev))) evs" by blast
  then show ?case
    by (simp add: event_members result_bind_def stateLabel_def o_def)
qed simp

text \<open>
  C35. The controls of the console agree with the checks of the server. On every run the control
  plane can answer with, the page renders, shows one line per event in the order of the events,
  offers the approval exactly in the state in which the server accepts one, offers the
  cancellation exactly in the states from which the transition to cancelled is allowed, and polls
  exactly while the next move is a worker's.
\<close>
theorem controls_match_server:
  "\<exists>v. render pf (p\<lparr>c_run := Some (run_json iso_date r)\<rparr>) = Inr v \<and>
     map (snd \<circ> snd) (vw_timeline v) = map (\<lambda>ev. Some (JStr (ev_detail ev))) (run_events r) \<and>
     ((Approve_mock_ticket, c_busy p) \<in> set (vw_buttons v) \<longleftrightarrow> run_state r = Awaiting_approval) \<and>
     ((Cancel_run, c_busy p) \<in> set (vw_buttons v) \<longleftrightarrow> assertTransition (run_state r) Cancelled = Inr ()) \<and>
     (polls (Some (run_json iso_date r)) \<longleftrightarrow> run_state r \<in> {Queued, Leased, Running})"
proof -
  obtain rows where rows: "timeline pf (map (event_json iso_date) (run_events r)) = Inr rows"
      "map (snd \<circ> snd) rows = map (\<lambda>ev. Some (JStr (ev_detail ev))) (run_events r)"
    using timeline_events by blast
  have run: "js_get pf (Some (run_json iso_date r)) ''events'' = Inr (Some (JArr (map (event_json iso_date) (run_events r))))"
      "js_get pf (Some (run_json iso_date r)) ''id'' = Inr (Some (JStr (run_id r)))"
      "js_get pf (Some (run_json iso_date r)) ''budgetCents'' = Inr (Some (JNum (of_int (run_budgetCents r))))"
      "js_optional_get (Some (run_json iso_date r)) ''state'' = Some (JStr (run_state_name (run_state r)))"
      "js_truthy (Some (run_json iso_date r))" "run_json iso_date r \<noteq> JNull"
    by (simp_all add: run_json_def)
  have polls: "polls (Some (run_json iso_date r)) \<longleftrightarrow> run_state r \<in> {Queued, Leased, Running}"
    by (cases "run_state r") (simp_all add: polls_def run_json_def)
  have buttons: "(Approve_mock_ticket, b) \<in> set (run_buttons b (Some (run_json iso_date r))) \<longleftrightarrow> run_state r = Awaiting_approval"
      "(Cancel_run, b) \<in> set (run_buttons b (Some (run_json iso_date r))) \<longleftrightarrow>
         assertTransition (run_state r) Cancelled = Inr ()" for b
    by (cases "run_state r"; simp add: run_buttons_def run state_is_def assertTransition_def Let_def)+
  show ?thesis
    using rows polls buttons
    by (simp add: render_def stateLabel_def run run_summary_def js_slice8_def shown_events_def result_bind_def)
qed

section \<open>The demonstration run\<close>

definition demo_definition :: "string \<Rightarrow> workflow_definition" where
  "demo_definition name =
     \<lparr>wf_schemaVersion = ''1'', wf_name = name, wf_version = ''v1'',
      wf_steps = [Tool Mock_data_read False, Transform Extract_json ''summarize fixture findings'',
                  Approval ''Confirm mock ticket creation'', Tool Mock_ticket_write True],
      wf_budgetCents = 100, wf_allowedHosts = [''example.test'']\<rparr>"

lemma demo_accepted:
  assumes "list_all lower_alnum_dash ending" and "length ending \<le> 8"
  shows "workflowDefinitionSchema (Some (JObj (spread demoWorkflow [(''name'', JStr (''research-demo-'' @ ending))]))) =
    Some (demo_definition (''research-demo-'' @ ending))"
proof -
  have "name_pattern (''research-demo-'' @ ending)" "length_in 3 (Some 80) (''research-demo-'' @ ending)"
    using assms by (simp_all add: name_pattern_def lower_alnum_dash_def length_in_def)
  moreover have "superRefine_issues (wf_steps (demo_definition [])) = []"
    by (simp add: superRefine_issues_def demo_definition_def upt_rec)
  ultimately show ?thesis
    by (simp add: workflowDefinitionSchema_def demoWorkflow_def spread_def demo_definition_def z_default_def
        z_array_def z_string_def z_int_def z_enum_def z_boolean_default_def workflowStepSchema_def Let_def
        tool_step_schema_def transform_step_schema_def approval_step_schema_def tools_def operations_def
        version_pattern_def is_digit_def length_in_def)
qed

text \<open>The store knows the tenant and the key entered on the page.\<close>

definition signed_in :: "console \<Rightarrow> env \<Rightarrow> mem_store \<Rightarrow> bool" where
  "signed_in p e s \<longleftrightarrow> c_tenantId p \<noteq> [] \<and> c_apiKey p \<noteq> [] \<and>
     ms_credentials s (c_tenantId p) =
       Some \<lparr>mc_hash = sha256_hex e (c_apiKey p), mc_role = Owner, mc_subject = ''bootstrap-owner''\<rparr>"

definition page_owner :: "console \<Rightarrow> principal" where
  "page_owner p = \<lparr>pr_tenantId = c_tenantId p, pr_role = Owner, pr_subject = ''bootstrap-owner''\<rparr>"

lemma serve_signed_in:
  assumes "signed_in p e (as_store a)" and "\<not> open_url (rq_url rq)"
    and "rq_headers rq ''x-tenant-id'' = Some (One (c_tenantId p))"
    and "rq_headers rq ''x-api-key'' = Some (One (c_apiKey p))"
    and "dispatch InMemoryDurableStore cf (Some (page_owner p)) rq (rq_route rq) (e, a) = (Inr rp, (e', a'))"
  shows "\<exists>mt. serve InMemoryDurableStore cf rq (e, a) = (Inr rp, (e', a'\<lparr>as_metrics := mt\<rparr>))"
proof -
  have "mem_authenticate (c_tenantId p) (Some (c_apiKey p)) (e, as_store a) =
      (Inr (Some (page_owner p)), (e, as_store a))"
    using assms(1) by (simp add: mem_authenticate_def signed_in_def page_owner_def io_bind_def io_get_def
        io_return_def hashApiKey_def io_env_def)
  then have "preHandler InMemoryDurableStore rq (e, a) = (Inr (Proceed (Some (page_owner p))), (e, a))"
    using assms(1-4) by (simp add: preHandler_def signed_in_def truthy_def InMemoryDurableStore_def io_bind_def
        io_zoom_def io_return_def)
  with assms(5) show ?thesis
    by (simp add: serve_def io_bind_def io_catch_def onResponse_def count_def io_modify_def io_return_def Let_def)
       (rule exI, rule refl)
qed

lemma fetch_served:
  assumes "route_of (in_method init) path = Some route" and "signed_in p e (as_store a)" and "\<not> open_url path"
    and "plain_init init"
    and "dispatch InMemoryDurableStore cf (Some (page_owner p))
      \<lparr>rq_route = route, rq_url = path,
       rq_headers = (\<lambda>k. map_option One (map_of (ca_headers (request_call p path init)) k)), rq_body = in_body init\<rparr>
      route (e, a) = (Inr rp, (e', a'))"
  shows "\<exists>mt. control_plane_fetch (c_apiUrl p) iso_date details InMemoryDurableStore cf (request_call p path init) (e, a) =
    (Inr \<lparr>re_status = rp_code rp, re_body = body_json iso_date details (rp_body rp)\<rparr>, (e', a'\<lparr>as_metrics := mt\<rparr>))"
proof -
  let ?c = "request_call p path init"
  have "map_of (ca_headers (request_call p (''/v1/'' @ x) init)) k = map_of (ca_headers ?c) k" for x k
    by (simp add: request_call_def Let_def)
  then have headers: "map_of (ca_headers ?c) ''x-tenant-id'' = Some (c_tenantId p)"
      "map_of (ca_headers ?c) ''x-api-key'' = Some (c_apiKey p)"
    using request_call_ok [OF assms(4), of p "[]"] unfolding console_call_def by metis+
  have call: "ca_url ?c = c_apiUrl p @ path" "ca_method ?c = in_method init" "ca_body ?c = in_body init"
    by (simp_all add: request_call_def Let_def)
  obtain mt where "serve InMemoryDurableStore cf \<lparr>rq_route = route, rq_url = path,
       rq_headers = (\<lambda>k. map_option One (map_of (ca_headers ?c) k)), rq_body = in_body init\<rparr> (e, a) =
       (Inr rp, (e', a'\<lparr>as_metrics := mt\<rparr>))"
    using serve_signed_in [OF assms(2), where cf = cf and rp = rp and e' = e' and a' = a' and rq = "\<lparr>rq_route = route, rq_url = path,
       rq_headers = (\<lambda>k. map_option One (map_of (ca_headers ?c) k)), rq_body = in_body init\<rparr>"] assms(3,5) headers
    by auto
  then show ?thesis
    using assms(1) by (simp add: control_plane_fetch_def call starts_with_prefix io_bind_def io_return_def)
       (rule exI, rule refl)
qed

lemma request_answered:
  assumes "fetch (request_call (tab_page t) path init) (e, tab_outside t) =
      (Inr \<lparr>re_status = code, re_body = Some j\<rparr>, (e', w))" and "code = 200 \<or> code = 201"
  shows "request pf fetch path init (e, t) = (Inr (Some j), (e', t\<lparr>tab_outside := w\<rparr>))"
  using assms by (auto simp: request_def io_bind_def io_get_def io_zoom_def io_return_def)

lemma workflow_created:
  assumes "signed_in p e (as_store a)" and "workflowDefinitionSchema (Some j) = Some wd"
  shows "\<exists>a' w. control_plane_fetch (c_apiUrl p) iso_date details InMemoryDurableStore cf
      (request_call p ''/v1/workflows'' (post (Some j) [])) (e, a) =
      (Inr \<lparr>re_status = 201, re_body = Some (JObj [(''workflow'', workflow_json iso_date w)])\<rparr>,
       (e\<lparr>issued := Suc (issued e), ticks := ticks e + 2\<rparr>, a')) \<and>
    sw_id w = uuids e (issued e) \<and> sw_tenantId w = c_tenantId p \<and> sw_definition w = wd \<and>
    ms_workflows (as_store a') = (ms_workflows (as_store a))(uuids e (issued e) \<mapsto> w) \<and>
    ms_runs (as_store a') = ms_runs (as_store a) \<and> ms_idempotency (as_store a') = ms_idempotency (as_store a) \<and>
    ms_credentials (as_store a') = ms_credentials (as_store a)"
proof -
  let ?path = "''/v1/workflows''" and ?init = "post (Some j) []"
  let ?rq = "\<lparr>rq_route = R_create_workflow, rq_url = ?path,
    rq_headers = (\<lambda>k. map_option One (map_of (ca_headers (request_call p ?path ?init)) k)), rq_body = Some j\<rparr>"
  obtain rp e' a' where run: "dispatch InMemoryDurableStore cf (Some (page_owner p)) ?rq R_create_workflow (e, a) =
      (Inr rp, (e', a'))" and
    result: "e' = e\<lparr>issued := Suc (issued e), ticks := ticks e + 2\<rparr>" "rp_code rp = 201"
      "\<exists>w. rp_body rp = B_workflow w \<and> sw_id w = uuids e (issued e) \<and> sw_tenantId w = c_tenantId p \<and>
         sw_definition w = wd \<and> ms_workflows (as_store a') = (ms_workflows (as_store a))(uuids e (issued e) \<mapsto> w)"
      "ms_runs (as_store a') = ms_runs (as_store a)" "ms_idempotency (as_store a') = ms_idempotency (as_store a)"
      "ms_credentials (as_store a') = ms_credentials (as_store a)"
    using assms(2)
    by (simp add: create_workflow_def requirePrincipal_def requireRole_def page_owner_def privilegedRoles_def
        InMemoryDurableStore_def mem_createWorkflow_def mem_audit_def io_bind_def io_zoom_def io_return_def
        next_uuid_def isoNow_def next_clock_def io_modify_def send_def Let_def)
  have "route_of (in_method ?init) ?path = Some R_create_workflow" "\<not> open_url ?path" "in_body ?init = Some j"
    by (simp_all add: route_of_def post_def open_url_def)
  with fetch_served [of ?init ?path R_create_workflow p e a cf rp e' a'] assms(1) plain_inits(2) run
  obtain mt where "control_plane_fetch (c_apiUrl p) iso_date details InMemoryDurableStore cf (request_call p ?path ?init) (e, a) =
    (Inr \<lparr>re_status = rp_code rp, re_body = body_json iso_date details (rp_body rp)\<rparr>, (e', a'\<lparr>as_metrics := mt\<rparr>))"
    by fastforce
  with result show ?thesis
    by (intro exI [of _ "a'\<lparr>as_metrics := mt\<rparr>"]) auto
qed

lemma run_created:
  fixes inp :: "(string \<times> json) list"
  assumes "signed_in p e (as_store a)" and "ms_idempotency (as_store a) = Map.empty"
    and "ms_workflows (as_store a) i = Some w" and "sw_tenantId w = c_tenantId p" and "cf_isUuid cf i"
    and "16 \<le> length key" and "length key \<le> 128"
  defines "init \<equiv> post (Some (JObj [(''workflowId'', JStr i), (''input'', JObj inp)])) [(''idempotency-key'', key)]"
  shows "\<exists>a' r. control_plane_fetch (c_apiUrl p) iso_date details InMemoryDurableStore cf
      (request_call p ''/v1/runs'' init) (e, a) =
      (Inr \<lparr>re_status = 201, re_body = Some (JObj [(''run'', run_json iso_date r), (''replayed'', JBool False)])\<rparr>,
       (e\<lparr>ticks := ticks e + 2, issued := Suc (issued e)\<rparr>, a')) \<and>
    r = mem_new_run (page_owner p) \<lparr>rr_workflowId = i, rr_input = inp, rr_providerCredentialHandle = None\<rparr> key w
      (clock e (ticks e)) (uuids e (issued e)) \<and>
    ms_runs (as_store a') = (ms_runs (as_store a))(uuids e (issued e) \<mapsto> r)"
proof -
  let ?path = "''/v1/runs''"
  let ?rq = "\<lparr>rq_route = R_create_run, rq_url = ?path,
    rq_headers = (\<lambda>k. map_option One (map_of (ca_headers (request_call p ?path init)) k)), rq_body = in_body init\<rparr>"
  have key: "map_of (ca_headers (request_call p ?path init)) ''idempotency-key'' = Some key"
    by (simp add: request_call_def init_def post_def spread_def page_headers_def)
  have parsed: "createRunSchema (cf_isUuid cf) (in_body init) =
      Some \<lparr>cr_workflowId = i, cr_input = inp, cr_providerCredential = None\<rparr>"
    using assms(5) by (simp add: createRunSchema_def init_def post_def z_string_def length_in_def z_default_def
        z_record_def z_optional_def)
  define r where "r = mem_new_run (page_owner p) \<lparr>rr_workflowId = i, rr_input = inp, rr_providerCredentialHandle = None\<rparr> key w
      (clock e (ticks e)) (uuids e (issued e))"
  obtain rp e' a' where run: "dispatch InMemoryDurableStore cf (Some (page_owner p)) ?rq R_create_run (e, a) =
      (Inr rp, (e', a'))" and
    result: "e' = e\<lparr>ticks := ticks e + 2, issued := Suc (issued e)\<rparr>"
      "rp = \<lparr>rp_code = 201, rp_body = B_created_run r False\<rparr>"
      "ms_runs (as_store a') = (ms_runs (as_store a))(uuids e (issued e) \<mapsto> r)"
    using assms(2-4,6,7) key
    by (simp add: r_def create_run_handler_def parsed requirePrincipal_def requireRole_def page_owner_def privilegedRoles_def
        InMemoryDurableStore_def try_create_run_def mem_createRun_def mem_audit_def io_bind_def io_zoom_def io_return_def
        io_catch_def io_get_def truthy_def count_def next_uuid_def isoNow_def next_clock_def io_modify_def send_def Let_def)
  have "route_of (in_method init) ?path = Some R_create_run" "\<not> open_url ?path" "plain_init init"
    using plain_inits(3) by (simp_all add: route_of_def post_def open_url_def init_def)
  with fetch_served [of init ?path R_create_run p e a cf rp e' a'] assms(1) run
  obtain mt where "control_plane_fetch (c_apiUrl p) iso_date details InMemoryDurableStore cf (request_call p ?path init) (e, a) =
    (Inr \<lparr>re_status = rp_code rp, re_body = body_json iso_date details (rp_body rp)\<rparr>, (e', a'\<lparr>as_metrics := mt\<rparr>))"
    by fastforce
  with result show ?thesis
    by (intro exI [of _ "a'\<lparr>as_metrics := mt\<rparr>"] exI [of _ r]) (auto simp: r_def [symmetric])
qed

text \<open>The two calls the action makes, with what the server answers and stores.\<close>

lemma demo_calls:
  assumes "as_store a = new_InMemoryDurableStore \<lparr>sd_tenantId = c_tenantId p, sd_apiKey = c_apiKey p,
      sd_role = None, sd_subject = None\<rparr> e"
    and "c_tenantId p \<noteq> []" and "c_apiKey p \<noteq> []"
    and "\<forall>n. length (uuids e n) = 36 \<and> list_all lower_alnum_dash (uuids e n) \<and> cf_isUuid cf (uuids e n)"
    and "n = issued e"
  obtains a1 w a2 r where
    "control_plane_fetch (c_apiUrl p) iso_date details InMemoryDurableStore cf (request_call p ''/v1/workflows''
        (post (Some (JObj (spread demoWorkflow [(''name'', JStr (''research-demo-'' @ take 8 (uuids e n)))]))) []))
        (e\<lparr>issued := Suc n\<rparr>, a) =
      (Inr \<lparr>re_status = 201, re_body = Some (JObj [(''workflow'', workflow_json iso_date w)])\<rparr>,
       (e\<lparr>issued := n + 2, ticks := ticks e + 2\<rparr>, a1))"
    and "sw_id w = uuids e (Suc n)"
    and "control_plane_fetch (c_apiUrl p) iso_date details InMemoryDurableStore cf (request_call p ''/v1/runs''
        (post (Some (JObj [(''workflowId'', JStr (uuids e (Suc n))),
          (''input'', JObj [(''query'', JStr ''synthetic safe fixture'')])])) [(''idempotency-key'', uuids e (n + 2))]))
        (e\<lparr>issued := n + 3, ticks := ticks e + 2\<rparr>, a1) =
      (Inr \<lparr>re_status = 201, re_body = Some (JObj [(''run'', run_json iso_date r), (''replayed'', JBool False)])\<rparr>,
       (e\<lparr>issued := n + 4, ticks := ticks e + 4\<rparr>, a2))"
    and "ms_runs (as_store a2) = [run_id r \<mapsto> r]" and "run_state r = Queued" and "run_tenantId r = c_tenantId p"
    and "run_budgetCents r = 100"
proof -
  let ?fetch = "control_plane_fetch (c_apiUrl p) iso_date details InMemoryDurableStore cf"
  let ?e1 = "e\<lparr>issued := Suc n\<rparr>" and ?name = "''research-demo-'' @ take 8 (uuids e n)"
  have "signed_in p ?e1 (as_store a)"
    using assms(1-3) by (simp add: signed_in_def new_InMemoryDurableStore_def)
  moreover have "workflowDefinitionSchema (Some (JObj (spread demoWorkflow [(''name'', JStr ?name)]))) =
      Some (demo_definition ?name)"
    using assms(4) by (intro demo_accepted) (auto simp: list_all_iff dest: in_set_takeD)
  ultimately obtain a1 w where one: "?fetch (request_call p ''/v1/workflows''
        (post (Some (JObj (spread demoWorkflow [(''name'', JStr ?name)]))) [])) (?e1, a) =
      (Inr \<lparr>re_status = 201, re_body = Some (JObj [(''workflow'', workflow_json iso_date w)])\<rparr>,
       (?e1\<lparr>issued := Suc (issued ?e1), ticks := ticks ?e1 + 2\<rparr>, a1))"
    and w: "sw_id w = uuids ?e1 (issued ?e1)" "sw_tenantId w = c_tenantId p" "sw_definition w = demo_definition ?name"
    and s1: "ms_workflows (as_store a1) = (ms_workflows (as_store a))(uuids ?e1 (issued ?e1) \<mapsto> w)"
      "ms_runs (as_store a1) = ms_runs (as_store a)" "ms_idempotency (as_store a1) = ms_idempotency (as_store a)"
      "ms_credentials (as_store a1) = ms_credentials (as_store a)"
    using workflow_created by blast
  let ?e3 = "e\<lparr>issued := n + 3, ticks := ticks e + 2\<rparr>"
  have "signed_in p ?e3 (as_store a1)"
    using assms(1-3) s1 by (simp add: signed_in_def new_InMemoryDurableStore_def)
  moreover have "ms_idempotency (as_store a1) = Map.empty" "ms_workflows (as_store a1) (uuids e (Suc n)) = Some w"
    using s1 assms(1) by (simp_all add: new_InMemoryDurableStore_def)
  moreover have "cf_isUuid cf (uuids e (Suc n))" "16 \<le> length (uuids e (n + 2))" "length (uuids e (n + 2)) \<le> 128"
    using assms(4) by simp_all
  ultimately obtain a2 r where two: "?fetch (request_call p ''/v1/runs'' (post (Some (JObj
        [(''workflowId'', JStr (uuids e (Suc n))), (''input'', JObj [(''query'', JStr ''synthetic safe fixture'')])]))
        [(''idempotency-key'', uuids e (n + 2))])) (?e3, a1) =
      (Inr \<lparr>re_status = 201, re_body = Some (JObj [(''run'', run_json iso_date r), (''replayed'', JBool False)])\<rparr>,
       (?e3\<lparr>ticks := ticks ?e3 + 2, issued := Suc (issued ?e3)\<rparr>, a2))"
    and r: "r = mem_new_run (page_owner p) \<lparr>rr_workflowId = uuids e (Suc n),
        rr_input = [(''query'', JStr ''synthetic safe fixture'')], rr_providerCredentialHandle = None\<rparr>
        (uuids e (n + 2)) w (clock ?e3 (ticks ?e3)) (uuids ?e3 (issued ?e3))"
    and s2: "ms_runs (as_store a2) = (ms_runs (as_store a1))(uuids ?e3 (issued ?e3) \<mapsto> r)"
    using run_created [OF _ _ _ w(2), where e = ?e3 and iso_date = iso_date and details = details
        and inp = "[(''query'', JStr ''synthetic safe fixture'')]"] by blast
  have run: "run_id r = uuids e (n + 3)" "run_state r = Queued" "run_tenantId r = c_tenantId p" "run_budgetCents r = 100"
    using r w(3) by (simp_all add: mem_new_run_def page_owner_def demo_definition_def)
  have "ms_runs (as_store a2) = [run_id r \<mapsto> r]"
    using s1(2) s2 assms(1) run(1) by (simp add: new_InMemoryDurableStore_def)
  moreover have "?e1\<lparr>issued := Suc (issued ?e1), ticks := ticks ?e1 + 2\<rparr> = e\<lparr>issued := n + 2, ticks := ticks e + 2\<rparr>"
      "?e3\<lparr>ticks := ticks ?e3 + 2, issued := Suc (issued ?e3)\<rparr> = e\<lparr>issued := n + 4, ticks := ticks e + 4\<rparr>"
    by simp_all
  ultimately show thesis
    using that [OF one [unfolded \<open>?e1\<lparr>issued := Suc (issued ?e1), ticks := ticks ?e1 + 2\<rparr> = _\<close>] _
        two [unfolded \<open>?e3\<lparr>ticks := ticks ?e3 + 2, issued := Suc (issued ?e3)\<rparr> = _\<close>]] w(1) run
    by simp
qed

text \<open>
  C34. The demonstration works end to end. Take a fresh in-memory control plane that knows the tenant
  and key entered on the page, and a source of UUIDs in their usual form. The button that creates
  the demonstration run then succeeds: the server accepts the workflow of the console, queues a run
  of it for the tenant with the budget of the workflow, and the page shows that very run, says so,
  and can be used again.
\<close>
theorem console_demo_run:
  assumes "as_store a = new_InMemoryDurableStore \<lparr>sd_tenantId = c_tenantId p, sd_apiKey = c_apiKey p,
      sd_role = None, sd_subject = None\<rparr> e"
    and "c_tenantId p \<noteq> []" and "c_apiKey p \<noteq> []"
    and "\<forall>n. length (uuids e n) = 36 \<and> list_all lower_alnum_dash (uuids e n) \<and> cf_isUuid cf (uuids e n)"
  shows "\<exists>e' a' r. perform pf (control_plane_fetch (c_apiUrl p) iso_date details InMemoryDurableStore cf) Create_demo
      (e, \<lparr>tab_page = p, tab_outside = a\<rparr>) =
      (Inr (), (e', \<lparr>tab_page = p\<lparr>c_run := Some (run_json iso_date r), c_busy := False,
         c_message := ''Run queued. The worker will stop at approval before the mock side effect.''\<rparr>,
         tab_outside = a'\<rparr>)) \<and>
    mem_view (as_store a') (c_tenantId p) (run_id r) = Some r \<and> ms_runs (as_store a') = [run_id r \<mapsto> r] \<and>
    run_state r = Queued \<and> run_tenantId r = c_tenantId p \<and> run_budgetCents r = 100"
proof -
  let ?fetch = "control_plane_fetch (c_apiUrl p) iso_date details InMemoryDurableStore cf"
  define n where "n = issued e"
  define p1 where "p1 = p\<lparr>c_busy := True, c_message := ''Creating immutable workflow definition...''\<rparr>"
  define p2 where "p2 = p1\<lparr>c_message := ''Queueing an idempotent run. No provider key or real external action is used.''\<rparr>"
  let ?e1 = "e\<lparr>issued := Suc n\<rparr>" and ?e3 = "e\<lparr>issued := n + 3, ticks := ticks e + 2\<rparr>" and ?name = "''research-demo-'' @ take 8 (uuids e n)"
  have call: "request_call p1 path init = request_call p path init" "request_call p2 path init = request_call p path init"
    for path init
    by (simp_all add: p1_def p2_def request_call_def page_headers_def)
  obtain a1 w a2 r where one: "?fetch (request_call p ''/v1/workflows''
        (post (Some (JObj (spread demoWorkflow [(''name'', JStr ?name)]))) [])) (?e1, a) =
      (Inr \<lparr>re_status = 201, re_body = Some (JObj [(''workflow'', workflow_json iso_date w)])\<rparr>,
       (e\<lparr>issued := n + 2, ticks := ticks e + 2\<rparr>, a1))"
    and w: "sw_id w = uuids e (Suc n)"
    and two: "?fetch (request_call p ''/v1/runs'' (post (Some (JObj
        [(''workflowId'', JStr (uuids e (Suc n))), (''input'', JObj [(''query'', JStr ''synthetic safe fixture'')])]))
        [(''idempotency-key'', uuids e (n + 2))])) (?e3, a1) =
      (Inr \<lparr>re_status = 201, re_body = Some (JObj [(''run'', run_json iso_date r), (''replayed'', JBool False)])\<rparr>,
       (e\<lparr>issued := n + 4, ticks := ticks e + 4\<rparr>, a2))"
    and r: "ms_runs (as_store a2) = [run_id r \<mapsto> r]" "run_state r = Queued" "run_tenantId r = c_tenantId p"
      "run_budgetCents r = 100"
    by (rule demo_calls [OF assms n_def])
  have first: "request pf ?fetch ''/v1/workflows''
        (post (Some (JObj (spread demoWorkflow [(''name'', JStr ?name)]))) []) (?e1, \<lparr>tab_page = p1, tab_outside = a\<rparr>) =
      (Inr (Some (JObj [(''workflow'', workflow_json iso_date w)])),
       (e\<lparr>issued := n + 2, ticks := ticks e + 2\<rparr>, \<lparr>tab_page = p1, tab_outside = a1\<rparr>))"
    using request_answered [of ?fetch "\<lparr>tab_page = p1, tab_outside = a\<rparr>"] one by (simp add: call)
  have second: "request pf ?fetch ''/v1/runs'' (post (Some (JObj
        [(''workflowId'', JStr (uuids e (Suc n))), (''input'', JObj [(''query'', JStr ''synthetic safe fixture'')])]))
        [(''idempotency-key'', uuids e (n + 2))]) (?e3, \<lparr>tab_page = p2, tab_outside = a1\<rparr>) =
      (Inr (Some (JObj [(''run'', run_json iso_date r), (''replayed'', JBool False)])),
       (e\<lparr>issued := n + 4, ticks := ticks e + 4\<rparr>, \<lparr>tab_page = p2, tab_outside = a2\<rparr>))"
    using request_answered [of ?fetch "\<lparr>tab_page = p2, tab_outside = a1\<rparr>"] two by (simp add: call)
  have begun: "begun Create_demo \<lparr>tab_page = p, tab_outside = a\<rparr> = \<lparr>tab_page = p1, tab_outside = a\<rparr>"
    by (simp add: begun_def p1_def)
  have swap: "e\<lparr>ticks := x, issued := y\<rparr> = e\<lparr>issued := y, ticks := x\<rparr>" for x y
    by simp
  define p3 where "p3 = p2\<lparr>c_run := Some (run_json iso_date r),
    c_message := ''Run queued. The worker will stop at approval before the mock side effect.''\<rparr>"
  have "create_work pf ?fetch (e, \<lparr>tab_page = p1, tab_outside = a\<rparr>) =
      (Inr (), (e\<lparr>issued := n + 4, ticks := ticks e + 4\<rparr>, \<lparr>tab_page = p3, tab_outside = a2\<rparr>))"
    using first second w
    by (simp add: create_work_def io_bind_def next_uuid_def n_def [symmetric] page_defs p2_def [symmetric] io_try_def
        io_return_def workflow_json_def numeral_3_eq_3 p3_def swap)
  then have "perform pf ?fetch Create_demo (e, \<lparr>tab_page = p, tab_outside = a\<rparr>) =
      (Inr (), (e\<lparr>issued := n + 4, ticks := ticks e + 4\<rparr>, \<lparr>tab_page = p3\<lparr>c_busy := False\<rparr>, tab_outside = a2\<rparr>))"
    unfolding perform_eq begun by (simp add: idle_def io_finally_def io_catch_def page_defs)
  then show ?thesis
    using r by (intro exI [of _ a2] exI [of _ r] exI) (auto simp: p3_def p2_def p1_def mem_view_def)
qed

section \<open>Sample pages\<close>

definition sample_platform :: platform where
  "sample_platform =
     \<lparr>pf_typeError = ''type error'', pf_toText = (\<lambda>_. ''[object Object]''), pf_time = (\<lambda>_. ''12:00:00''),
      pf_amount = (\<lambda>_. ''NaN''), pf_toNumber = (\<lambda>_. None)\<rparr>"

definition sample_tab :: "unit tab" where
  "sample_tab = \<lparr>tab_page = initial_console, tab_outside = ()\<rparr>"

definition offline :: "unit fetch" where
  "offline c = io_throw (Error ''Failed to fetch'')"


theorem console_calls_confined_witness:
  "perform sample_platform (\<lambda>c. if prefix ''http://127.0.0.1:3001'' (ca_url c) then offline c else io_throw (Error ''leaked''))
     Create_demo (sample_env, sample_tab) =
   perform sample_platform offline Create_demo (sample_env, sample_tab)"
  by (rule console_calls_confined) (auto simp: agree_on_def console_call_def sample_tab_def initial_console_def)

definition uuid_env :: env where
  "uuid_env = sample_env\<lparr>uuids := (\<lambda>_. ''01234567-89ab-4cde-8f01-23456789abcd'')\<rparr>"

definition fresh_app :: "mem_store app_state" where
  "fresh_app =
     \<lparr>as_store = new_InMemoryDurableStore \<lparr>sd_tenantId = ''demo-tenant'',
        sd_apiKey = ''replace-with-a-long-local-key'', sd_role = None, sd_subject = None\<rparr> uuid_env,
      as_broker = new_broker None, as_metrics = as_metrics sample_app\<rparr>"

theorem console_demo_run_witness:
  "\<exists>e' t' r. perform sample_platform
       (control_plane_fetch ''http://127.0.0.1:3001'' (\<lambda>_. ''1970-01-01'') JNull InMemoryDurableStore
         (sample_config\<lparr>cf_isUuid := (\<lambda>_. True)\<rparr>)) Create_demo
       (uuid_env, \<lparr>tab_page = initial_console, tab_outside = fresh_app\<rparr>) = (Inr (), (e', t')) \<and>
     ms_runs (as_store (tab_outside t')) = [run_id r \<mapsto> r] \<and> run_state r = Queued"
  using console_demo_run [of fresh_app initial_console uuid_env "sample_config\<lparr>cf_isUuid := (\<lambda>_. True)\<rparr>" sample_platform
      "\<lambda>_. ''1970-01-01''" JNull]
  by (auto simp: fresh_app_def initial_console_def uuid_env_def lower_alnum_dash_def)

end
