(* ===== verification/OutboxPublisher.thy ===== *)
theory OutboxPublisher
  imports WorkerPaths
begin

text \<open>
  The outbox publisher (\<open>services/control-plane/src/outbox-publisher.ts\<close>). It claims a batch of
  pending messages, publishes them to JetStream one after the other, and marks them published once
  all were acknowledged; the first failure ends the round with the error and nothing marked.

  JetStream is outside the repository: what it answers to each publication is the parameter
  \<open>js_fates\<close>, and \<open>js_log\<close> is what its stream has stored. A publication may be stored although
  the acknowledgement is lost. The polling loop of \<open>runOutboxPublisher\<close> is a number of rounds,
  the number of times the abort signal was found unset.
\<close>

datatype publish_fate = Acknowledged | NotStored string | StoredUnacknowledged string

type_synonym published = "string \<times> (string \<times> json) list"

record jetstream =
  js_fates :: "nat \<Rightarrow> publish_fate"
  js_calls :: nat
  js_log :: "published list"

record publisher_metrics =
  pm_published :: nat
  pm_failures :: nat
  pm_backlog :: nat

record publisher =
  pb_store :: pg
  pb_stream :: jetstream
  pb_metrics :: publisher_metrics

abbreviation in_outbox :: "(pg, 'a) io \<Rightarrow> (publisher, 'a) io" where
  "in_outbox \<equiv> io_zoom pb_store (\<lambda>s b. b\<lparr>pb_store := s\<rparr>)"

text \<open>\<open>{ ...payload, tenantId }\<close>: a member of that name is overwritten where it stands.\<close>

definition with_tenantId :: "uuid \<Rightarrow> (string \<times> json) list \<Rightarrow> (string \<times> json) list" where
  "with_tenantId t payload =
     (if ''tenantId'' \<in> set (map fst payload)
      then map (\<lambda>(k, v). if k = ''tenantId'' then (k, JStr t) else (k, v)) payload
      else payload @ [(''tenantId'', JStr t)])"

definition encode :: "outbox_message \<Rightarrow> published" where
  "encode msg = (om_subject msg, with_tenantId (om_tenantId msg) (om_payload msg))"

definition js_publish :: "published \<Rightarrow> (publisher, unit) io" where
  "js_publish content =
     (\<lambda>(e, b).
        let js = pb_stream b;
            stored = b\<lparr>pb_stream := js\<lparr>js_calls := Suc (js_calls js), js_log := js_log js @ [content]\<rparr>\<rparr>;
            lost = b\<lparr>pb_stream := js\<lparr>js_calls := Suc (js_calls js)\<rparr>\<rparr> in
        case js_fates js (js_calls js) of
          Acknowledged \<Rightarrow> (Inr (), (e, stored))
        | NotStored given \<Rightarrow> (Inl (Error given), (e, lost))
        | StoredUnacknowledged given \<Rightarrow> (Inl (Error given), (e, stored)))"

definition count_publisher :: "(publisher_metrics \<Rightarrow> publisher_metrics) \<Rightarrow> (publisher, unit) io" where
  "count_publisher f = io_modify (\<lambda>b. b\<lparr>pb_metrics := f (pb_metrics b)\<rparr>)"

primrec publish_all :: "outbox_message list \<Rightarrow> nat list \<Rightarrow> (publisher, nat list) io" where
  "publish_all [] delivered = io_return delivered"
| "publish_all (msg # messages) delivered =
     io_bind (io_catch (js_publish (encode msg)) (\<lambda>err.
       io_bind (count_publisher (\<lambda>m. m\<lparr>pm_failures := Suc (pm_failures m)\<rparr>)) (\<lambda>_. io_throw err))) (\<lambda>_.
     publish_all messages (delivered @ [om_id msg]))"

definition publishPending :: "nat \<Rightarrow> (publisher, nat) io" where
  "publishPending limit =
     io_bind (in_outbox (claimPendingOutbox limit)) (\<lambda>messages.
     io_bind (publish_all messages []) (\<lambda>delivered.
     io_bind (in_outbox (markOutboxPublished delivered)) (\<lambda>_.
     io_bind (count_publisher (\<lambda>m. m\<lparr>pm_published := pm_published m + length delivered\<rparr>)) (\<lambda>_.
     io_bind (in_outbox outboxBacklog) (\<lambda>backlog.
     io_bind (count_publisher (\<lambda>m. m\<lparr>pm_backlog := backlog\<rparr>)) (\<lambda>_.
     io_return (length delivered)))))))"

primrec publisher_rounds :: "nat \<Rightarrow> (publisher, unit) io" where
  "publisher_rounds 0 = io_return ()"
| "publisher_rounds (Suc n) = io_bind (publishPending 50) (\<lambda>_. publisher_rounds n)"

section \<open>The outbox methods as equations on the database\<close>

definition pending :: "db \<Rightarrow> outbox_row list" where
  "pending d = filter (\<lambda>x. ob_published_at x = None) (db_outbox d)"

definition attempted :: "nat set \<Rightarrow> db \<Rightarrow> db" where
  "attempted ids = update_outbox (\<lambda>x. ob_id x \<in> ids) (\<lambda>x. x\<lparr>ob_attempts := Suc (ob_attempts x)\<rparr>)"

definition marked :: "nat set \<Rightarrow> timestamp \<Rightarrow> db \<Rightarrow> db" where
  "marked ids now = update_outbox (\<lambda>x. ob_id x \<in> ids) (\<lambda>x. x\<lparr>ob_published_at := Some now\<rparr>)"

lemma claimPendingOutbox_cases:
  assumes "claimPendingOutbox limit (e, p) = (r, (e', p'))" and "pg_role p = DarWorker"
  obtains (given_up) err where "r = Inl err" and "p' = p"
  | (claimed) batch where "batch = take limit (pending (pg_db p))"
      and "p' = p\<lparr>pg_db := attempted (ob_id ` set batch) (pg_db p)\<rparr>"
      and "r = Inr (map to_message batch) \<or> (\<exists>err. r = Inl err)"
  using assms(1) unfolding claimPendingOutbox_def
proof (cases rule: pg_transaction_cases)
  case (given_up err)
  then show thesis by (rule that(1))
next
  case (committed x e2 s)
  let ?d = "pg_db p" and ?batch = "take limit (pending (pg_db p))"
  have none: "update_outbox (\<lambda>x. False) f d = d" for f d
    by (simp add: update_outbox_def)
  have "se_db s = attempted (ob_id ` set ?batch) ?d \<and> x = map to_message ?batch"
    using committed(1) assms(2)
    by (cases "?batch = []")
       (auto simp: completed select_pending_def count_attempts_def io_return_def open_session_def
         pending_def attempted_def none split: if_splits)
  then show thesis
    using committed(2,3) that(2) [of ?batch] by auto
qed

lemma markOutboxPublished_cases:
  assumes "markOutboxPublished ids (e, p) = (r, (e', p'))" and "pg_role p = DarWorker"
  obtains (unmarked) "p' = p" and "ids = [] \<or> (\<exists>err. r = Inl err)"
  | (marked) "p' = p\<lparr>pg_db := marked (set ids) (clock e (ticks e)) (pg_db p)\<rparr>" and "ids \<noteq> []"
proof (cases "ids = []")
  case True
  then show thesis
    using that(1) assms(1) by (simp add: markOutboxPublished_def io_return_def)
next
  case False
  with assms(1) have "pool_query [(Update, T_outbox), (Select, T_outbox)] (mark_published ids) (e, p)
      = (r, (e', p'))"
    by (simp add: markOutboxPublished_def)
  then show thesis
  proof (cases rule: pool_query_cases)
    case (refused err)
    then show thesis using that(1) by simp
  next
    case (performed e1 x d)
    then show thesis
      using that(2) False assms(2)
      by (auto simp: mark_published_def marked_def open_session_def)
  qed
qed

lemma outboxBacklog_keeps:
  assumes "outboxBacklog (e, p) = (r, (e', p'))" and "pg_role p = DarWorker"
  shows "p' = p \<and> (\<forall>n. r = Inr n \<longrightarrow> n = length (pending (pg_db p)))"
  using assms(1) unfolding outboxBacklog_def
proof (cases rule: pool_query_cases)
  case (performed e1 x d)
  then show ?thesis
    using assms(2) by (auto simp: count_pending_def open_session_def pending_def)
qed simp

section \<open>One round\<close>

lemma js_publish_eq:
  "js_publish content (e, b) =
     (let js = pb_stream b;
          stored = b\<lparr>pb_stream := js\<lparr>js_calls := Suc (js_calls js), js_log := js_log js @ [content]\<rparr>\<rparr>;
          lost = b\<lparr>pb_stream := js\<lparr>js_calls := Suc (js_calls js)\<rparr>\<rparr> in
      case js_fates js (js_calls js) of
        Acknowledged \<Rightarrow> (Inr (), (e, stored))
      | NotStored given \<Rightarrow> (Inl (Error given), (e, lost))
      | StoredUnacknowledged given \<Rightarrow> (Inl (Error given), (e, stored)))"
  by (simp add: js_publish_def)

text \<open>The stream gets a prefix of the batch, all of it if no publication failed.\<close>

lemma publish_all_result:
  assumes "publish_all messages ids (e, b) = (r, (e', b'))"
  shows "e' = e \<and> pb_store b' = pb_store b \<and> js_fates (pb_stream b') = js_fates (pb_stream b) \<and>
    (\<exists>sent. prefix sent messages \<and>
       js_log (pb_stream b') = js_log (pb_stream b) @ map encode sent \<and>
       (\<forall>ids'. r = Inr ids' \<longrightarrow> sent = messages \<and> ids' = ids @ map om_id messages))"
  using assms
proof (induction messages arbitrary: ids b)
  case Nil
  then show ?case by (auto simp: io_return_def)
next
  case (Cons msg messages)
  let ?js = "pb_stream b"
  let ?b1 = "b\<lparr>pb_stream := ?js\<lparr>js_calls := Suc (js_calls ?js), js_log := js_log ?js @ [encode msg]\<rparr>\<rparr>"
  show ?case
  proof (cases "js_fates ?js (js_calls ?js)")
    case Acknowledged
    then have "publish_all messages (ids @ [om_id msg]) (e, ?b1) = (r, (e', b'))"
      using Cons.prems by (simp add: io_bind_def io_catch_def js_publish_eq Let_def)
    from Cons.IH [OF this] obtain sent where "prefix sent messages" and "e' = e"
        "pb_store b' = pb_store b" "js_fates (pb_stream b') = js_fates ?js"
        "js_log (pb_stream b') = js_log ?js @ map encode (msg # sent)"
        "\<forall>ids'. r = Inr ids' \<longrightarrow> sent = messages \<and> ids' = ids @ map om_id (msg # messages)"
      by auto
    then show ?thesis
      by (intro conjI exI [of _ "msg # sent"]) auto
  next
    case (NotStored given)
    then show ?thesis
      using Cons.prems
      by (auto simp: io_bind_def io_catch_def js_publish_eq Let_def count_publisher_def io_modify_def
          io_throw_def intro!: exI [of _ "[]"])
  next
    case (StoredUnacknowledged given)
    then show ?thesis
      using Cons.prems
      by (auto simp: io_bind_def io_catch_def js_publish_eq Let_def count_publisher_def io_modify_def
          io_throw_def intro!: exI [of _ "[msg]"])
  qed
qed

lemma io_zoom_result:
  "io_zoom get put m (e, b) = (r, (e', b')) \<longleftrightarrow> (\<exists>t. m (e, get b) = (r, (e', t)) \<and> b' = put t b)"
  by (auto simp: io_zoom_def split: prod.splits)

text \<open>
  What a round may have done by the time it ended, however it ended: the stream holds a prefix of
  the batch more; the database has the attempts of the batch counted, or not; and rows are marked
  only when the whole batch is in the stream.
\<close>

definition round_effect :: "nat \<Rightarrow> publisher \<Rightarrow> publisher \<Rightarrow> bool" where
  "round_effect limit b b' \<longleftrightarrow>
     (let d = pg_db (pb_store b); batch = take limit (pending d); ids = ob_id ` set batch in
      pg_role (pb_store b') = DarWorker \<and> js_fates (pb_stream b') = js_fates (pb_stream b) \<and>
      (\<exists>sent. prefix sent (map to_message batch) \<and>
         js_log (pb_stream b') = js_log (pb_stream b) @ map encode sent \<and>
         (pg_db (pb_store b') = d \<or> pg_db (pb_store b') = attempted ids d \<or>
          (\<exists>now. sent = map to_message batch \<and> pg_db (pb_store b') = marked ids now (attempted ids d)))))"

lemma om_id_to_message: "om_id (to_message x) = ob_id x"
  by (simp add: to_message_def)

lemma publishPending_effect:
  assumes "publishPending limit (e, b) = (r, (e', b'))" and "pg_role (pb_store b) = DarWorker"
  shows "round_effect limit b b'"
proof -
  let ?d = "pg_db (pb_store b)" and ?batch = "take limit (pending (pg_db (pb_store b)))"
  let ?ids = "ob_id ` set ?batch"
  obtain y e1 p1 where claim: "claimPendingOutbox limit (e, pb_store b) = (y, (e1, p1))"
    using prod_cases3 by blast
  let ?b1 = "b\<lparr>pb_store := p1\<rparr>"
  from claim assms(2) consider (no) err where "y = Inl err" "p1 = pb_store b"
    | (lost) err where "y = Inl err" "p1 = (pb_store b)\<lparr>pg_db := attempted ?ids ?d\<rparr>"
    | (claimed) "y = Inr (map to_message ?batch)" "p1 = (pb_store b)\<lparr>pg_db := attempted ?ids ?d\<rparr>"
    by (cases rule: claimPendingOutbox_cases) auto
  then show ?thesis
  proof cases
    case no
    then have "b' = b"
      using assms(1) claim by (auto simp: publishPending_def io_bind_def io_zoom_def)
    then show ?thesis
      using assms(2) by (auto simp: round_effect_def Let_def)
  next
    case lost
    then have "b' = ?b1"
      using assms(1) claim by (auto simp: publishPending_def io_bind_def io_zoom_def)
    then show ?thesis
      using assms(2) lost by (auto simp: round_effect_def Let_def)
  next
    case claimed
    obtain z e2 b2 where pub: "publish_all (map to_message ?batch) [] (e1, ?b1) = (z, (e2, b2))"
      using prod_cases3 by blast
    from publish_all_result [OF pub] obtain sent where sent: "prefix sent (map to_message ?batch)"
        "e2 = e1" "pb_store b2 = p1" "js_fates (pb_stream b2) = js_fates (pb_stream b)"
        "js_log (pb_stream b2) = js_log (pb_stream b) @ map encode sent"
        "\<forall>ids'. z = Inr ids' \<longrightarrow> sent = map to_message ?batch \<and> ids' = map om_id (map to_message ?batch)"
      by auto
    show ?thesis
    proof (cases z)
      case (Inl err)
      then have "b' = b2"
        using assms(1) claim claimed pub by (auto simp: publishPending_def io_bind_def io_zoom_def)
      then show ?thesis
        using sent claimed assms(2) by (auto simp: round_effect_def Let_def)
    next
      case (Inr ids')
      then have ids': "ids' = map ob_id ?batch" "sent = map to_message ?batch"
        using sent(6) by (auto simp: om_id_to_message)
      obtain v e3 p3 where mark: "markOutboxPublished ids' (e2, p1) = (v, (e3, p3))"
        using prod_cases3 by blast
      have p1: "pg_role p1 = DarWorker"
        using claimed(2) assms(2) by simp
      from mark p1 have p3: "p3 = p1 \<or> (\<exists>now. p3 = p1\<lparr>pg_db := marked ?ids now (pg_db p1)\<rparr>)"
        by (cases rule: markOutboxPublished_cases) (auto simp: ids')
      obtain q e4 p4 where backlog: "outboxBacklog (e3, p3) = (q, (e4, p4))"
        using prod_cases3 by blast
      have "pg_role p3 = DarWorker"
        using p3 p1 by auto
      from outboxBacklog_keeps [OF backlog this] have p4: "p4 = p3" by simp
      have after: "pb_store b' = p3 \<and> pb_stream b' = pb_stream b2"
        using assms(1) claim claimed pub Inr mark sent(3) backlog p4
        by (cases v; cases q)
           (auto simp: publishPending_def io_bind_def io_zoom_def count_publisher_def io_modify_def
            io_return_def)
      then show ?thesis
        unfolding round_effect_def Let_def using p3 sent ids' claimed assms(2)
        by (intro conjI exI [of _ sent]) auto
    qed
  qed
qed

section \<open>Rows and the stream\<close>

lemma to_message_counters [simp]:
  "to_message (x\<lparr>ob_attempts := n\<rparr>) = to_message x"
  "to_message (x\<lparr>ob_published_at := q\<rparr>) = to_message x"
  by (simp_all add: to_message_def)

lemma outbox_updates [simp]:
  "map ob_id (db_outbox (attempted ids d)) = map ob_id (db_outbox d)"
  "map ob_id (db_outbox (marked ids now d)) = map ob_id (db_outbox d)"
  by (simp_all add: attempted_def marked_def update_outbox_def)

text \<open>Every row marked published is in the stream, under its own tenant.\<close>

definition published_stored :: "publisher \<Rightarrow> bool" where
  "published_stored b \<longleftrightarrow> (\<forall>x \<in> set (db_outbox (pg_db (pb_store b))).
     ob_published_at x \<noteq> None \<longrightarrow> encode (to_message x) \<in> set (js_log (pb_stream b)))"

lemma published_stored_round:
  assumes "round_effect limit b b'" and "published_stored b"
    and D: "distinct (map ob_id (db_outbox (pg_db (pb_store b))))"
  shows "published_stored b' \<and>
    map ob_id (db_outbox (pg_db (pb_store b'))) = map ob_id (db_outbox (pg_db (pb_store b)))"
proof -
  let ?d = "pg_db (pb_store b)" and ?batch = "take limit (pending (pg_db (pb_store b)))"
  let ?ids = "ob_id ` set ?batch" and ?log = "js_log (pb_stream b)" and ?log' = "js_log (pb_stream b')"
  from assms(1) obtain sent where sent: "?log' = ?log @ map encode sent"
    and cases: "pg_db (pb_store b') = ?d \<or> pg_db (pb_store b') = attempted ?ids ?d \<or>
      (\<exists>now. sent = map to_message ?batch \<and> pg_db (pb_store b') = marked ?ids now (attempted ?ids ?d))"
    unfolding round_effect_def Let_def by blast
  have old: "encode (to_message x) \<in> set ?log'"
    if "x \<in> set (db_outbox ?d)" and "ob_published_at x \<noteq> None" for x
    using that assms(2) sent by (auto simp: published_stored_def)
  have batch: "x \<in> set ?batch" if "x \<in> set (db_outbox ?d)" and "ob_id x \<in> ?ids" for x
  proof -
    from that(2) obtain y where "y \<in> set ?batch" "ob_id y = ob_id x" by auto
    moreover from this(1) have "y \<in> set (db_outbox ?d)"
      by (auto simp: pending_def dest: in_set_takeD)
    ultimately show ?thesis
      using distinct_map_inj [OF D, of y x] that(1) by auto
  qed
  from cases show ?thesis
  proof (elim disjE exE conjE)
    fix now
    assume all: "sent = map to_message ?batch"
      and d': "pg_db (pb_store b') = marked ?ids now (attempted ?ids ?d)"
    have "encode (to_message x) \<in> set ?log'" if "x \<in> set (db_outbox ?d)" "ob_id x \<in> ?ids" for x
      using batch [OF that] sent all by auto
    then show ?thesis
      using old unfolding published_stored_def d'
      by (auto simp: marked_def attempted_def update_outbox_def split: if_splits)
  qed (use assms(2) old in \<open>auto simp: published_stored_def attempted_def update_outbox_def split: if_splits\<close>)
qed

lemma published_stored_rounds:
  assumes "publisher_rounds n (e, b) = (r, (e', b'))" and "pg_role (pb_store b) = DarWorker"
    and "distinct (map ob_id (db_outbox (pg_db (pb_store b))))" and "published_stored b"
  shows "published_stored b' \<and>
    map ob_id (db_outbox (pg_db (pb_store b'))) = map ob_id (db_outbox (pg_db (pb_store b)))"
  using assms
proof (induction n arbitrary: e b)
  case 0
  then show ?case by (simp add: io_return_def)
next
  case (Suc n)
  obtain y e1 b1 where step: "publishPending 50 (e, b) = (y, (e1, b1))"
    using prod_cases3 by blast
  note effect = publishPending_effect [OF step Suc.prems(2)]
  note round = published_stored_round [OF effect Suc.prems(4,3)]
  show ?case
  proof (cases y)
    case (Inl err)
    then show ?thesis
      using Suc.prems(1) step round by (auto simp: io_bind_def)
  next
    case (Inr k)
    then have rest: "publisher_rounds n (e1, b1) = (r, (e', b'))"
      using Suc.prems(1) step by (simp add: io_bind_def)
    have "pg_role (pb_store b1) = DarWorker"
      using effect by (simp add: round_effect_def Let_def)
    from Suc.IH [OF rest this] round Suc.prems(3) show ?thesis by simp
  qed
qed

section \<open>Draining the outbox\<close>

lemma pending_after:
  assumes "distinct (map ob_id (db_outbox d))"
    and "ids = ob_id ` set (take n (pending d))"
  shows "pending (marked ids now (attempted ids d)) = drop n (pending d)"
proof -
  let ?ids = "ob_id ` set (take n (pending d))"
  let ?f = "\<lambda>x. if ob_id x \<in> ?ids then x\<lparr>ob_attempts := Suc (ob_attempts x), ob_published_at := Some now\<rparr> else x"
  have "db_outbox (marked ?ids now (attempted ?ids d)) = map ?f (db_outbox d)"
    by (auto simp: marked_def attempted_def update_outbox_def)
  moreover have "filter (\<lambda>x. ob_published_at x = None) (map ?f xs) =
      filter (\<lambda>x. ob_id x \<notin> ?ids) (filter (\<lambda>x. ob_published_at x = None) xs)" for xs
    by (induction xs) auto
  ultimately have eq: "pending (marked ?ids now (attempted ?ids d)) =
      filter (\<lambda>x. ob_id x \<notin> ?ids) (pending d)"
    by (simp add: pending_def)
  have "distinct (map ob_id (pending d))"
    using assms(1) by (simp add: pending_def distinct_map_filter)
  then have disjoint: "set (map ob_id (take n (pending d))) \<inter> set (map ob_id (drop n (pending d))) = {}"
    by (metis append_take_drop_id distinct_append map_append)
  have "filter (\<lambda>x. ob_id x \<notin> ob_id ` set xs) (xs @ ys) = ys"
    if "set (map ob_id xs) \<inter> set (map ob_id ys) = {}" for xs ys :: "outbox_row list"
    using that by (auto simp: filter_empty_conv intro!: filter_True)
  from this [OF disjoint] eq assms(2) show ?thesis by simp
qed

lemma claimPendingOutbox_performed:
  assumes "\<And>n. fates e n = Performed" and "pg_role p = DarWorker"
  shows "\<exists>e'. claimPendingOutbox limit (e, p) = (Inr (map to_message (take limit (pending (pg_db p)))),
    (e', p\<lparr>pg_db := attempted (ob_id ` set (take limit (pending (pg_db p)))) (pg_db p)\<rparr>)) \<and> same_sources e e'"
proof -
  let ?body = "io_bind (query [(Select, T_outbox), (Update, T_outbox)] (select_pending limit)) (\<lambda>rows.
     io_bind (if rows \<noteq> []
              then query [(Update, T_outbox), (Select, T_outbox)] (count_attempts (map ob_id rows))
              else io_return ()) (\<lambda>_. io_return (map to_message rows)))"
  have keeps: "env_keeps ?body"
    by (intro env_rules)
  have none: "update_outbox (\<lambda>x. False) f d = d" for f d
    by (simp add: update_outbox_def)
  obtain e2 s where body: "?body (e\<lparr>roundtrips := roundtrips e + 2, ticks := Suc (ticks e)\<rparr>,
        (open_session p)\<lparr>se_now := clock e (ticks e)\<rparr>) =
      (Inr (map to_message (take limit (pending (pg_db p)))), (e2, s))"
    and s: "se_db s = attempted (ob_id ` set (take limit (pending (pg_db p)))) (pg_db p)"
    using assms
    by (cases "take limit (pending (pg_db p)) = []")
       (auto simp: io_bind_def query_performed select_pending_def count_attempts_def io_return_def
         open_session_def pending_def attempted_def none)
  note run = pg_transaction_performed [OF assms(1) keeps body]
  show ?thesis
    unfolding claimPendingOutbox_def
    using run env_keepsD [OF env_keeps_transaction [OF keeps] run] s by auto
qed

lemma publish_all_acknowledged:
  assumes "\<forall>n. js_fates (pb_stream b) n = Acknowledged"
  shows "publish_all messages ids (e, b) = (Inr (ids @ map om_id messages), (e, b\<lparr>pb_stream := (pb_stream b)\<lparr>
    js_calls := js_calls (pb_stream b) + length messages,
    js_log := js_log (pb_stream b) @ map encode messages\<rparr>\<rparr>))"
  using assms
proof (induction messages arbitrary: ids b)
  case Nil
  then show ?case by (simp add: io_return_def)
next
  case (Cons msg messages)
  let ?js = "pb_stream b"
  let ?b1 = "b\<lparr>pb_stream := ?js\<lparr>js_calls := Suc (js_calls ?js), js_log := js_log ?js @ [encode msg]\<rparr>\<rparr>"
  have "js_publish (encode msg) (e, b) = (Inr (), (e, ?b1))"
    using Cons.prems by (simp add: js_publish_eq Let_def)
  then show ?case
    using Cons.IH [of ?b1 "ids @ [om_id msg]"] Cons.prems by (simp add: io_bind_def io_catch_def)
qed

lemma markOutboxPublished_performed:
  assumes "\<forall>n. fates e n = Performed" and "pg_role p = DarWorker"
  shows "\<exists>e' now. markOutboxPublished ids (e, p) = (Inr (), (e', p\<lparr>pg_db := marked (set ids) now (pg_db p)\<rparr>)) \<and>
    same_sources e e'"
proof (cases "ids = []")
  case True
  then show ?thesis
    by (auto simp: markOutboxPublished_def io_return_def marked_def update_outbox_def intro!: exI [of _ e])
next
  case False
  let ?e = "e\<lparr>roundtrips := Suc (roundtrips e), ticks := Suc (ticks e)\<rparr>"
  have "markOutboxPublished ids (e, p) =
      (Inr (), (?e, p\<lparr>pg_db := marked (set ids) (clock e (ticks e)) (pg_db p)\<rparr>))"
    using False assms
    by (simp add: markOutboxPublished_def)
       (subst pool_query_performed; auto simp: mark_published_def marked_def open_session_def)
  then show ?thesis
    by (intro exI conjI) (auto simp: same_sources_def)
qed

lemma outboxBacklog_performed:
  assumes "\<forall>n. fates e n = Performed" and "pg_role p = DarWorker"
  shows "\<exists>e'. outboxBacklog (e, p) = (Inr (length (pending (pg_db p))), (e', p)) \<and> same_sources e e'"
proof -
  let ?e = "e\<lparr>roundtrips := Suc (roundtrips e), ticks := Suc (ticks e)\<rparr>"
  have "outboxBacklog (e, p) = (Inr (length (pending (pg_db p))), (?e, p))"
    unfolding outboxBacklog_def using assms
    by (subst pool_query_performed) (auto simp: count_pending_def open_session_def pending_def)
  then show ?thesis
    by (intro exI conjI) (auto simp: same_sources_def)
qed

text \<open>A publisher whose round trips and publications all succeed.\<close>

definition undisturbed :: "env \<Rightarrow> publisher \<Rightarrow> bool" where
  "undisturbed e b \<longleftrightarrow>
     (\<forall>n. fates e n = Performed) \<and> (\<forall>n. js_fates (pb_stream b) n = Acknowledged) \<and>
     pg_role (pb_store b) = DarWorker \<and> distinct (map ob_id (db_outbox (pg_db (pb_store b))))"

lemma publishPending_undisturbed:
  assumes "undisturbed e b"
  shows "\<exists>e' b'. publishPending limit (e, b) = (Inr (length (take limit (pending (pg_db (pb_store b))))), (e', b')) \<and>
    undisturbed e' b' \<and>
    js_log (pb_stream b') = js_log (pb_stream b) @
      map (\<lambda>x. encode (to_message x)) (take limit (pending (pg_db (pb_store b)))) \<and>
    pending (pg_db (pb_store b')) = drop limit (pending (pg_db (pb_store b))) \<and>
    pm_backlog (pb_metrics b') = length (pending (pg_db (pb_store b')))"
proof -
  let ?p = "pb_store b" and ?d = "pg_db (pb_store b)"
  let ?batch = "take limit (pending ?d)" and ?js = "pb_stream b"
  let ?ids = "ob_id ` set ?batch"
  have performed: "\<forall>n. fates e n = Performed" and acks: "\<forall>n. js_fates ?js n = Acknowledged"
    and role: "pg_role ?p = DarWorker" and D: "distinct (map ob_id (db_outbox ?d))"
    using assms by (auto simp: undisturbed_def)
  let ?p1 = "?p\<lparr>pg_db := attempted ?ids ?d\<rparr>"
  obtain e1 where claim: "claimPendingOutbox limit (e, ?p) = (Inr (map to_message ?batch), (e1, ?p1))"
      and e1: "same_sources e e1"
    using claimPendingOutbox_performed [of e ?p limit] performed role by auto
  let ?b2 = "b\<lparr>pb_store := ?p1, pb_stream := ?js\<lparr>js_calls := js_calls ?js + length ?batch,
      js_log := js_log ?js @ map encode (map to_message ?batch)\<rparr>\<rparr>"
  have pub: "publish_all (map to_message ?batch) [] (e1, b\<lparr>pb_store := ?p1\<rparr>) =
      (Inr (map ob_id ?batch), (e1, ?b2))"
    using publish_all_acknowledged [of "b\<lparr>pb_store := ?p1\<rparr>" "map to_message ?batch" "[]" e1] acks
    by (simp add: om_id_to_message comp_def)
  obtain e2 now where mark: "markOutboxPublished (map ob_id ?batch) (e1, ?p1) =
      (Inr (), (e2, ?p1\<lparr>pg_db := marked ?ids now (attempted ?ids ?d)\<rparr>))" and e2: "same_sources e1 e2"
    using markOutboxPublished_performed [of e1 ?p1 "map ob_id ?batch"] performed role e1
    by (auto simp: same_sources_def)
  let ?p3 = "?p\<lparr>pg_db := marked ?ids now (attempted ?ids ?d)\<rparr>"
  obtain e3 where backlog: "outboxBacklog (e2, ?p3) = (Inr (length (pending (pg_db ?p3))), (e3, ?p3))"
      and e3: "same_sources e2 e3"
    using outboxBacklog_performed [of e2 ?p3] performed role e1 e2 by (auto simp: same_sources_def)
  have left: "pending (pg_db ?p3) = drop limit (pending ?d)"
    using pending_after [OF D refl] by simp
  have fates3: "\<forall>n. fates e3 n = Performed"
    using performed e1 e2 e3 by (auto simp: same_sources_def)
  show ?thesis
    using claim pub mark backlog left fates3 acks role D
    by (simp add: publishPending_def io_bind_def io_zoom_def count_publisher_def io_modify_def
        io_return_def undisturbed_def comp_def)
qed

lemma rounds_undisturbed:
  assumes "undisturbed e b"
  shows "\<exists>e' b'. publisher_rounds n (e, b) = (Inr (), (e', b')) \<and>
    js_log (pb_stream b') = js_log (pb_stream b) @
      map (\<lambda>x. encode (to_message x)) (take (50 * n) (pending (pg_db (pb_store b)))) \<and>
    pending (pg_db (pb_store b')) = drop (50 * n) (pending (pg_db (pb_store b)))"
  using assms
proof (induction n arbitrary: e b)
  case 0
  then show ?case by (simp add: io_return_def)
next
  case (Suc n)
  let ?pending = "pending (pg_db (pb_store b))"
  obtain e1 b1 where step: "publishPending 50 (e, b) = (Inr (length (take 50 ?pending)), (e1, b1))"
    and ok: "undisturbed e1 b1"
    and log: "js_log (pb_stream b1) = js_log (pb_stream b) @ map (\<lambda>x. encode (to_message x)) (take 50 ?pending)"
    and left: "pending (pg_db (pb_store b1)) = drop 50 ?pending"
    using publishPending_undisturbed [OF Suc.prems, of 50] by blast
  from Suc.IH [OF ok] obtain e2 b2 where rest: "publisher_rounds n (e1, b1) = (Inr (), (e2, b2))"
    "js_log (pb_stream b2) = js_log (pb_stream b1) @
      map (\<lambda>x. encode (to_message x)) (take (50 * n) (drop 50 ?pending))"
    "pending (pg_db (pb_store b2)) = drop (50 * n) (drop 50 ?pending)"
    unfolding left by blast
  have "take (50 * Suc n) ?pending = take 50 ?pending @ take (50 * n) (drop 50 ?pending)"
    using take_add [of 50 "50 * n" ?pending] by simp
  moreover have "drop (50 * Suc n) ?pending = drop (50 * n) (drop 50 ?pending)"
    by (simp add: add.commute)
  ultimately show ?case
    using step rest log by (simp add: io_bind_def)
qed

section \<open>Properties\<close>

text \<open>
  C15. Nothing is marked published that the stream does not hold. Over any number of rounds, with
  round trips and publications failing in every way and acknowledgements lost, each outbox row
  marked published has its message in the stream, and no outbox row is ever lost.
\<close>
theorem published_rows_are_stored:
  assumes "publisher_rounds n (e, b) = (r, (e', b'))" and "pg_role (pb_store b) = DarWorker"
    and "distinct (map ob_id (db_outbox (pg_db (pb_store b))))"
    and "\<forall>x \<in> set (db_outbox (pg_db (pb_store b))). ob_published_at x \<noteq> None \<longrightarrow>
      encode (to_message x) \<in> set (js_log (pb_stream b))"
  shows "(\<forall>x \<in> set (db_outbox (pg_db (pb_store b'))). ob_published_at x \<noteq> None \<longrightarrow>
      encode (to_message x) \<in> set (js_log (pb_stream b'))) \<and>
    map ob_id (db_outbox (pg_db (pb_store b'))) = map ob_id (db_outbox (pg_db (pb_store b)))"
  using published_stored_rounds [OF assms(1-3)] assms(4) by (simp add: published_stored_def)

text \<open>
  C16. The outbox drains. When round trips and publications succeed, enough rounds return, leave no
  pending message and append to the stream exactly the pending messages, once each and in the
  order of the outbox.
\<close>
theorem publisher_drains:
  assumes "\<forall>n. fates e n = Performed" and "\<forall>n. js_fates (pb_stream b) n = Acknowledged"
    and "pg_role (pb_store b) = DarWorker" and "distinct (map ob_id (db_outbox (pg_db (pb_store b))))"
    and "length (pending (pg_db (pb_store b))) \<le> 50 * n"
  shows "\<exists>e' b'. publisher_rounds n (e, b) = (Inr (), (e', b')) \<and>
    pending (pg_db (pb_store b')) = [] \<and>
    js_log (pb_stream b') = js_log (pb_stream b) @
      map (\<lambda>x. encode (to_message x)) (pending (pg_db (pb_store b)))"
  using rounds_undisturbed [of e b n] assms by (auto simp: undisturbed_def)

definition sample_publisher :: publisher where
  "sample_publisher =
     \<lparr>pb_store = sample_queue,
      pb_stream = \<lparr>js_fates = (\<lambda>_. Acknowledged), js_calls = 0, js_log = []\<rparr>,
      pb_metrics = \<lparr>pm_published = 0, pm_failures = 0, pm_backlog = 0\<rparr>\<rparr>"

lemma sample_publisher_simps [simp]:
  "pg_role (pb_store sample_publisher) = DarWorker"
  "js_fates (pb_stream sample_publisher) n = Acknowledged" "js_log (pb_stream sample_publisher) = []"
  by (simp_all add: sample_publisher_def sample_queue_def)

lemma sample_publisher_outbox:
  "distinct (map ob_id (db_outbox (pg_db (pb_store sample_publisher))))"
  "\<forall>x \<in> set (db_outbox (pg_db (pb_store sample_publisher))). ob_published_at x = None"
  "pending (pg_db (pb_store sample_publisher)) = db_outbox (pg_db sample_queue)"
  "map (\<lambda>x. encode (to_message x)) (db_outbox (pg_db sample_queue)) =
     [(''dar.run.queued'', [(''runId'', JStr ''r''), (''tenantId'', JStr ''t'')])]"
  by (simp_all add: sample_publisher_def sample_queue_def pending_def encode_def to_message_def
      with_tenantId_def)

theorem published_rows_are_stored_witness:
  "\<exists>r e' b'. publisher_rounds 3 (sample_env, sample_publisher) = (r, (e', b')) \<and>
     map ob_id (db_outbox (pg_db (pb_store b'))) = [1]"
proof -
  obtain r e' b' where run: "publisher_rounds 3 (sample_env, sample_publisher) = (r, (e', b'))"
    using prod_cases3 by blast
  have "map ob_id (db_outbox (pg_db (pb_store sample_publisher))) = [1]"
    by (simp add: sample_publisher_def sample_queue_def)
  with run published_rows_are_stored [OF run] sample_publisher_outbox(1,2) show ?thesis by simp
qed

theorem publisher_drains_witness:
  "\<exists>e' b'. publisher_rounds 1 (sample_env, sample_publisher) = (Inr (), (e', b')) \<and>
     pending (pg_db (pb_store b')) = [] \<and>
     js_log (pb_stream b') = [(''dar.run.queued'', [(''runId'', JStr ''r''), (''tenantId'', JStr ''t'')])]"
  using publisher_drains [of sample_env sample_publisher 1] sample_publisher_outbox
  by (simp add: sample_queue_def)

text \<open>Spreading a member over an object: the member decides its own key and no other.\<close>

lemma map_of_overwrite:
  "map_of (map (\<lambda>(k, v). if k = c then (k, x) else (k, v)) xs) j =
     (if j = c \<and> c \<in> set (map fst xs) then Some x else map_of xs j)"
proof (induction xs)
  case (Cons a xs)
  then show ?case
    by (cases a, cases "fst a = c"; cases "j = c") simp_all
qed simp

lemma map_of_snoc:
  "map_of (xs @ [(c, x)]) j = (if j = c \<and> c \<notin> set (map fst xs) then Some x else map_of xs j)"
proof (induction xs)
  case (Cons a xs)
  then show ?case
    by (cases a, cases "fst a = c"; cases "j = c") simp_all
qed simp

lemma map_of_spread:
  "map_of (if c \<in> set (map fst xs) then map (\<lambda>(k, v). if k = c then (k, x) else (k, v)) xs
           else xs @ [(c, x)]) = (map_of xs)(c \<mapsto> x)"
proof (rule ext)
  fix j
  show "map_of (if c \<in> set (map fst xs) then map (\<lambda>(k, v). if k = c then (k, x) else (k, v)) xs
      else xs @ [(c, x)]) j = ((map_of xs)(c \<mapsto> x)) j"
  proof (cases "c \<in> set (map fst xs)")
    case True
    then show ?thesis by (simp only: map_of_overwrite fun_upd_apply if_True simp_thms)
  next
    case False
    then show ?thesis by (simp only: map_of_snoc fun_upd_apply if_False simp_thms not_False_eq_True)
  qed
qed

text \<open>
  A published message always carries the tenant of its outbox row, whatever the stored payload
  says, and otherwise the members of the payload.
\<close>
theorem message_carries_tenant:
  "fst (encode msg) = om_subject msg \<and>
   map_of (snd (encode msg)) = (map_of (om_payload msg))(''tenantId'' \<mapsto> JStr (om_tenantId msg))"
  unfolding encode_def with_tenantId_def fst_conv snd_conv
  by (intro conjI refl) (rule map_of_spread)

end
