(* ===== verification/Startup.thy ===== *)
theory Startup
  imports OutboxPublisher MemoryStore JsRegex
begin

text \<open>
  The two processes around the components: the server of the control plane
  (\<open>services/control-plane/src/server.ts\<close>, \<open>telemetry.ts\<close>, the CORS check and the tracing hooks of
  \<open>app.ts\<close>) and the outbox publisher (\<open>publish.ts\<close>, \<open>runOutboxPublisher\<close> in \<open>outbox-publisher.ts\<close>).
  The environment variables are a map. What the tracing library, the listener, the NATS connection
  and the pool do when they are started, drained or closed is a parameter; the model counts the
  calls. The abort signal is a parameter too: whether the loop finds it set at its \<open>n\<close>-th check.
\<close>

type_synonym process_env = "string \<rightharpoonup> string"

definition or_default :: "string option \<Rightarrow> string \<Rightarrow> string" where
  "or_default v d = (case v of None \<Rightarrow> d | Some s \<Rightarrow> s)"

section \<open>Cross-origin requests\<close>

fun split_at :: "char \<Rightarrow> string \<Rightarrow> string list" where
  "split_at sep [] = [[]]"
| "split_at sep (c # cs) =
     (if c = sep then [] # split_at sep cs
      else (case split_at sep cs of [] \<Rightarrow> [[c]] | w # ws \<Rightarrow> (c # w) # ws))"

definition cors_origin :: "process_env \<Rightarrow> string option \<Rightarrow> bool" where
  "cors_origin penv origin =
     (let allowed = split_at (CHR '','') (or_default (penv ''CONSOLE_ORIGIN'') ''http://127.0.0.1:5173'') in
      \<not> truthy origin \<or> the origin \<in> set allowed)"

section \<open>Telemetry\<close>

text \<open>\<open>endpoint.replace(/\/$/, "")\<close>: the first match only.\<close>

definition replace_first :: "regex \<Rightarrow> string \<Rightarrow> string \<Rightarrow> string" where
  "replace_first r new s =
     (case search r [] s of
        None \<Rightarrow> s
      | Some (p, q) \<Rightarrow> rev (fst p) @ new @ snd q)"

definition trailing_slash :: regex where
  "trailing_slash = Seq (Cls (\<lambda>c. c = CHR ''/'')) End"

record telemetry =
  tl_exporters :: "string list"
  tl_started :: bool
  tl_shutdowns :: nat

definition startTelemetry :: "process_env \<Rightarrow> telemetry \<Rightarrow> telemetry" where
  "startTelemetry penv t =
     (if \<not> truthy (penv ''OTEL_EXPORTER_OTLP_ENDPOINT'') \<or> tl_started t then t
      else t\<lparr>tl_exporters := tl_exporters t @
               [replace_first trailing_slash [] (the (penv ''OTEL_EXPORTER_OTLP_ENDPOINT'')) @ ''/v1/traces''],
             tl_started := True\<rparr>)"

definition shutdownTelemetry :: "telemetry \<Rightarrow> telemetry" where
  "shutdownTelemetry t = (if tl_started t then t\<lparr>tl_shutdowns := Suc (tl_shutdowns t)\<rparr> else t)"

text \<open>The span of a request: its method, the path of its route and, at the end, its status.\<close>

record span =
  sp_method :: string
  sp_path :: string
  sp_status :: nat
  sp_error :: bool

fun route_method :: "route \<Rightarrow> string" where
  "route_method R_create_workflow = ''POST''"
| "route_method R_create_run = ''POST''"
| "route_method (R_consume_credential h) = ''POST''"
| "route_method (R_approve i) = ''POST''"
| "route_method (R_cancel i) = ''POST''"
| "route_method _ = ''GET''"

definition request_span :: "http_request \<Rightarrow> reply \<Rightarrow> span" where
  "request_span request rp =
     \<lparr>sp_method = route_method (rq_route request), sp_path = route_label (rq_route request),
      sp_status = rp_code rp, sp_error = (500 \<le> rp_code rp)\<rparr>"

section \<open>The server process\<close>

datatype server_store = Postgres_store | Memory_store mem_store

definition select_store :: "process_env \<Rightarrow> (pg, server_store) io" where
  "select_store penv =
     (let tenantId = or_default (penv ''DAR_BOOTSTRAP_TENANT'') ''demo-tenant'';
          apiKey = or_default (penv ''DAR_BOOTSTRAP_API_KEY'') ''replace-with-a-long-local-key'' in
      if truthy (penv ''POSTGRES_URL'')
      then io_bind (bootstrap \<lparr>ps_tenantSlug = tenantId, ps_apiKey = apiKey, ps_role = None, ps_subject = None\<rparr>)
             (\<lambda>_. io_return Postgres_store)
      else io_bind (io_env (\<lambda>e. new_InMemoryDurableStore
             \<lparr>sd_tenantId = tenantId, sd_apiKey = apiKey, sd_role = None, sd_subject = None\<rparr> e))
             (\<lambda>s. io_return (Memory_store s)))"

record listen_options =
  lo_host :: string
  lo_port :: string

definition server_listen :: "process_env \<Rightarrow> listen_options" where
  "server_listen penv =
     \<lparr>lo_host = or_default (penv ''HOST'') ''127.0.0.1'', lo_port = or_default (penv ''PORT'') ''3001''\<rparr>"

record server_process =
  sp_closing :: bool
  sp_appCloses :: nat
  sp_telemetry :: telemetry

text \<open>\<open>closes\<close> says what \<open>app.close()\<close> does: it succeeds or it throws.\<close>

definition closeGracefully :: "unit result \<Rightarrow> server_process \<Rightarrow> unit result \<times> server_process" where
  "closeGracefully closes s =
     (if sp_closing s then (Inr (), s)
      else
       (let s' = s\<lparr>sp_closing := True, sp_appCloses := Suc (sp_appCloses s)\<rparr> in
        case closes of
          Inl err \<Rightarrow> (Inl err, s')
        | Inr _ \<Rightarrow> (Inr (), s'\<lparr>sp_telemetry := shutdownTelemetry (sp_telemetry s')\<rparr>)))"

section \<open>The publisher process\<close>

datatype monitor_body = Metrics_text | Plain string | No_body

definition metrics_server :: "string \<Rightarrow> nat \<times> monitor_body" where
  "metrics_server url =
     (if url = ''/metrics'' then (200, Metrics_text)
      else if url = ''/health/live'' \<or> url = ''/health/ready'' then (200, Plain ''ok'')
      else (404, No_body))"

partial_function (option) publisher_loop ::
  "(nat \<Rightarrow> bool) \<Rightarrow> nat \<Rightarrow> publisher world \<Rightarrow> (unit result \<times> publisher world) option" where
  "publisher_loop aborted n w =
     (if aborted n then Some (Inr (), w)
      else
       (case publishPending 50 w of
          (Inl err, w') \<Rightarrow> Some (Inl err, w')
        | (Inr _, w') \<Rightarrow> publisher_loop aborted (Suc n) w'))"

declare publisher_loop.simps [code]

record connections =
  cx_drains :: nat
  cx_closes :: nat
  cx_listening :: "listen_options option"

text \<open>
  The arguments \<open>connects\<close> and \<open>drains\<close> say whether connecting to NATS and draining the connection
  succeed. A connection that fails leaves before the \<open>try\<close>.
\<close>

definition runOutboxPublisher ::
  "unit result \<Rightarrow> unit result \<Rightarrow> (nat \<Rightarrow> bool) \<Rightarrow> connections \<times> publisher world \<Rightarrow>
   (unit result \<times> connections \<times> publisher world) option" where
  "runOutboxPublisher connects drains aborted = (\<lambda>(cx, w).
     case connects of
       Inl err \<Rightarrow> Some (Inl err, cx, w)
     | Inr _ \<Rightarrow>
         (case publisher_loop aborted 0 w of
            None \<Rightarrow> None
          | Some (r, w') \<Rightarrow>
              (let cx' = cx\<lparr>cx_drains := Suc (cx_drains cx)\<rparr> in
               case drains of
                 Inl err \<Rightarrow> Some (Inl err, cx', w')
               | Inr _ \<Rightarrow> Some (r, cx'\<lparr>cx_closes := Suc (cx_closes cx')\<rparr>, w'))))"

definition publisher_listen :: "process_env \<Rightarrow> listen_options" where
  "publisher_listen penv =
     \<lparr>lo_host = or_default (penv ''HOST'') ''0.0.0.0'', lo_port = or_default (penv ''DAR_PUBLISHER_HTTP_PORT'') ''9092''\<rparr>"

text \<open>
  The process listens for its monitoring before the publisher runs and closes that server only when
  the publisher returned without an error; \<open>closes\<close> says whether closing succeeds.
\<close>

definition publish_main ::
  "process_env \<Rightarrow> unit result \<Rightarrow> unit result \<Rightarrow> unit result \<Rightarrow> (nat \<Rightarrow> bool) \<Rightarrow> connections \<times> publisher world \<Rightarrow>
   (unit result \<times> connections \<times> publisher world) option" where
  "publish_main penv connects drains closes aborted = (\<lambda>(cx, w).
     if \<not> truthy (penv ''DAR_WORKER_POSTGRES_URL'')
     then Some (Inl (Error ''DAR_WORKER_POSTGRES_URL is required for the outbox publisher''), cx, w)
     else
      (case runOutboxPublisher connects drains aborted (cx\<lparr>cx_listening := Some (publisher_listen penv)\<rparr>, w) of
         None \<Rightarrow> None
       | Some (Inl err, cx', w') \<Rightarrow> Some (Inl err, cx', w')
       | Some (Inr _, cx', w') \<Rightarrow> Some (closes, cx'\<lparr>cx_listening := None\<rparr>, w')))"

section \<open>The loop and its end\<close>

lemma publisher_loop_rounds:
  assumes "aborted (n + k) \<or> (\<exists>err w'. publisher_rounds k w = (Inl err, w'))"
  shows "\<exists>m \<le> k. publisher_loop aborted n w = Some (publisher_rounds m w) \<and> (\<forall>j < m. \<not> aborted (n + j)) \<and>
    (aborted (n + m) \<or> (\<exists>err w'. publisher_rounds m w = (Inl err, w')))"
  using assms
proof (induction k arbitrary: n w)
  case 0
  then show ?case
    by (auto simp: publisher_loop.simps [of aborted n] io_return_def)
next
  case (Suc k)
  show ?case
  proof (cases "aborted n")
    case True
    then show ?thesis
      by (intro exI [of _ 0]) (simp add: publisher_loop.simps [of aborted n] io_return_def)
  next
    case False
    obtain r w1 where round: "publishPending 50 w = (r, w1)" by (rule prod.exhaust)
    show ?thesis
    proof (cases r)
      case (Inl err)
      with False round show ?thesis
        by (intro exI [of _ 1]) (simp add: publisher_loop.simps [of aborted n] io_bind_def)
    next
      case (Inr x)
      then have rounds: "publisher_rounds (Suc m) w = publisher_rounds m w1" for m
        using round by (simp add: io_bind_def)
      with Suc.prems have "aborted (Suc n + k) \<or> (\<exists>err w'. publisher_rounds k w1 = (Inl err, w'))"
        by simp
      from Suc.IH [OF this] obtain m where m: "m \<le> k"
          "publisher_loop aborted (Suc n) w1 = Some (publisher_rounds m w1)" "\<forall>j < m. \<not> aborted (Suc n + j)"
          "aborted (Suc n + m) \<or> (\<exists>err w'. publisher_rounds m w1 = (Inl err, w'))"
        by blast
      have "\<not> aborted (n + j)" if "j < Suc m" for j
        using that False m(3) by (cases j) auto
      with m False round Inr show ?thesis
        unfolding publisher_loop.simps [of aborted n]
        by (intro exI [of _ "Suc m"]) (simp add: rounds del: publisher_rounds.simps)
    qed
  qed
qed



section \<open>Shutdown of the server\<close>

definition fresh_server :: "process_env \<Rightarrow> server_process" where
  "fresh_server penv =
     \<lparr>sp_closing = False, sp_appCloses = 0,
      sp_telemetry = startTelemetry penv \<lparr>tl_exporters = [], tl_started = False, tl_shutdowns = 0\<rparr>\<rparr>"

lemma closing_absorbs: "sp_closing s \<Longrightarrow> fold (\<lambda>closes s. snd (closeGracefully closes s)) signals s = s"
  by (induction signals) (simp_all add: closeGracefully_def)

text \<open>
  Signals close the server once. However many signals arrive at a started server, and however
  closing goes, the application is closed once and the tracing provider is shut down at most
  once: exactly if one was started and the application closed without error.
\<close>
theorem shutdown_once:
  assumes "fold (\<lambda>closes s. snd (closeGracefully closes s)) (closes # signals) (fresh_server penv) = s"
  shows "sp_appCloses s = 1 \<and>
    tl_shutdowns (sp_telemetry s) =
      (if truthy (penv ''OTEL_EXPORTER_OTLP_ENDPOINT'') \<and> closes = Inr () then 1 else 0)"
proof -
  let ?s = "snd (closeGracefully closes (fresh_server penv))"
  have "sp_closing ?s"
    by (simp add: closeGracefully_def fresh_server_def Let_def split: sum.splits)
  with assms have "s = ?s"
    by (simp add: closing_absorbs)
  then show ?thesis
    by (cases closes) (auto simp: closeGracefully_def fresh_server_def Let_def shutdownTelemetry_def startTelemetry_def)
qed

theorem shutdown_once_witness:
  "sp_appCloses (fold (\<lambda>closes s. snd (closeGracefully closes s)) [Inr (), Inr ()] (fresh_server Map.empty)) = 1"
  using shutdown_once [of "Inr ()" "[Inr ()]" Map.empty, OF refl] by simp

lemma search_slash:
  "search trailing_slash pre s =
     (if s \<noteq> [] \<and> last s = CHR ''/''
      then Some ((rev (butlast s) @ pre, ''/''), (CHR ''/'' # rev (butlast s) @ pre, [])) else None)"
proof (induction s arbitrary: pre)
  case Nil
  show ?case by (simp add: trailing_slash_def)
next
  case (Cons c s)
  then show ?case
    by (cases s) (simp_all add: trailing_slash_def)
qed

text \<open>
  Where traces are sent. Starting telemetry any number of times after the first changes nothing,
  without an endpoint it does nothing, and with one it makes a single exporter whose address is
  the endpoint, less one trailing slash, followed by \<open>/v1/traces\<close>.
\<close>
theorem telemetry_endpoint:
  "tl_exporters (((startTelemetry penv) ^^ Suc n) \<lparr>tl_exporters = [], tl_started = False, tl_shutdowns = 0\<rparr>) =
     (case penv ''OTEL_EXPORTER_OTLP_ENDPOINT'' of
        None \<Rightarrow> []
      | Some endpoint \<Rightarrow>
          if endpoint = [] then []
          else [(if last endpoint = CHR ''/'' then butlast endpoint else endpoint) @ ''/v1/traces''])"
proof -
  let ?fresh = "\<lparr>tl_exporters = [], tl_started = False, tl_shutdowns = 0\<rparr>"
  have again: "startTelemetry penv (startTelemetry penv t) = startTelemetry penv t" for t
    by (simp add: startTelemetry_def)
  have "((startTelemetry penv) ^^ Suc n) ?fresh = startTelemetry penv ?fresh"
    by (induction n) (simp_all add: again)
  then show ?thesis
    by (auto simp: startTelemetry_def truthy_def replace_first_def search_slash split: option.splits)
qed

section \<open>Origins\<close>

primrec joined :: "string list \<Rightarrow> string" where
  "joined [] = []"
| "joined (w # ws) = (if ws = [] then w else w @ CHR '','' # joined ws)"

lemma split_word: "CHR '','' \<notin> set w \<Longrightarrow> split_at (CHR '','') w = [w]"
  by (induction w) auto

lemma split_first: "CHR '','' \<notin> set w \<Longrightarrow> split_at (CHR '','') (w @ CHR '','' # s) = w # split_at (CHR '','') s"
  by (induction w) auto

lemma split_joined:
  "ws \<noteq> [] \<Longrightarrow> \<forall>w \<in> set ws. CHR '','' \<notin> set w \<Longrightarrow> split_at (CHR '','') (joined ws) = ws"
  by (induction ws) (auto simp: split_word split_first)

text \<open>
  Which origins may call from a browser: a configuration that lists origins separated by commas
  admits exactly the listed ones, compared as they are, besides requests without an origin; and
  without configuration the address of the console's development server.
\<close>
theorem cors_exact:
  assumes "ws \<noteq> []" and "\<forall>w \<in> set ws. CHR '','' \<notin> set w" and "origin \<noteq> []"
  shows "(cors_origin [''CONSOLE_ORIGIN'' \<mapsto> joined ws] (Some origin) \<longleftrightarrow> origin \<in> set ws) \<and>
    cors_origin [''CONSOLE_ORIGIN'' \<mapsto> joined ws] None \<and>
    (cors_origin Map.empty (Some origin) \<longleftrightarrow> origin = ''http://127.0.0.1:5173'')"
  using split_joined [OF assms(1,2)] assms(3)
  by (simp add: cors_origin_def or_default_def truthy_def split_word)

theorem cors_exact_witness:
  "cors_origin [''CONSOLE_ORIGIN'' \<mapsto> ''http://a.test,http://b.test''] (Some ''http://b.test'') \<and>
   \<not> cors_origin [''CONSOLE_ORIGIN'' \<mapsto> ''http://a.test,http://b.test''] (Some ''http://c.test'')"
  using cors_exact [of "[''http://a.test'', ''http://b.test'']" "''http://b.test''"]
    cors_exact [of "[''http://a.test'', ''http://b.test'']" "''http://c.test''"] by simp

end
