(* ===== verification/Provisioning.thy ===== *)
theory Provisioning
  imports Startup ControlPlane
begin

text \<open>
  What a started server offers: the bootstrap tenant and key of its environment let their owner in,
  on the store the environment selects.
\<close>

lemma upsert_tenant_result:
  "upsert_tenant fresh slug e s = Inr (i, d) \<Longrightarrow>
     (\<exists>t \<in> set (db_tenants d). tn_id t = i \<and> tn_slug t = slug) \<and>
     (i = fresh \<or> (\<exists>t \<in> set (db_tenants (se_db s)). tn_id t = i)) \<and>
     db_principals d = db_principals (se_db s) \<and> db_api_keys d = db_api_keys (se_db s)"
  by (auto simp: upsert_tenant_def Let_def ensure_Inr split: option.splits dest!: find_SomeD)

lemma insert_limits_result:
  "insert_limits t e s = Inr (u, d) \<Longrightarrow>
     db_tenants d = db_tenants (se_db s) \<and> db_principals d = db_principals (se_db s) \<and>
     db_api_keys d = db_api_keys (se_db s)"
  by (auto simp: insert_limits_def Let_def ensure_Inr as_uuid_Inr rls_check_Inr split: if_splits)

lemma upsert_principal_result:
  "upsert_principal j t subject role e s = Inr (i, d) \<Longrightarrow> parse_uuid e t = Some t \<Longrightarrow>
     (\<exists>q \<in> set (db_principals d). pn_id q = i \<and> pn_tenant_id q = t \<and> pn_subject q = subject \<and> pn_role q = role) \<and>
     (i = j \<or> (\<exists>q \<in> set (db_principals (se_db s)). pn_id q = i)) \<and>
     db_tenants d = db_tenants (se_db s) \<and> db_api_keys d = db_api_keys (se_db s)"
proof (cases "find (\<lambda>p. pn_tenant_id p = t \<and> pn_subject p = subject) (db_principals (se_db s))")
  case (Some q)
  assume run: "upsert_principal j t subject role e s = Inr (i, d)" "parse_uuid e t = Some t"
  from find_SomeD [OF Some] have q: "q \<in> set (db_principals (se_db s))" "pn_tenant_id q = t" "pn_subject q = subject"
    by simp_all
  with run Some have i: "i = pn_id q" and d: "d = (se_db s)\<lparr>db_principals :=
      map (\<lambda>x. if pn_tenant_id x = t \<and> pn_subject x = subject then x\<lparr>pn_role := role\<rparr> else x) (db_principals (se_db s))\<rparr>"
    by (auto simp: upsert_principal_def as_uuid_Inr Let_def)
  from q have "q\<lparr>pn_role := role\<rparr> \<in> set (db_principals d)"
    unfolding d by force
  with q i d show ?thesis
    by (intro conjI bexI [of _ "q\<lparr>pn_role := role\<rparr>"]) auto
qed (auto simp: upsert_principal_def Let_def ensure_Inr as_uuid_Inr)

lemma upsert_api_key_result:
  "upsert_api_key t i hash e s = Inr (u, d) \<Longrightarrow> parse_uuid e i = Some i \<Longrightarrow>
   hash \<notin> set (map ak_key_hash (db_api_keys (se_db s))) \<Longrightarrow>
     (\<exists>k \<in> set (db_api_keys d). ak_principal_id k = i \<and> ak_key_hash k = hash \<and> ak_revoked_at k = None) \<and>
     db_tenants d = db_tenants (se_db s) \<and> db_principals d = db_principals (se_db s)"
proof -
  assume run: "upsert_api_key t i hash e s = Inr (u, d)" "parse_uuid e i = Some i"
    and fresh: "hash \<notin> set (map ak_key_hash (db_api_keys (se_db s)))"
  from fresh have "find (\<lambda>k. ak_key_hash k = hash) (db_api_keys (se_db s)) = None"
    by (auto simp: find_None_iff)
  with run show ?thesis
    by (auto simp: upsert_api_key_def Let_def ensure_Inr as_uuid_Inr)
qed

definition uuid_columns :: "env \<Rightarrow> db \<Rightarrow> bool" where
  "uuid_columns e d \<longleftrightarrow>
     (\<forall>n. parse_uuid e (uuids e n) = Some (uuids e n)) \<and>
     (\<forall>t \<in> set (db_tenants d). parse_uuid e (tn_id t) = Some (tn_id t)) \<and>
     (\<forall>q \<in> set (db_principals d). parse_uuid e (pn_id q) = Some (pn_id q))"

lemma bootstrap_grants:
  assumes "bootstrap seed (e, p) = (Inr u, (e', p'))" and "uuid_columns e (pg_db p)"
    and "sha256_hex e (ps_apiKey seed) \<notin> set (map ak_key_hash (db_api_keys (pg_db p)))"
  shows "\<exists>t. holds_key (pg_db p') (ps_tenantSlug seed) (sha256_hex e (ps_apiKey seed))
    \<lparr>pr_tenantId = t, pr_role = (case ps_role seed of None \<Rightarrow> Owner | Some r \<Rightarrow> r),
     pr_subject = (case ps_subject seed of None \<Rightarrow> ''bootstrap-owner'' | Some x \<Rightarrow> x)\<rparr>"
  using assms(1) unfolding bootstrap_def
proof (cases rule: pg_transaction_cases)
  case (committed x e2 s)
  let ?s = "(open_session p)\<lparr>se_now := clock e (ticks e)\<rparr>"
  let ?subject = "case ps_subject seed of None \<Rightarrow> ''bootstrap-owner'' | Some x \<Rightarrow> x"
  let ?role = "case ps_role seed of None \<Rightarrow> Owner | Some r \<Rightarrow> r"
  from committed(1) obtain tid d1 e1 e3 d2 e4 j pid d3 e5 where
    1: "upsert_tenant (uuids e (issued e)) (ps_tenantSlug seed) e1 ?s = Inr (tid, d1)" and
    2: "insert_limits tid e3 (?s\<lparr>se_db := d1, se_tenant := Some tid\<rparr>) = Inr ((), d2)" and
    3: "upsert_principal (uuids e j) tid ?subject ?role e4 (?s\<lparr>se_tenant := Some tid, se_db := d2\<rparr>) = Inr (pid, d3)" and
    4: "upsert_api_key tid pid (sha256_hex e (ps_apiKey seed)) e5 (?s\<lparr>se_tenant := Some tid, se_db := d3\<rparr>) = Inr ((), se_db s)"
    and "parse_uuid e4 = parse_uuid e" "parse_uuid e5 = parse_uuid e"
    by (auto simp: completed next_uuid_def set_tenant_def roundtrip_Inr io_modify_def hashApiKey_def
        io_env_def)
  note tenant = upsert_tenant_result [OF 1]
  have tid: "parse_uuid e4 tid = Some tid"
    using tenant assms(2) \<open>parse_uuid e4 = parse_uuid e\<close> by (auto simp: uuid_columns_def open_session_def)
  note limits = insert_limits_result [OF 2] and principal = upsert_principal_result [OF 3 tid]
  have pid: "parse_uuid e5 pid = Some pid"
    using tenant limits principal assms(2) \<open>parse_uuid e5 = parse_uuid e\<close>
    by (auto simp: uuid_columns_def open_session_def)
  have "sha256_hex e (ps_apiKey seed) \<notin> set (map ak_key_hash (db_api_keys d3))"
    using tenant limits principal assms(3) by (simp add: open_session_def)
  with upsert_api_key_result [OF 4 pid] obtain k where
    k: "k \<in> set (db_api_keys (se_db s))" "ak_principal_id k = pid" "ak_key_hash k = sha256_hex e (ps_apiKey seed)"
      "ak_revoked_at k = None"
    and kept: "db_tenants (se_db s) = db_tenants d3" "db_principals (se_db s) = db_principals d3"
    by auto
  from principal obtain q where q: "q \<in> set (db_principals d3)" "pn_id q = pid" "pn_tenant_id q = tid"
      "pn_subject q = ?subject" "pn_role q = ?role"
    by blast
  from tenant limits principal obtain t where "t \<in> set (db_tenants d3)" "tn_id t = tid" "tn_slug t = ps_tenantSlug seed"
    by auto
  with k q kept committed(2) show ?thesis
    unfolding holds_key_def by (intro exI [of _ tid] bexI [of _ k] conjI bexI [of _ q] bexI [of _ t]) simp_all
qed simp



end
