(* ===== verification/StoreInvariant.thy ===== *)
theory StoreInvariant
  imports AppContract
begin

text \<open>
  An assertion on a store that its methods keep, when they are called the way the handlers call
  them, is kept by every request. The locale states what the methods have to keep: workflows are
  created from parsed definitions, a run is queued again only with an approval event and cancelled
  only with a cancellation event, and callers are principals the store has vouched for.
\<close>

locale store_invariant =
  fixes st :: "'s runtime_store"
    and G :: "env \<Rightarrow> 's \<Rightarrow> bool"
    and authentic :: "'s \<Rightarrow> principal \<Rightarrow> bool"
  assumes stable_G: "stable G"
    and ready_keeps: "io_keeps (\<lambda>w. G (fst w) (snd w) \<and> snd w = s) (rs_ready st)"
    and authenticate_keeps: "io_spec (\<lambda>w. G (fst w) (snd w)) (rs_authenticate st slug key)
      (\<lambda>x w. G (fst w) (snd w) \<and> (\<forall>q. x = Some q \<longrightarrow> authentic (snd w) q))
      (\<lambda>_ w. G (fst w) (snd w))"
    and createWorkflow_keeps: "workflowDefinitionSchema body = Some d \<Longrightarrow>
      io_keeps (\<lambda>w. G (fst w) (snd w) \<and> authentic (snd w) p) (rs_createWorkflow st p d)"
    and createRun_keeps:
      "io_keeps (\<lambda>w. G (fst w) (snd w) \<and> authentic (snd w) p) (rs_createRun st p rq k)"
    and readRun_keeps:
      "io_keeps (\<lambda>w. G (fst w) (snd w) \<and> authentic (snd w) p) (rs_readRun st p i)"
    and transition_keeps: "(target, ev_type ev) \<in> {(Queued, Ev_approved), (Cancelled, Ev_cancelled)} \<Longrightarrow>
      io_keeps (\<lambda>w. G (fst w) (snd w) \<and> authentic (snd w) p) (rs_transition st p i target ev)"
    and listAudit_keeps:
      "io_keeps (\<lambda>w. G (fst w) (snd w) \<and> authentic (snd w) p) (rs_listAudit st p)"
begin

abbreviation kept :: "'s app_state world \<Rightarrow> bool" where
  "kept \<equiv> on_store G"

abbreviation kept_for :: "principal \<Rightarrow> 's app_state world \<Rightarrow> bool" where
  "kept_for p \<equiv> on_store (\<lambda>e s. G e s \<and> authentic s p)"

lemma stable_for: "stable (\<lambda>e s. G e s \<and> authentic s p)"
  using stable_G unfolding stable_def by blast

lemma stable_keeps:
  assumes "keeps_stable m"
  shows "io_keeps kept m" and "io_keeps (kept_for p) m"
  using assms stable_G stable_for by blast+

lemma in_store_keeps:
  "io_keeps (\<lambda>w. G (fst w) (snd w) \<and> authentic (snd w) p) m \<Longrightarrow> io_keeps (kept_for p) (in_store m)"
  "io_keeps (\<lambda>w. G (fst w) (snd w)) n \<Longrightarrow> io_keeps kept (in_store n)"
  by (drule in_store_spec, simp)+

lemmas pieces = stable_keeps(2) [OF keeps_stable_count] stable_keeps(2) [OF keeps_stable_send]
  stable_keeps(2) [OF keeps_stable_return] stable_keeps(2) [OF keeps_stable_requireRole]
  stable_keeps(2) [OF keeps_stable_issue] stable_keeps(2) [OF keeps_stable_discard]
  stable_keeps(2) [OF keeps_stable_creation_failed] stable_keeps(2) [OF keeps_stable_consume_credential]
  in_store_keeps(1) [OF createRun_keeps] in_store_keeps(1) [OF readRun_keeps]
  in_store_keeps(1) [OF listAudit_keeps] in_store_keeps(1) [OF createWorkflow_keeps]

lemma requirePrincipal_Some [simp]: "requirePrincipal (Some p) = io_return p"
  by (simp add: requirePrincipal_def)

lemma decision_keeps:
  assumes "(target, ty) \<in> {(Queued, Ev_approved), (Cancelled, Ev_cancelled)}"
  shows "io_keeps (kept_for p) (io_bind (runEvent ty d) (\<lambda>event.
    io_bind (in_store (rs_transition st p i target event)) (\<lambda>updated.
    io_bind (count f) (\<lambda>_. send 200 (B_run updated)))))"
proof (rule io_spec_bind [where R = "\<lambda>event w. kept_for p w \<and> ev_type event = ty"])
  show "io_spec (kept_for p) (runEvent ty d) (\<lambda>event w. kept_for p w \<and> ev_type event = ty) (\<lambda>_. kept_for p)"
    using stable_for [of p] by (auto simp: runEvent_def io_spec_def io_defs stable_def)
  fix event
  show "io_spec (\<lambda>w. kept_for p w \<and> ev_type event = ty)
     (io_bind (in_store (rs_transition st p i target event)) (\<lambda>updated.
      io_bind (count f) (\<lambda>_. send 200 (B_run updated)))) (\<lambda>_. kept_for p) (\<lambda>_. kept_for p)"
  proof (cases "ev_type event = ty")
    case True
    with assms have "io_keeps (kept_for p) (io_bind (in_store (rs_transition st p i target event))
        (\<lambda>updated. io_bind (count f) (\<lambda>_. send 200 (B_run updated))))"
      by (intro io_keeps_bind in_store_keeps(1) transition_keeps pieces) simp
    then show ?thesis using True by simp
  qed (simp add: io_spec_never)
qed

lemma creation_keeps:
  "io_keeps (kept_for p) (create_workflow st (Some p) rq)"
  "io_keeps (kept_for p) (create_run_handler st cf (Some p) rq)"
  "io_keeps (kept_for p) (read_run st (Some p) i)"
  "io_keeps (kept_for p) (list_audit st (Some p))"
  unfolding create_workflow_def create_run_handler_def read_run_def list_audit_def
    try_create_run_def requirePrincipal_Some io_bind_return
  by (intro io_keeps_bind io_keeps_catch io_keeps_if io_keeps_case_option pieces; assumption)+

lemma decisions_keep:
  "io_keeps (kept_for p) (approve_run st (Some p) i)"
  "io_keeps (kept_for p) (cancel_run st (Some p) i)"
  unfolding approve_run_def cancel_run_def requirePrincipal_Some io_bind_return
  by (rule io_keeps_bind [OF pieces(4)], rule io_keeps_bind [OF pieces(10)],
      intro io_keeps_case_option io_keeps_if pieces decision_keeps, simp)+

lemma ready_keeps_for: "io_keeps (\<lambda>w. G (fst w) (snd w) \<and> R (snd w)) (rs_ready st)"
proof (rule io_specI)
  fix w err w'
  assume "G (fst w) (snd w) \<and> R (snd w)" and "rs_ready st w = (Inl err, w')"
  with io_specD_Inl [OF ready_keeps [of "snd w"], of w] show "G (fst w') (snd w') \<and> R (snd w')"
    by auto
next
  fix w x w'
  assume "G (fst w) (snd w) \<and> R (snd w)" and "rs_ready st w = (Inr x, w')"
  with io_specD_Inr [OF ready_keeps [of "snd w"], of w] show "G (fst w') (snd w') \<and> R (snd w')"
    by auto
qed

lemma health_ready_keeps:
  "io_keeps (kept_for p) (health_ready st)" "io_keeps kept (health_ready st)"
  unfolding health_ready_def
  using ready_keeps_for [of "\<lambda>_. True"]
  by (intro io_keeps_catch io_keeps_bind in_store_keeps stable_keeps keeps_stable_send ready_keeps_for; simp)+

lemma unauthenticated_keeps:
  "io_keeps kept (create_workflow st None rq)" "io_keeps kept (create_run_handler st cf None rq)"
  "io_keeps kept (read_run st None i)" "io_keeps kept (approve_run st None i)"
  "io_keeps kept (cancel_run st None i)" "io_keeps kept (list_audit st None)"
  by (simp_all add: create_workflow_def create_run_handler_def read_run_def approve_run_def
      cancel_run_def list_audit_def requirePrincipal_def io_spec_throw)

lemma dispatch_keeps:
  "io_keeps (kept_for p) (dispatch st cf (Some p) rq rt)" "io_keeps kept (dispatch st cf None rq rt)"
  using creation_keeps decisions_keep health_ready_keeps unauthenticated_keeps pieces(2,8)
    stable_keeps(1) [OF keeps_stable_send] stable_keeps(1) [OF keeps_stable_consume_credential]
  by (cases rt; simp)+

lemma preHandler_keeps:
  "io_spec kept (preHandler st rq)
    (\<lambda>g w. case g of Proceed (Some p) \<Rightarrow> kept_for p w | _ \<Rightarrow> kept w) (\<lambda>_. kept)"
proof (cases "open_url (rq_url rq) \<or> \<not> truthy (header_string (rq_headers rq ''x-tenant-id''))")
  case True
  then show ?thesis
    by (auto simp: preHandler_def Let_def send_def io_spec_def io_return_def io_bind_def)
next
  case False
  then show ?thesis
    unfolding preHandler_def Let_def
    by (auto intro!: store_bind [OF authenticate_keeps])
       (auto simp: io_spec_def send_def io_return_def io_bind_def split: option.splits)
qed

lemma serve_keeps: "io_keeps kept (serve st cf rq)"
  unfolding serve_def
proof (rule io_keeps_bind)
  show "io_keeps kept (io_catch
      (io_bind (preHandler st rq) (\<lambda>g.
       case g of Stop r \<Rightarrow> io_return r | Proceed p \<Rightarrow> dispatch st cf p rq (rq_route rq)))
      (\<lambda>err. send (cf_errorStatus cf err) (B_thrown err)))"
  proof (rule io_keeps_catch [OF io_spec_bind [OF preHandler_keeps]])
    show "io_keeps kept (send (cf_errorStatus cf err) (B_thrown err))" for err
      by (intro stable_keeps keeps_stable_send)
    fix g
    show "io_spec (\<lambda>w. case g of Proceed (Some p) \<Rightarrow> kept_for p w | _ \<Rightarrow> kept w)
        (case g of Stop r \<Rightarrow> io_return r | Proceed p \<Rightarrow> dispatch st cf p rq (rq_route rq))
        (\<lambda>_. kept) (\<lambda>_. kept)"
    proof (cases g)
      case (Proceed caller)
      show ?thesis
      proof (cases caller)
        case (Some p)
        show ?thesis
          unfolding Proceed Some by simp (rule io_spec_weaken [OF dispatch_keeps(1)]; simp)
      qed (use Proceed dispatch_keeps(2) in simp)
    qed (auto intro: io_spec_return)
  qed
  show "io_keeps kept (io_bind (onResponse rq rp) (\<lambda>_. io_return rp))" for rp
    unfolding onResponse_def Let_def
    by (intro io_keeps_bind stable_keeps(1) keeps_stable_count keeps_stable_return)
qed

end

end
