(* ===== verification/SystemSteps.thy ===== *)
theory SystemSteps
  imports OutboxPublisher ControlPlane StoreInvariant
begin

text \<open>
  The control plane, the outbox publisher, the leasing of runs and the provisioning of tenants
  working on one database, in any order. \<open>db_change\<close> lists what one committed transaction of any
  of them does to the tables; \<open>system_step\<close> is a request, a publisher round, a claim, a bootstrap
  or time passing, and the invariants of the tables hold in every state the system reaches.
\<close>

section \<open>What a transaction commits\<close>

abbreviation principal_in :: "db \<Rightarrow> principal \<Rightarrow> bool" where
  "principal_in d c \<equiv> pg_authentic \<lparr>pg_role = DarControl, pg_db = d\<rparr> c"

lemma principal_in_iff: "pg_authentic p c \<longleftrightarrow> principal_in (pg_db p) c"
  by (simp add: pg_authentic_def)

text \<open>Provisioning adds tenants, principals, keys and default limits, and may change roles.\<close>

definition same_work :: "db \<Rightarrow> db \<Rightarrow> bool" where
  "same_work d d' \<longleftrightarrow>
     db_workflows d' = db_workflows d \<and> db_runs d' = db_runs d \<and> db_events d' = db_events d \<and>
     db_outbox d' = db_outbox d \<and> db_outbox_seq d' = db_outbox_seq d \<and> db_audits d' = db_audits d"

definition provisions :: "env \<Rightarrow> db \<Rightarrow> db \<Rightarrow> bool" where
  "provisions e d d' \<longleftrightarrow>
     same_work d d' \<and>
     (\<exists>ts. db_tenants d' = db_tenants d @ ts \<and> (\<forall>x \<in> set ts. \<exists>n. tn_id x = uuids e n)) \<and>
     (\<exists>ls. db_limits d' = db_limits d @ ls) \<and>
     (distinct (map lm_tenant_id (db_limits d)) \<longrightarrow> distinct (map lm_tenant_id (db_limits d'))) \<and>
     pn_tenant_id ` set (db_principals d') \<subseteq>
       pn_tenant_id ` set (db_principals d) \<union> tn_id ` set (db_tenants d')"

lemma provisionsD:
  assumes "provisions e d d'"
  shows "same_work d d'"
    and "distinct (map lm_tenant_id (db_limits d)) \<longrightarrow> distinct (map lm_tenant_id (db_limits d'))"
    and "pn_tenant_id ` set (db_principals d') \<subseteq>
       pn_tenant_id ` set (db_principals d) \<union> tn_id ` set (db_tenants d')"
  using assms unfolding provisions_def by blast+

lemma provisions_trans: "provisions e d d1 \<Longrightarrow> provisions e d1 d2 \<Longrightarrow> provisions e d d2"
proof -
  assume 1: "provisions e d d1" and 2: "provisions e d1 d2"
  from 1 obtain ts ls where d1: "db_tenants d1 = db_tenants d @ ts"
    "\<forall>x \<in> set ts. \<exists>n. tn_id x = uuids e n" "db_limits d1 = db_limits d @ ls"
    unfolding provisions_def by blast
  from 2 obtain ts' ls' where d2: "db_tenants d2 = db_tenants d1 @ ts'"
    "\<forall>x \<in> set ts'. \<exists>n. tn_id x = uuids e n" "db_limits d2 = db_limits d1 @ ls'"
    unfolding provisions_def by blast
  show "provisions e d d2"
    unfolding provisions_def
  proof (intro conjI)
    show "\<exists>ts. db_tenants d2 = db_tenants d @ ts \<and> (\<forall>x \<in> set ts. \<exists>n. tn_id x = uuids e n)"
      using d1(1,2) d2(1,2) by (intro exI [of _ "ts @ ts'"]) auto
    show "\<exists>ls. db_limits d2 = db_limits d @ ls"
      using d1(3) d2(3) by simp
    have "tn_id ` set (db_tenants d1) \<subseteq> tn_id ` set (db_tenants d2)"
      unfolding d2(1) by simp blast
    with provisionsD(3) [OF 1] provisionsD(3) [OF 2]
    show "pn_tenant_id ` set (db_principals d2) \<subseteq>
        pn_tenant_id ` set (db_principals d) \<union> tn_id ` set (db_tenants d2)"
      by (meson Un_mono order.trans subset_refl sup.boundedI sup_ge1 sup_ge2)
    show "same_work d d2"
      using provisionsD(1) [OF 1] provisionsD(1) [OF 2] by (simp add: same_work_def)
  qed (use provisionsD(2) [OF 1] provisionsD(2) [OF 2] in simp)
qed

inductive db_change :: "env \<Rightarrow> db \<Rightarrow> db \<Rightarrow> bool" for e where
  unchanged: "db_change e d d"
| created: "principal_in d c \<Longrightarrow> creates e now d c rq k x d' \<Longrightarrow> db_change e d d'"
| decided: "principal_in d c \<Longrightarrow> row \<in> set (db_runs d) \<Longrightarrow> rw_tenant_id row = pr_tenantId c \<Longrightarrow>
    assertTransition (rw_state row) target = Inr () \<Longrightarrow>
    (target, ev_type ev) \<in> {(Queued, Ev_approved), (Cancelled, Ev_cancelled)} \<Longrightarrow>
    db_change e d (with_transition c (rw_id row) target ev now d)"
| defined: "principal_in d c \<Longrightarrow> wr_id w = uuids e n \<Longrightarrow> wr_id w \<notin> set (map wr_id (db_workflows d)) \<Longrightarrow>
    valid_definition wd \<Longrightarrow> wr_definition w = definition_json wd \<Longrightarrow>
    db_change e d (with_audit c ''workflow.created'' (wr_id w) now (with_workflow w d))"
| leased: "row \<in> set (db_runs d) \<Longrightarrow> claimable now row \<Longrightarrow>
    db_change e d (with_lease worker expires now row d)"
| counted: "db_change e d (attempted ids d)"
| published: "db_change e d (marked ids now d)"
| provisioned: "provisions e d d' \<Longrightarrow> db_change e d d'"

lemma db_change_sources:
  assumes "db_change e d d'" and "uuids e' = uuids e" and "parse_uuid e' = parse_uuid e"
  shows "db_change e' d d'"
  using assms(1)
proof cases
  case (created c now rq k x)
  then show ?thesis
    using assms(2,3) by (intro db_change.created [of d c e' now rq k x]) (simp_all add: creates_def may_insert_def)
next
  case (decided c row target ev now)
  then show ?thesis by (auto intro: db_change.decided)
next
  case (defined c w n wd now)
  then show ?thesis
    using db_change.defined [of d c w e' n wd now] assms(2) by simp
next
  case provisioned
  then show ?thesis
    using assms(2) by (auto intro!: db_change.provisioned simp: provisions_def)
qed (auto intro: db_change.intros)

section \<open>Each method commits such a change\<close>

lemma pg_createRun_change:
  assumes "pg_ok cn (e, p)" and "pg_authentic p c" and "pg_createRun c rq k (e, p) = (r, (e', p'))"
  shows "db_change e (pg_db p) (pg_db p') \<and> db_principals (pg_db p') = db_principals (pg_db p)"
  using assms
proof (cases rule: pg_createRun_cases)
  case (create x)
  then show ?thesis
    using assms(2) db_change.created [OF principal_in_iff [THEN iffD1, OF assms(2)] create(1)]
    by (auto simp: creates_def with_new_run_def)
qed (auto intro: db_change.unchanged)

lemma pg_transition_cases:
  assumes "pg_ok cn (e, p)" and "pg_authentic p c" and "pg_transition c i target ev (e, p) = (r, (e', p'))"
  obtains (given_up) err where "r = Inl err" and "p' = p"
  | (moved) row where "row \<in> set (db_runs (pg_db p))" and "rw_tenant_id row = pr_tenantId c"
      and "cn i = Some (rw_id row)" and "assertTransition (rw_state row) target = Inr ()"
      and "p' = p\<lparr>pg_db := with_transition c (rw_id row) target ev (clock e (ticks e)) (pg_db p)\<rparr>"
      and "r = Inr (run_of (row\<lparr>rw_state := target\<rparr>) (events_of (pg_db p') (pr_tenantId c) (rw_id row)))
           \<or> (\<exists>err. r = Inl err)"
  using assms(3) unfolding pg_transition_def
proof (cases rule: withTenant_cases)
  case (given_up err)
  then show thesis by (rule that(1))
next
  case (committed x e1 e2 s)
  have ok: "parse_uuid e1 = cn" "db_ok cn (pg_db p)"
    using assms(1) committed(1) by (auto simp: pg_ok_def same_sources_def)
  then have runs: "distinct (map rw_id (db_runs (pg_db p)))"
      "\<forall>r \<in> set (db_runs (pg_db p)). cn (rw_id r) = Some (rw_id r)"
    by (auto simp: db_ok_def runs_ok_def)
  from transition_completed [OF committed(2)] pg_authentic_canonical [OF assms(2) ok(2)] runs ok(1)
  obtain row where "row \<in> set (db_runs (pg_db p))" "rw_tenant_id row = pr_tenantId c"
      "cn i = Some (rw_id row)" "assertTransition (rw_state row) target = Inr ()"
      "se_db s = with_transition c (rw_id row) target ev (clock e (ticks e)) (pg_db p)"
      "x = run_of (row\<lparr>rw_state := target\<rparr>) (events_of (se_db s) (pr_tenantId c) (rw_id row))"
    by auto
  with committed(3,4) show thesis
    by (intro that(2) [of row]) auto
qed

lemma pg_transition_change:
  assumes "pg_ok cn (e, p)" and "pg_authentic p c" and "pg_transition c i target ev (e, p) = (r, (e', p'))"
    and "(target, ev_type ev) \<in> {(Queued, Ev_approved), (Cancelled, Ev_cancelled)}"
  shows "db_change e (pg_db p) (pg_db p') \<and> db_principals (pg_db p') = db_principals (pg_db p)"
  using assms(1-3)
proof (cases rule: pg_transition_cases)
  case (moved row)
  then show ?thesis
    using db_change.decided [OF principal_in_iff [THEN iffD1, OF assms(2)] moved(1,2,4) assms(4)]
    by (auto simp: with_transition_def Let_def)
qed (auto intro: db_change.unchanged)

lemma pg_createWorkflow_change:
  assumes "pg_ok cn (e, p)" and "pg_authentic p c" and "pg_createWorkflow c wd (e, p) = (r, (e', p'))"
    and "valid_definition wd"
  shows "db_change e (pg_db p) (pg_db p') \<and> db_principals (pg_db p') = db_principals (pg_db p)"
  using assms(3) unfolding pg_createWorkflow_def
proof (cases rule: withTenant_cases)
  case (committed x e1 e2 s)
  let ?s = "tenant_session p (pr_tenantId c) (clock e (ticks e))" and ?e = "e1\<lparr>issued := Suc (issued e1)\<rparr>"
  have ok: "parse_uuid e1 = cn" "db_ok cn (pg_db p)" "uuids e1 = uuids e"
      "\<forall>n. cn (uuids e n) = Some (uuids e n)"
    using assms(1) committed(1) by (auto simp: pg_ok_def same_sources_def)
  have T: "cn (pr_tenantId c) = Some (pr_tenantId c)"
    using pg_authentic_canonical [OF assms(2) ok(2)] .
  from committed(2) obtain row e3 s1 where
    ins: "query [(Insert, T_workflows), (Select, T_workflows)]
        (insert_workflow (uuids e1 (issued e1)) (pr_tenantId c) wd) (?e, ?s) = (Inr row, (e3, s1))"
    and aud: "pg_audit c ''workflow.created'' (wr_id row) (e3, s1) = (Inr (), (e2, s))"
    by (auto simp: io_bind_eq_Inr next_uuid_def io_return_def)
  from ins T ok(1) have row: "s1 = ?s\<lparr>se_db := with_workflow row (pg_db p)\<rparr>"
      "wr_id row = uuids e (issued e1)" "wr_definition row = definition_json wd"
      "wr_id row \<notin> set (map wr_id (db_workflows (pg_db p)))" "parse_uuid e3 = cn"
    by (auto simp: completed insert_workflow_def Let_def with_workflow_def ok(3))
  have "se_db s = with_audit c ''workflow.created'' (wr_id row) (clock e (ticks e))
      (with_workflow row (pg_db p))"
    using pg_audit_completed [OF aud, of "wr_id row"] T ok(4) row by (simp add: with_audit_def)
  with committed(3) row assms(4) principal_in_iff [THEN iffD1, OF assms(2)] show ?thesis
    using db_change.defined [of "pg_db p" c row e "issued e1" wd "clock e (ticks e)"] by simp
qed (auto intro: db_change.unchanged)

lemma pg_read_change:
  assumes "pg_ok cn (e, p)" and "pg_authentic p c"
  shows "pg_readRun c i (e, p) = (r, (e', p')) \<Longrightarrow> p' = p"
    and "pg_listAudit c (e, p) = (r', (e', p')) \<Longrightarrow> p' = p"
  using io_spec_at [OF pg_readRun_law [OF assms(2), of cn i], of "(e, p)"]
    io_spec_at [OF pg_listAudit_law [OF assms(2), of cn], of "(e, p)"] assms(1)
  by (auto split: sum.splits)

lemma claimRunLease_change:
  assumes "pg_ok cn (e, p)" and "pg_role p = DarWorker"
    and "claimRunLease i workerId ttl (e, p) = (r, (e', p'))"
  shows "db_change e (pg_db p) (pg_db p')"
  using assms
  by (cases rule: claimRunLease_cases) (auto intro: db_change.unchanged db_change.leased)

lemma publishPending_change:
  assumes "publishPending n (e, b) = (r, (e', b'))" and "pg_role (pb_store b) = DarWorker"
  shows "(db_change e)\<^sup>*\<^sup>* (pg_db (pb_store b)) (pg_db (pb_store b'))"
proof -
  have "round_effect n b b'"
    using publishPending_effect [OF assms] .
  then obtain ids now where "pg_db (pb_store b') \<in>
      {pg_db (pb_store b), attempted ids (pg_db (pb_store b)),
       marked ids now (attempted ids (pg_db (pb_store b)))}"
    by (auto simp: round_effect_def Let_def)
  moreover have "(db_change e)\<^sup>*\<^sup>* d (attempted ids d)" for d
    by (rule r_into_rtranclp) (rule db_change.counted)
  moreover have "(db_change e)\<^sup>*\<^sup>* d (marked ids now (attempted ids d))" for d
    using db_change.counted db_change.published by (rule converse_rtranclp_into_rtranclp [OF _ r_into_rtranclp])
  ultimately show ?thesis by auto
qed

text \<open>Provisioning: the four statements of \<open>bootstrap\<close>.\<close>

lemma provisions_statements:
  "upsert_tenant (uuids base n) slug e s = Inr (i, d) \<Longrightarrow> provisions base (se_db s) d"
  "insert_limits t e s = Inr (u, d) \<Longrightarrow> provisions base (se_db s) d"
  "upsert_principal j t subject role e s = Inr (i, d) \<Longrightarrow> provisions base (se_db s) d"
  "upsert_api_key t i hash e s = Inr (u, d) \<Longrightarrow> provisions base (se_db s) d"
     apply (auto simp: upsert_tenant_def provisions_def same_work_def Let_def ensure_Inr split: option.splits)[]
    apply (auto simp: insert_limits_def provisions_def same_work_def Let_def ensure_Inr as_uuid_Inr rls_check_Inr
      split: if_splits)[]
   apply (auto simp: upsert_principal_def provisions_def same_work_def Let_def ensure_Inr as_uuid_Inr tenant_exists_def
      split: option.splits)[]
  apply (auto simp: upsert_api_key_def provisions_def same_work_def Let_def ensure_Inr as_uuid_Inr split: if_splits)[]
  done

lemma bootstrap_change:
  assumes "bootstrap seed (e, p) = (r, (e', p'))"
  shows "db_change e (pg_db p) (pg_db p') \<and> pg_role p' = pg_role p"
  using assms unfolding bootstrap_def
proof (cases rule: pg_transaction_cases)
  case (committed x e2 s)
  let ?s = "(open_session p)\<lparr>se_now := clock e (ticks e)\<rparr>"
  let ?subject = "case ps_subject seed of None \<Rightarrow> ''bootstrap-owner'' | Some x \<Rightarrow> x"
  let ?role = "case ps_role seed of None \<Rightarrow> Owner | Some r \<Rightarrow> r"
  from committed(1) obtain tid d1 e1 e3 d2 e4 j pid d3 e5 hash d4 where
    "upsert_tenant (uuids e (issued e)) (ps_tenantSlug seed) e1 ?s = Inr (tid, d1)"
    "insert_limits tid e3 (?s\<lparr>se_db := d1, se_tenant := Some tid\<rparr>) = Inr ((), d2)"
    "upsert_principal j tid ?subject ?role e4 (?s\<lparr>se_tenant := Some tid, se_db := d2\<rparr>) = Inr (pid, d3)"
    "upsert_api_key tid pid hash e5 (?s\<lparr>se_tenant := Some tid, se_db := d3\<rparr>) = Inr ((), d4)"
    "se_db s = d4"
    by (auto simp: completed next_uuid_def set_tenant_def roundtrip_Inr io_modify_def hashApiKey_def
        io_env_def)
  note provisions_statements(1) [OF this(1)] provisions_statements(2) [OF this(2), where base = e]
    provisions_statements(3) [OF this(3), where base = e] provisions_statements(4) [OF this(4), where base = e]
  with \<open>se_db s = d4\<close> have "provisions e (pg_db p) d1" "provisions e d1 d2" "provisions e d2 d3"
      "provisions e d3 (se_db s)"
    by (simp_all add: open_session_def)
  then have "provisions e (pg_db p) (se_db s)"
    by (blast intro: provisions_trans)
  with committed(2) show ?thesis
    by (simp add: db_change.provisioned)
qed (auto intro: db_change.unchanged)

section \<open>Invariants of the tables\<close>

text \<open>
  \<open>quota_ok\<close>: no tenant has more active runs than its limit, and every tenant with a run has a
  limit. \<open>queued_once\<close>: a run has exactly one outbox message for its creation and one for each
  approval.
\<close>

definition quota_ok :: "db \<Rightarrow> bool" where
  "quota_ok d \<longleftrightarrow>
     (\<forall>l \<in> set (db_limits d). active_count d (lm_tenant_id l) \<le> lm_max_active_runs l) \<and>
     (\<forall>r \<in> set (db_runs d). rw_tenant_id r \<in> lm_tenant_id ` set (db_limits d))"

definition messages_of :: "db \<Rightarrow> uuid \<Rightarrow> nat" where
  "messages_of d i = length (filter (\<lambda>x. ob_run_id x = i) (db_outbox d))"

definition queueings_of :: "db \<Rightarrow> uuid \<Rightarrow> nat" where
  "queueings_of d i =
     length (filter (\<lambda>x. er_run_id x = i \<and> er_event_type x \<in> {Ev_created, Ev_approved}) (db_events d))"

definition queued_once :: "db \<Rightarrow> bool" where
  "queued_once d \<longleftrightarrow> (\<forall>r \<in> set (db_runs d). messages_of d (rw_id r) = queueings_of d (rw_id r))"

lemma length_filter_map_le:
  assumes "\<And>x. x \<in> set xs \<Longrightarrow> Q (g x) \<Longrightarrow> Q x"
  shows "length (filter Q (map g xs)) \<le> length (filter Q xs)"
  using assms by (induction xs) (auto simp: le_SucI)

lemma active_count_update:
  assumes "\<And>r. r \<in> set (db_runs d) \<Longrightarrow> P r \<Longrightarrow> rw_tenant_id (f r) = rw_tenant_id r \<and> rw_state r \<in> set active_states"
  shows "active_count (update_runs P f d) t \<le> active_count d t"
proof -
  have runs: "db_runs (update_runs P f d) = map (\<lambda>r. if P r then f r else r) (db_runs d)"
    by (simp add: update_runs_def)
  show ?thesis
    unfolding active_count_def runs
  proof (rule length_filter_map_le)
    fix r
    assume "r \<in> set (db_runs d)"
      and "rw_tenant_id (if P r then f r else r) = t \<and> rw_state (if P r then f r else r) \<in> set active_states"
    then show "rw_tenant_id r = t \<and> rw_state r \<in> set active_states"
      using assms [of r] by (cases "P r") auto
  qed
qed

lemma active_count_fields [simp]:
  "active_count (with_event t i y x tr n d) u = active_count d u"
  "active_count (with_message t i d) u = active_count d u"
  "active_count (with_audit p a i n d) u = active_count d u"
  "active_count (with_workflow w d) u = active_count d u"
  "active_count (attempted ids d) u = active_count d u"
  "active_count (marked ids now d) u = active_count d u"
  by (simp_all add: active_count_def attempted_def marked_def update_outbox_def)

lemma assertTransition_active:
  "assertTransition s t = Inr () \<Longrightarrow> s \<in> set active_states"
  by (cases s) (auto simp: assertTransition_def active_states_def)

lemma claimable_active: "claimable now row \<Longrightarrow> rw_state row \<in> set active_states"
  by (auto simp: claimable_def active_states_def)

lemma quota_ok_update:
  assumes "quota_ok d" and "distinct (map rw_id (db_runs d))" and "row \<in> set (db_runs d)"
    and "rw_state row \<in> set active_states" and "\<And>r. rw_tenant_id (f r) = rw_tenant_id r"
  shows "quota_ok (update_runs (\<lambda>r. rw_id r = rw_id row) f d)"
proof -
  have "active_count (update_runs (\<lambda>r. rw_id r = rw_id row) f d) t \<le> active_count d t" for t
    using assms(2-5) by (intro active_count_update) (auto dest: distinct_map_inj)
  then show ?thesis
    using assms(1,5) unfolding quota_ok_def
    by (auto simp: update_runs_def intro: order.trans)
qed

lemma quota_ok_cong:
  assumes "db_runs d' = db_runs d" and "db_limits d' = db_limits d"
  shows "quota_ok d' \<longleftrightarrow> quota_ok d"
  using assms by (simp add: quota_ok_def active_count_def)

lemma quota_ok_created:
  assumes "quota_ok d" and "creates e now d c rq k x d'" and "distinct (map lm_tenant_id (db_limits d))"
  shows "quota_ok d'"
proof -
  from assms(2) obtain row limit where ins: "may_insert e d c rq k row"
    and limit: "limit \<in> set (db_limits d)" "lm_tenant_id limit = pr_tenantId c"
    "active_count d (pr_tenantId c) < lm_max_active_runs limit"
    and d': "d' = with_new_run c row now d"
    by (auto simp: creates_def)
  have runs: "db_runs d' = db_runs d @ [row]" "db_limits d' = db_limits d"
    by (simp_all add: d' with_new_run_def with_run_def)
  have "active_count d' t = active_count d t + (if t = pr_tenantId c then 1 else 0)" for t
    using may_insert_row(1,3) [OF ins] by (auto simp: active_count_def runs active_states_def)
  moreover have "l = limit" if "l \<in> set (db_limits d)" "lm_tenant_id l = pr_tenantId c" for l
    using distinct_map_inj [OF assms(3) that(1) limit(1)] that(2) limit(2) by simp
  ultimately have "active_count d' (lm_tenant_id l) \<le> lm_max_active_runs l" if "l \<in> set (db_limits d)" for l
    using assms(1) limit(3) that by (cases "lm_tenant_id l = pr_tenantId c") (auto simp: quota_ok_def)
  moreover have "rw_tenant_id row \<in> lm_tenant_id ` set (db_limits d)"
    using may_insert_row(1) [OF ins] limit(1,2) by (metis imageI)
  ultimately show ?thesis
    using assms(1) unfolding quota_ok_def runs by simp
qed

subsection \<open>Messages and queueings\<close>

lemma messages_of_fields [simp]:
  "messages_of (with_event t i y x tr n d) j = messages_of d j"
  "messages_of (with_audit p a i n d) j = messages_of d j"
  "messages_of (with_run r d) j = messages_of d j"
  "messages_of (with_workflow w d) j = messages_of d j"
  "messages_of (update_runs P f d) j = messages_of d j"
  "messages_of (with_message t i d) j = messages_of d j + (if j = i then 1 else 0)"
  by (simp_all add: messages_of_def with_message_def queued_message_def)

lemma queueings_of_fields [simp]:
  "queueings_of (with_message t i d) j = queueings_of d j"
  "queueings_of (with_audit p a i n d) j = queueings_of d j"
  "queueings_of (with_run r d) j = queueings_of d j"
  "queueings_of (with_workflow w d) j = queueings_of d j"
  "queueings_of (update_runs P f d) j = queueings_of d j"
  "queueings_of (with_event t i y x tr n d) j =
     queueings_of d j + (if j = i \<and> y \<in> {Ev_created, Ev_approved} then 1 else 0)"
  by (simp_all add: queueings_of_def with_event_def)

lemma update_outbox_messages:
  assumes "\<And>x. ob_run_id (f x) = ob_run_id x"
  shows "messages_of (update_outbox P f d) i = messages_of d i"
proof -
  have "length (filter (\<lambda>x. ob_run_id x = i) (map (\<lambda>x. if P x then f x else x) xs)) =
      length (filter (\<lambda>x. ob_run_id x = i) xs)" for xs
    using assms by (induction xs) auto
  then show ?thesis
    by (simp add: messages_of_def update_outbox_def del: filter_map)
qed

lemma no_rows_of_unknown_run:
  assumes "db_ok cn d" and "i \<notin> set (map rw_id (db_runs d))"
  shows "messages_of d i = 0" and "queueings_of d i = 0"
  using assms
  by (auto simp: messages_of_def queueings_of_def filter_empty_conv db_ok_def outbox_ok_def events_ok_def
      run_refs_def)

lemma queued_once_created:
  assumes "queued_once d" and "creates e now d c rq k x d'" and "db_ok cn d"
  shows "queued_once d'"
proof -
  from assms(2) obtain row where ins: "may_insert e d c rq k row" and d': "d' = with_new_run c row now d"
    by (auto simp: creates_def)
  have fresh: "rw_id row \<notin> set (map rw_id (db_runs d))"
    using may_insert_row(4) [OF ins] .
  have runs: "db_runs d' = db_runs d @ [row]"
    by (simp add: d' with_new_run_def with_run_def)
  show ?thesis
    using assms(1) fresh no_rows_of_unknown_run [OF assms(3) fresh]
    by (auto simp: queued_once_def runs) (auto simp: d' with_new_run_def)
qed

lemma queued_once_decided:
  assumes "queued_once d" and "(target, ev_type ev) \<in> {(Queued, Ev_approved), (Cancelled, Ev_cancelled)}"
  shows "queued_once (with_transition c i target ev now d)"
  using assms
  by (auto simp: queued_once_def with_transition_runs) (auto simp: with_transition_def Let_def)

lemma queued_once_leased:
  assumes "queued_once d"
  shows "queued_once (with_lease worker expires now row d)"
proof -
  let ?d = "with_lease worker expires now row d"
  have "messages_of ?d i = messages_of d i" "queueings_of ?d i = queueings_of d i" for i
    by (simp_all add: with_lease_def)
  moreover have "rw_id ` set (db_runs ?d) = rw_id ` set (db_runs d)"
    using map_if_same_key [of rw_id "\<lambda>r. r\<lparr>rw_state := Leased, rw_lease_owner := Some worker,
        rw_lease_expires_at := Some expires, rw_updated_at := now\<rparr>" "\<lambda>r. rw_id r = rw_id row" "db_runs d"]
    by (simp add: with_lease_def update_runs_def del: map_map flip: set_map)
  ultimately show ?thesis
    using assms unfolding queued_once_def by (metis (no_types, lifting) imageE imageI)
qed

section \<open>The invariants hold along every change\<close>

definition schema_ok :: "(string \<Rightarrow> uuid option) \<Rightarrow> db \<Rightarrow> bool" where
  "schema_ok cn d \<longleftrightarrow>
     db_ok cn d \<and> (\<forall>t \<in> set (db_tenants d). cn (tn_id t) = Some (tn_id t)) \<and> definitions_ok d"

definition tables_ok :: "(string \<Rightarrow> uuid option) \<Rightarrow> db \<Rightarrow> bool" where
  "tables_ok cn d \<longleftrightarrow> schema_ok cn d \<and> quota_ok d \<and> queued_once d"

lemma schema_okI:
  assumes "db_ok cn d" and "\<forall>t \<in> set (db_tenants d). cn (tn_id t) = Some (tn_id t)" and "definitions_ok d"
  shows "schema_ok cn d"
  using assms by (simp add: schema_ok_def)

lemma definitions_ok_cong: "db_workflows d' = db_workflows d \<Longrightarrow> definitions_ok d' \<longleftrightarrow> definitions_ok d"
  by (simp add: definitions_ok_def)

lemma schema_ok_db:
  assumes "schema_ok cn d" and "db_ok cn d'" and "db_tenants d' = db_tenants d" and "db_workflows d' = db_workflows d"
  shows "schema_ok cn d'"
  using assms definitions_ok_cong [OF assms(4)] by (simp add: schema_ok_def)

lemma schema_ok_runs: "schema_ok cn d \<Longrightarrow> distinct (map rw_id (db_runs d))"
  by (simp add: schema_ok_def db_ok_def runs_ok_def)

lemma update_outbox_schema:
  assumes "schema_ok cn d" and "\<And>x. ob_id (f x) = ob_id x" and "\<And>x. ob_run_id (f x) = ob_run_id x"
    and "\<And>x. ob_tenant_id (f x) = ob_tenant_id x" and "\<And>x. ob_subject (f x) = ob_subject x"
    and "\<And>x. ob_payload (f x) = ob_payload x"
  shows "schema_ok cn (update_outbox P f d)"
proof (rule schema_ok_db [OF assms(1)])
  let ?d = "update_outbox P f d"
  have fields: "db_runs ?d = db_runs d" "db_limits ?d = db_limits d" "db_workflows ?d = db_workflows d"
      "db_tenants ?d = db_tenants d" "db_events ?d = db_events d" "db_principals ?d = db_principals d"
      "db_outbox_seq ?d = db_outbox_seq d"
    by (simp_all add: update_outbox_def)
  have ids: "map ob_id (db_outbox ?d) = map ob_id (db_outbox d)"
    using map_if_same_key [of ob_id f P] assms(2) by (simp add: update_outbox_def del: map_map)
  have "outbox_ok ?d"
    using assms unfolding schema_ok_def db_ok_def outbox_ok_def ids
    by (auto simp: update_outbox_def run_refs_def)
  then show "db_ok cn ?d"
    using assms(1) by (simp add: schema_ok_def db_ok_def runs_ok_def events_ok_def principals_ok_def
        fields run_refs_def tenant_exists_def)
qed (simp_all add: update_outbox_def)

lemma provisions_schema:
  assumes "provisions e d d'" and "schema_ok cn d" and "\<forall>n. cn (uuids e n) = Some (uuids e n)"
  shows "schema_ok cn d'"
proof (rule schema_okI)
  obtain ts where ts: "db_tenants d' = db_tenants d @ ts" "\<forall>x \<in> set ts. \<exists>n. tn_id x = uuids e n"
    using assms(1) unfolding provisions_def by blast
  have work: "db_workflows d' = db_workflows d" "db_runs d' = db_runs d" "db_events d' = db_events d"
      "db_outbox d' = db_outbox d" "db_outbox_seq d' = db_outbox_seq d"
    using provisionsD(1) [OF assms(1)] by (simp_all add: same_work_def)
  note ok = assms(2) [unfolded schema_ok_def]
  show tenants: "\<forall>t \<in> set (db_tenants d'). cn (tn_id t) = Some (tn_id t)"
    using ok ts assms(3) by auto
  have limits: "distinct (map lm_tenant_id (db_limits d'))"
    using provisionsD(2) [OF assms(1)] ok by (simp add: db_ok_def principals_ok_def)
  have "cn (pn_tenant_id q) = Some (pn_tenant_id q)" if "q \<in> set (db_principals d')" for q
  proof -
    have "pn_tenant_id q \<in> pn_tenant_id ` set (db_principals d) \<union> tn_id ` set (db_tenants d')"
      using provisionsD(3) [OF assms(1)] that by blast
    then show ?thesis
      using tenants ok by (auto simp: db_ok_def principals_ok_def)
  qed
  then have "principals_ok cn d'"
    using ok limits by (simp add: db_ok_def principals_ok_def work)
  moreover have "tenant_exists d t \<Longrightarrow> tenant_exists d' t" for t
    by (auto simp: tenant_exists_def ts)
  ultimately show "db_ok cn d'"
    using ok unfolding db_ok_def runs_ok_def outbox_ok_def events_ok_def run_refs_def work by blast
  show "definitions_ok d'"
    using ok definitions_ok_cong [OF work(1)] by simp
qed

lemma db_change_schema:
  assumes "db_change e d d'" and "schema_ok cn d" and "\<forall>n. cn (uuids e n) = Some (uuids e n)"
  shows "schema_ok cn d'"
  using assms(1)
proof cases
  case unchanged
  with assms(2) show ?thesis by simp
next
  case (created c now rq k x)
  have "db_ok cn d" using assms(2) by (simp add: schema_ok_def)
  moreover from this have "cn (pr_tenantId c) = Some (pr_tenantId c)"
    using pg_authentic_canonical [OF created(1)] by simp
  ultimately show ?thesis
    using creates_ok [OF created(2)] assms(3) created(2)
    by (intro schema_ok_db [OF assms(2)]) (auto simp: creates_def with_new_run_def)
next
  case (decided c row target ev now)
  then show ?thesis
    using with_transition_ok [OF _ decided(3,4)] assms(2)
    by (intro schema_ok_db [OF assms(2)]) (simp_all add: schema_ok_def with_transition_def Let_def)
next
  case (defined c w n wd now)
  then show ?thesis
    using assms(2,3) db_ok_audit db_ok_workflow [of cn d w]
    by (intro schema_okI) (auto simp: schema_ok_def definitions_ok_def with_workflow_def)
next
  case (leased row now worker expires)
  then show ?thesis
    using lease_ok [OF _ leased(2)] assms(2)
    by (intro schema_ok_db [OF assms(2)]) (simp_all add: schema_ok_def with_lease_def)
next
  case (counted ids)
  then show ?thesis
    using update_outbox_schema [OF assms(2)] by (simp add: attempted_def)
next
  case (published ids now)
  then show ?thesis
    using update_outbox_schema [OF assms(2)] by (simp add: marked_def)
next
  case provisioned
  then show ?thesis by (rule provisions_schema [OF _ assms(2,3)])
qed

lemma provisions_quota:
  assumes "provisions e d d'" and "tables_ok cn d"
  shows "quota_ok d'"
proof -
  obtain ls where ls: "db_limits d' = db_limits d @ ls"
    using assms(1) unfolding provisions_def by blast
  have "db_runs d' = db_runs d"
    using provisionsD(1) [OF assms(1)] by (simp add: same_work_def)
  note ok = assms(2) [unfolded tables_ok_def schema_ok_def] and work = this
  have limits: "distinct (map lm_tenant_id (db_limits d'))"
    using provisionsD(2) [OF assms(1)] ok by (simp add: db_ok_def principals_ok_def)
  have "active_count d' t = active_count d t" for t
    by (simp add: active_count_def work)
  moreover have "active_count d (lm_tenant_id l) = 0" if "l \<in> set ls" for l
  proof -
    have "lm_tenant_id l \<notin> lm_tenant_id ` set (db_limits d)"
      using limits that unfolding ls by auto
    moreover have "\<forall>r \<in> set (db_runs d). rw_tenant_id r \<in> lm_tenant_id ` set (db_limits d)"
      using ok by (simp add: quota_ok_def)
    ultimately show ?thesis
      by (metis (mono_tags, lifting) active_count_def filter_False list.size(3))
  qed
  ultimately show "quota_ok d'"
    using ok unfolding quota_ok_def ls work by (auto simp: image_Un)
qed

lemma update_outbox_queue:
  assumes "quota_ok d \<and> queued_once d" and "\<And>x. ob_run_id (f x) = ob_run_id x"
  shows "quota_ok (update_outbox P f d) \<and> queued_once (update_outbox P f d)"
proof -
  have "db_runs (update_outbox P f d) = db_runs d" "db_limits (update_outbox P f d) = db_limits d"
      "db_events (update_outbox P f d) = db_events d"
    by (simp_all add: update_outbox_def)
  then show ?thesis
    using assms(1) update_outbox_messages [of f P d, OF assms(2)]
    by (simp add: quota_ok_cong [of "update_outbox P f d" d] queued_once_def queueings_of_def)
qed

lemma db_change_queue:
  assumes "db_change e d d'" and "tables_ok cn d"
  shows "quota_ok d' \<and> queued_once d'"
  using assms(1)
proof cases
  case unchanged
  with assms(2) show ?thesis by (simp add: tables_ok_def)
next
  case (created c now rq k x)
  have ok: "db_ok cn d" "quota_ok d" "queued_once d" using assms(2) by (simp_all add: tables_ok_def schema_ok_def)
  then have "distinct (map lm_tenant_id (db_limits d))" by (simp add: db_ok_def principals_ok_def)
  with ok quota_ok_created [OF _ created(2)] queued_once_created [OF _ created(2)] show ?thesis
    by simp
next
  case (decided c row target ev now)
  have "quota_ok (update_runs (\<lambda>r. rw_id r = rw_id row) (\<lambda>r. r\<lparr>rw_state := target, rw_current_step :=
      rw_current_step r + (if target = Queued \<and> ev_type ev = Ev_approved then 1 else 0),
      rw_updated_at := now\<rparr>) d)"
    using assms(2) decided(3) assertTransition_active [OF decided(5)]
    by (intro quota_ok_update) (simp_all add: tables_ok_def schema_ok_runs [of cn])
  then have "quota_ok d'"
    by (subst quota_ok_cong) (auto simp: decided(1) with_transition_def Let_def)
  then show ?thesis
    using queued_once_decided [OF _ decided(6)] assms(2) decided(1) by (simp add: tables_ok_def)
next
  case (defined c w n wd now)
  then show ?thesis
    using assms(2)
    by (auto simp: tables_ok_def quota_ok_def queued_once_def with_workflow_def
         simp del: active_count_fields messages_of_fields queueings_of_fields)
       (simp_all add: active_count_def messages_of_def queueings_of_def)
next
  case (leased row now worker expires)
  have "quota_ok (update_runs (\<lambda>r. rw_id r = rw_id row) (\<lambda>r. r\<lparr>rw_state := Leased,
      rw_lease_owner := Some worker, rw_lease_expires_at := Some expires, rw_updated_at := now\<rparr>) d)"
    using assms(2) leased(2) claimable_active [OF leased(3)]
    by (intro quota_ok_update) (simp_all add: tables_ok_def schema_ok_runs [of cn])
  then have "quota_ok d'"
    by (subst quota_ok_cong) (auto simp: leased(1) with_lease_def)
  then show ?thesis
    using queued_once_leased assms(2) leased(1) by (simp add: tables_ok_def)
next
  case (counted ids)
  then show ?thesis
    using update_outbox_queue assms(2) by (simp add: attempted_def tables_ok_def)
next
  case (published ids now)
  then show ?thesis
    using update_outbox_queue assms(2) by (simp add: marked_def tables_ok_def)
next
  case provisioned
  then have "queued_once d'"
    using provisionsD(1) [OF provisioned] assms(2)
    by (simp add: tables_ok_def same_work_def queued_once_def messages_of_def queueings_of_def)
  with provisions_quota [OF provisioned assms(2)] show ?thesis by simp
qed

lemma db_change_ok:
  assumes "db_change e d d'" and "tables_ok cn d" and "\<forall>n. cn (uuids e n) = Some (uuids e n)"
  shows "tables_ok cn d'"
  using db_change_schema [OF assms(1) _ assms(3)] db_change_queue [OF assms(1,2)] assms(2)
  by (simp add: tables_ok_def)

section \<open>Requests commit such changes\<close>

definition changed_from ::
  "(string \<Rightarrow> uuid option) \<Rightarrow> env \<Rightarrow> db \<Rightarrow> env \<Rightarrow> pg \<Rightarrow> bool" where
  "changed_from cn base d e p \<longleftrightarrow>
     same_sources base e \<and> pg_ok cn (e, p) \<and> (db_change base)\<^sup>*\<^sup>* d (pg_db p)"

lemma changed_from_step:
  assumes "changed_from cn base d e p" and "db_change e (pg_db p) (pg_db p')" and "same_sources e e'"
    and "pg_ok cn (e', p')"
  shows "changed_from cn base d e' p'"
proof -
  have "db_change base (pg_db p) (pg_db p')"
    using assms(1) db_change_sources [OF assms(2)] by (simp add: changed_from_def same_sources_def)
  then show ?thesis
    using assms(1,3,4) same_sources_trans unfolding changed_from_def
    by (meson rtranclp.rtrancl_into_rtrancl)
qed

lemma law_keeps_ok:
  assumes "io_spec (\<lambda>w. pg_ok cn w \<and> snd w = p) m (\<lambda>x w. pg_ok cn w \<and> A x w) (\<lambda>x w. pg_ok cn w \<and> B x w)"
    and "pg_ok cn (e, p)" and "m (e, p) = (r, (e', p'))"
  shows "pg_ok cn (e', p')"
  using io_spec_at [OF assms(1), of "(e, p)"] assms(2,3) by (cases r) auto

lemma io_spec_pairI:
  assumes "\<And>e s r e' s'. P (e, s) \<Longrightarrow> m (e, s) = (r, (e', s')) \<Longrightarrow>
    (case r of Inl err \<Rightarrow> E err (e', s') | Inr x \<Rightarrow> Q x (e', s'))"
  shows "io_spec P m Q E"
proof (rule io_specI)
  show "E err w'" if "P w" and "m w = (Inl err, w')" for w err w'
    using assms [of "fst w" "snd w" "Inl err" "fst w'" "snd w'"] that by simp
  show "Q x w'" if "P w" and "m w = (Inr x, w')" for w x w'
    using assms [of "fst w" "snd w" "Inr x" "fst w'" "snd w'"] that by simp
qed

lemma method_keeps:
  assumes "env_keeps m"
    and "\<And>e p r e' p'. pg_ok cn (e, p) \<Longrightarrow> pg_authentic p c \<Longrightarrow> m (e, p) = (r, (e', p')) \<Longrightarrow>
      pg_ok cn (e', p') \<and> db_change e (pg_db p) (pg_db p') \<and>
      db_principals (pg_db p') = db_principals (pg_db p)"
  shows "io_keeps (\<lambda>w. changed_from cn base d (fst w) (snd w) \<and> pg_authentic (snd w) c) m"
proof (rule io_spec_pairI, goal_cases)
  case (1 e p r e' p')
  then have "changed_from cn base d e' p' \<and> pg_authentic p' c"
    using assms(2) [OF _ _ 1(2)] changed_from_step [of cn base d e p p' e'] env_keepsD [OF assms(1) 1(2)]
    by (auto simp: changed_from_def pg_authentic_def)
  then show ?case by (cases r) simp_all
qed

lemma env_keeps_readers:
  "env_keeps pg_ready" "env_keeps (pg_authenticate slug key)" "env_keeps (pg_readRun c i)"
  "env_keeps (pg_listAudit c)" "env_keeps (pg_createWorkflow c wd)"
  unfolding pg_ready_def pg_authenticate_def pg_readRun_def pg_listAudit_def pg_createWorkflow_def
    withTenant_def set_tenant_def hashApiKey_def
  by (intro env_rules)+

lemma reader_keeps:
  assumes "env_keeps m" and "\<And>e r e' p'. m (e, p) = (r, (e', p')) \<Longrightarrow> p' = p"
    and "changed_from cn base d e p" and "m (e, p) = (r, (e', p'))"
  shows "changed_from cn base d e' p' \<and> p' = p"
  using assms(2) [OF assms(4)] env_keepsD [OF assms(1,4)] assms(3) same_sources_trans pg_ok_env
  unfolding changed_from_def by metis

lemma pg_ready_unchanged: "pg_ready (e, p) = (r, (e', p')) \<Longrightarrow> p' = p"
  unfolding pg_ready_def by (erule pool_query_cases) (auto simp: open_session_def)

interpretation pg_tables: store_invariant PostgresDurableStore "changed_from cn base d" pg_authentic
  for cn base d
proof (unfold_locales, goal_cases)
  case 1
  show ?case
    unfolding stable_def changed_from_def using same_sources_trans pg_ok_env by blast
next
  case (2 s)
  show ?case
  proof (rule io_spec_pairI, goal_cases)
    case (1 e p r e' p')
    then have call: "changed_from cn base d e p" "pg_ready (e, p) = (r, (e', p'))" by auto
    have "changed_from cn base d e' p' \<and> p' = p"
      using reader_keeps [OF env_keeps_readers(1) _ call] pg_ready_unchanged by blast
    with 1(1) show ?case by (cases r) auto
  qed
next
  case (3 slug key)
  show ?case
  proof (rule io_spec_pairI, goal_cases)
    case (1 e p r e' p')
    then have call: "changed_from cn base d e p" "pg_authenticate slug key (e, p) = (r, (e', p'))" by simp_all
    have "changed_from cn base d e' p' \<and> p' = p"
      using reader_keeps [OF env_keeps_readers(2) _ call] pg_authenticate_unchanged by blast
    moreover have "pg_authentic p q" if "r = Inr (Some q)" for q
      using io_specD_Inr [OF pg_authenticate_law [where cn = cn and p = p], of "(e, p)"] call that
      by (simp add: changed_from_def)
    ultimately show ?case by (cases r) auto
  qed
next
  case (4 body wd c)
  then have "valid_definition wd"
    by (rule workflowDefinitionSchema_valid)
  then show ?case
    by (simp, intro method_keeps [OF env_keeps_readers(5)])
       (use law_keeps_ok [OF pg_createWorkflow_law] pg_createWorkflow_change in blast)
next
  case (5 c rq k)
  show ?case
    by (simp, rule method_keeps [OF env_keeps_methods(1)])
       (use law_keeps_ok [OF pg_createRun_law] pg_createRun_change in blast)
next
  case (6 c i)
  show ?case
    by (simp, rule method_keeps [OF env_keeps_readers(3)])
       (use law_keeps_ok [OF pg_readRun_law] pg_read_change(1) db_change.unchanged in metis)
next
  case (7 target ev c i)
  then show ?case
    by (simp, intro method_keeps [OF env_keeps_methods(2)])
       (use law_keeps_ok [OF pg_transition_law] pg_transition_change in blast)
next
  case (8 c)
  show ?case
    by (simp, rule method_keeps [OF env_keeps_readers(4)])
       (use law_keeps_ok [OF pg_listAudit_law] pg_read_change(2) db_change.unchanged in metis)
qed

section \<open>The system\<close>

text \<open>
  One step of the system on the shared environment and database. The credential broker, the
  metrics and the stream are arbitrary at each step.
\<close>

inductive system_step :: "app_config \<Rightarrow> env \<times> db \<Rightarrow> env \<times> db \<Rightarrow> bool" for cf where
  request: "as_store a = \<lparr>pg_role = DarControl, pg_db = d\<rparr> \<Longrightarrow>
    serve PostgresDurableStore cf rq (e, a) = (answer, (e', a')) \<Longrightarrow>
    system_step cf (e, d) (e', pg_db (as_store a'))"
| publish: "pb_store b = \<lparr>pg_role = DarWorker, pg_db = d\<rparr> \<Longrightarrow>
    publishPending n (e, b) = (delivered, (e', b')) \<Longrightarrow> system_step cf (e, d) (e', pg_db (pb_store b'))"
| claim: "claimRunLease i workerId ttl (e, \<lparr>pg_role = DarWorker, pg_db = d\<rparr>) = (lease, (e', p)) \<Longrightarrow>
    system_step cf (e, d) (e', pg_db p)"
| provision: "bootstrap seed (e, \<lparr>pg_role = DarControl, pg_db = d\<rparr>) = (u, (e', p)) \<Longrightarrow>
    system_step cf (e, d) (e', pg_db p)"
| elapse: "same_sources e e' \<Longrightarrow> system_step cf (e, d) (e', d)"

inductive_cases system_stepE: "system_step cf (e, d) (e', d')"

lemma env_keeps_bootstrap: "env_keeps (bootstrap seed)"
  unfolding bootstrap_def set_tenant_def hashApiKey_def by (intro env_rules)

lemma env_keeps_zoom [env_rules]: "env_keeps m \<Longrightarrow> env_keeps (io_zoom get put m)"
  by (auto simp: env_keeps_def io_zoom_def split: prod.splits) (metis fst_conv snd_conv)

lemma env_keeps_publisher_parts [env_rules]:
  "env_keeps (js_publish content)" "env_keeps (count_publisher f)"
  "env_keeps (claimPendingOutbox limit)" "env_keeps (markOutboxPublished ids)" "env_keeps outboxBacklog"
      apply (auto simp: env_keeps_def js_publish_def Let_def split: publish_fate.splits)[]
  unfolding count_publisher_def claimPendingOutbox_def markOutboxPublished_def outboxBacklog_def
  by (intro env_rules)+

lemma env_keeps_publish_all [env_rules]: "env_keeps (publish_all messages ids)"
proof (induction messages arbitrary: ids)
  case (Cons msg messages)
  show ?case
    unfolding publish_all.simps by (intro env_rules Cons.IH)
qed (simp add: env_rules)

lemma env_keeps_publishPending: "env_keeps (publishPending n)"
  unfolding publishPending_def by (intro env_rules)

lemma system_step_change:
  assumes "system_step cf (e, d) (e', d')" and "schema_ok cn d" and "parse_uuid e = cn"
    and "\<forall>n. cn (uuids e n) = Some (uuids e n)"
  shows "same_sources e e' \<and> (db_change e)\<^sup>*\<^sup>* d d'"
  using assms(1)
proof (rule system_stepE, goal_cases)
  case (1 a rq r a')
  have "pg_ok cn (e, as_store a)"
    using assms 1(2) by (simp add: pg_ok_def schema_ok_def)
  then have "changed_from cn e d e (as_store a)"
    using 1(2) by (simp add: changed_from_def)
  with io_keepsD [OF pg_tables.serve_keeps [of cn e d cf rq], of "(e, a)"] 1(1,3) show ?case
    by (simp add: changed_from_def)
next
  case (2 b n r b')
  then show ?case
    using env_keepsD [OF env_keeps_publishPending 2(3)] publishPending_change [OF 2(3)] by simp
next
  case (3 i workerId ttl r p)
  then show ?case
    using claimRunLease_change [OF _ _ 3(2)] env_keepsD [OF env_keeps_claim 3(2)] assms
    by (auto simp: pg_ok_def schema_ok_def)
next
  case (4 seed r p)
  then show ?case
    using bootstrap_change [OF 4(2)] env_keepsD [OF env_keeps_bootstrap 4(2)] by auto
qed auto

text \<open>
  C5. The tables stay consistent under everything the program does to them. Start from tables that
  are consistent, for instance the empty ones a migrated database has, and let requests to the
  control plane, rounds of the outbox publisher, claims of runs by workers and provisioning of
  tenants come in any number and order, with every kind of failed round trip. Then in every state
  reached: run identifiers and idempotency keys are unique, and events and outbox messages refer
  to runs; every stored workflow is a definition the schema accepts; no tenant has more active
  runs than its limit; and every run has exactly one outbox message per creation and approval.
\<close>
theorem system_keeps_tables_ok:
  assumes "(system_step cf)\<^sup>*\<^sup>* (e, d) (e', d')"
    and "tables_ok (parse_uuid e) d" and "\<forall>n. parse_uuid e (uuids e n) = Some (uuids e n)"
  shows "tables_ok (parse_uuid e) d' \<and> same_sources e e' \<and>
    (\<forall>l \<in> set (db_limits d'). active_count d' (lm_tenant_id l) \<le> lm_max_active_runs l) \<and>
    (\<forall>r \<in> set (db_runs d'). messages_of d' (rw_id r) = queueings_of d' (rw_id r))"
proof -
  have "tables_ok (parse_uuid e) d' \<and> same_sources e e'"
    using assms(1)
  proof (induction rule: rtranclp_induct2)
    case refl
    with assms(2) show ?case by simp
  next
    case (step e1 d1 e2 d2)
    then have e1: "parse_uuid e1 = parse_uuid e" "uuids e1 = uuids e"
      by (simp_all add: same_sources_def)
    with system_step_change [OF step(2)] step(3) [unfolded tables_ok_def] assms(3)
    have "same_sources e1 e2" and changes: "(db_change e1)\<^sup>*\<^sup>* d1 d2"
      by auto
    moreover from changes have "tables_ok (parse_uuid e) d2"
      by (induction rule: rtranclp_induct) (use step(3) db_change_ok e1 assms(3) in auto)
    ultimately show ?case
      using step(3) same_sources_trans by blast
  qed
  then show ?thesis
    by (auto simp: tables_ok_def quota_ok_def queued_once_def)
qed

definition empty_db :: db where
  "empty_db =
     \<lparr>db_tenants = [], db_principals = [], db_api_keys = [], db_limits = [], db_workflows = [],
      db_runs = [], db_events = [], db_outbox = [], db_outbox_seq = 1, db_audits = []\<rparr>"

lemma empty_db_ok: "tables_ok cn empty_db"
  by (simp add: tables_ok_def schema_ok_def empty_db_def db_ok_defs definitions_ok_def quota_ok_def queued_once_def)

theorem system_keeps_tables_ok_witness:
  "\<exists>e' d'. (system_step sample_config)\<^sup>*\<^sup>* (sample_env, empty_db) (e', d') \<and> tables_ok Some d'"
proof -
  obtain u e' p where "bootstrap \<lparr>ps_tenantSlug = ''demo-tenant'', ps_apiKey = ''secret'', ps_role = None,
      ps_subject = None\<rparr> (sample_env, \<lparr>pg_role = DarControl, pg_db = empty_db\<rparr>) = (u, (e', p))"
    using prod_cases3 by blast
  then have "(system_step sample_config)\<^sup>*\<^sup>* (sample_env, empty_db) (e', pg_db p)"
    by (intro r_into_rtranclp system_step.provision)
  with system_keeps_tables_ok [OF this] empty_db_ok [of Some] show ?thesis
    by auto
qed

section \<open>Approvals\<close>

text \<open>
  C20. What an approval commits. A transition to \<open>queued\<close> with an approval event leaves the database
  as it was and ends in an error, or it moves exactly one run of the caller's tenant to \<open>queued\<close>,
  one step further, and records with it one pending outbox message for the run, one event and one
  audit record. The run was awaiting approval or leased: the transition table, and not the check
  of the handler in its own earlier transaction, is what the method enforces.
\<close>
theorem approval_effect:
  assumes "pg_ok cn (e, p)" and "pg_authentic p c" and "ev_type ev = Ev_approved"
    and "pg_transition c i Queued ev (e, p) = (r, (e', p'))"
  shows "(p' = p \<and> (\<exists>err. r = Inl err)) \<or>
    (\<exists>row \<in> set (db_runs (pg_db p)). rw_tenant_id row = pr_tenantId c \<and> cn i = Some (rw_id row) \<and>
       rw_state row \<in> {Awaiting_approval, Leased} \<and>
       db_runs (pg_db p') = map (\<lambda>x. if rw_id x = rw_id row
           then x\<lparr>rw_state := Queued, rw_current_step := Suc (rw_current_step x),
                  rw_updated_at := clock e (ticks e)\<rparr>
           else x) (db_runs (pg_db p)) \<and>
       (\<exists>m. db_outbox (pg_db p') = db_outbox (pg_db p) @ [m] \<and> ob_run_id m = rw_id row \<and>
          ob_tenant_id m = pr_tenantId c \<and> ob_published_at m = None) \<and>
       length (db_events (pg_db p')) = Suc (length (db_events (pg_db p))) \<and>
       length (db_audits (pg_db p')) = Suc (length (db_audits (pg_db p))) \<and>
       (\<forall>run. r = Inr run \<longrightarrow> run_id run = rw_id row \<and> run_state run = Queued))"
  using assms(1,2,4)
proof (cases rule: pg_transition_cases)
  case (given_up err)
  then show ?thesis by simp
next
  case (moved row)
  have "rw_state row \<in> {Awaiting_approval, Leased}"
    using moved(4) by (cases "rw_state row") (auto simp: assertTransition_def)
  with moved assms(3) show ?thesis
    by (intro disjI2 bexI [of _ row])
       (auto simp: with_transition_runs, auto simp: with_transition_def Let_def with_message_def
         with_audit_def with_event_def queued_message_def update_runs_def)
qed

text \<open>
  A stale approval: the request read the run while it waited for approval, another approval queued
  it and a worker took the lease before this one's transaction. The transition is granted, the run
  leaves the worker's lease and its step counter moves again.
\<close>

definition leased_sample :: pg where
  "leased_sample = \<lparr>pg_role = DarControl, pg_db = sample_db\<lparr>db_runs := [sample_run_row\<lparr>rw_state := Leased,
     rw_current_step := 2, rw_lease_owner := Some ''worker'', rw_lease_expires_at := Some 100\<rparr>]\<rparr>\<rparr>"

definition sample_approval :: run_event where
  "sample_approval = \<lparr>ev_at = 0, ev_type = Ev_approved, ev_detail = ''approved'', ev_traceId = None\<rparr>"

lemma leased_sample_ok: "pg_ok Some (sample_env, leased_sample)" "pg_authentic leased_sample sample_owner"
  by (simp_all add: pg_ok_def leased_sample_def sample_db_def db_ok_defs tenant_exists_def
      sample_run_row_def new_run_row_def pg_authentic_def sample_owner_def)

lemma leased_sample_granted:
  "isl (fst (pg_transition sample_owner ''r'' Queued sample_approval (sample_env, leased_sample))) = False"
  by (simp add: pg_transition_def transition_body_def method_defs query_performed statement_defs
      leased_sample_def sample_db_def sample_owner_def sample_run_row_def sample_approval_def
      select_runs_by_id_def update_run_state_def update_runs_def assertTransition_def
      runStateSchema_def runStates_def)

theorem approval_effect_witness:
  "\<exists>row. db_runs (pg_db (snd (snd (pg_transition sample_owner ''r'' Queued sample_approval
       (sample_env, leased_sample))))) = [row] \<and>
     rw_state row = Queued \<and> rw_current_step row = 3 \<and> rw_lease_owner row = Some ''worker''"
proof -
  obtain r e' p' where run: "pg_transition sample_owner ''r'' Queued sample_approval
      (sample_env, leased_sample) = (r, (e', p'))"
    using prod_cases3 by blast
  then have "\<not> (\<exists>err. r = Inl err)"
    using leased_sample_granted by auto
  with approval_effect [OF leased_sample_ok _ run] run show ?thesis
    by (auto simp: sample_approval_def leased_sample_def sample_run_row_def new_run_row_def)
qed

end
