(* ===== verification/Refinement.thy ===== *)
theory Refinement
  imports SystemSteps
begin

text \<open>
  Two specifications of the whole: what a transition does to the runs a tenant sees, which both
  stores implement, and the shapes of the replies of each route.
\<close>

section \<open>The transition of a run\<close>

definition spec_transition ::
  "run_view \<Rightarrow> string \<Rightarrow> string \<Rightarrow> run_state \<Rightarrow> run_event \<Rightarrow> stored_run result \<times> run_view" where
  "spec_transition v t i target ev =
     (case v t i of
        None \<Rightarrow> (Inl (Error ''Run not found''), v)
      | Some r \<Rightarrow>
          (case assertTransition (run_state r) target of
             Inl err \<Rightarrow> (Inl err, v)
           | Inr _ \<Rightarrow>
               (let r' = r\<lparr>run_state := target, run_events := run_events r @ [ev]\<rparr> in
                (Inr r', v(t := (v t)(i \<mapsto> r'))))))"

text \<open>The event as the table keeps it: with the time of the transaction, and no empty trace.\<close>

definition recorded :: "timestamp \<Rightarrow> run_event \<Rightarrow> run_event" where
  "recorded now ev = ev\<lparr>ev_at := now, ev_traceId := (if truthy (ev_traceId ev) then ev_traceId ev else None)\<rparr>"

lemma mem_view_moved:
  assumes "mem_view s t i = Some r" and "run_tenantId r' = run_tenantId r"
  shows "mem_view (s\<lparr>ms_runs := (ms_runs s)(i \<mapsto> r'), ms_audits := x\<rparr>) = (mem_view s)(t := (mem_view s t)(i \<mapsto> r'))"
  using assms by (auto simp: mem_view_def fun_eq_iff split: option.splits if_splits)

lemma mem_transition_spec:
  assumes "mem_transition p i target ev (e, s) = (r, (e', s'))"
  shows "(r, mem_view s') = spec_transition (mem_view s) (pr_tenantId p) i target ev"
proof (cases "mem_view s (pr_tenantId p) i")
  case None
  with assms show ?thesis
    by (auto simp: mem_transition_def mem_readRun_eq io_bind_def io_throw_def io_return_def spec_transition_def)
next
  case (Some x)
  show ?thesis
  proof (cases "assertTransition (run_state x) target")
    case (Inl err)
    with Some assms show ?thesis
      by (auto simp: mem_transition_def mem_readRun_eq io_bind_def io_throw_def spec_transition_def)
  next
    case (Inr u)
    note upd = mem_view_moved [OF Some, of "x\<lparr>run_state := target, run_events := run_events x @ [ev]\<rparr>"]
    from Some Inr assms upd show ?thesis
      by (auto simp: mem_transition_def mem_readRun_eq io_bind_def spec_transition_def Let_def io_modify_def mem_audit_def
          isoNow_def next_clock_def io_return_def)
  qed
qed

lemma pg_moved_spec:
  assumes "distinct (map rw_id (db_runs d))" and "row \<in> set (db_runs d)" and "rw_tenant_id row = pr_tenantId c"
    and "assertTransition (rw_state row) target = Inr ()" and "d' = with_transition c (rw_id row) target ev now d"
  shows "(Inr (run_of (row\<lparr>rw_state := target\<rparr>) (events_of d' (pr_tenantId c) (rw_id row))), db_view d') =
    spec_transition (db_view d) (pr_tenantId c) (rw_id row) target (recorded now ev)"
proof -
  let ?t = "pr_tenantId c" and ?r = "run_of (row\<lparr>rw_state := target\<rparr>) (events_of d' (pr_tenantId c) (rw_id row))"
  have before: "db_view d ?t (rw_id row) = Some (run_of row (events_of d ?t (rw_id row)))"
    using db_view_at [OF assms(1,2)] assms(3) by simp
  have "db_view d' = (db_view d)(?t := (db_view d ?t)(rw_id row \<mapsto> ?r))"
    using with_transition_view [OF assms] by (auto simp: moves_run_def)
  moreover have "?r = (run_of row (events_of d ?t (rw_id row)))\<lparr>run_state := target,
      run_events := events_of d ?t (rw_id row) @ [recorded now ev]\<rparr>"
    by (simp add: assms(5) with_transition_events run_of_def toEvent_def recorded_def)
  ultimately show ?thesis
    using before assms(4) by (simp add: spec_transition_def Let_def)
qed



section \<open>The replies of a route\<close>

fun route_reply :: "route \<Rightarrow> reply \<Rightarrow> bool" where
  "route_reply R_healthz rp = (rp = \<lparr>rp_code = 200, rp_body = B_status ''ok''\<rparr>)"
| "route_reply R_health_live rp = (rp = \<lparr>rp_code = 200, rp_body = B_status ''ok''\<rparr>)"
| "route_reply R_health_ready rp =
     (rp \<in> {\<lparr>rp_code = 200, rp_body = B_status ''ready''\<rparr>, \<lparr>rp_code = 503, rp_body = B_status ''not_ready''\<rparr>})"
| "route_reply R_metrics rp = (rp = \<lparr>rp_code = 200, rp_body = B_metrics\<rparr>)"
| "route_reply R_create_workflow rp =
     (case (rp_code rp, rp_body rp) of
        (c, B_workflow w) \<Rightarrow> c = 201
      | (c, B_error_details m) \<Rightarrow> c = 400 \<and> m = ''invalid_workflow''
      | _ \<Rightarrow> False)"
| "route_reply R_create_run rp =
     (case (rp_code rp, rp_body rp) of
        (c, B_created_run r replayed) \<Rightarrow> c = (if replayed then 200 else 201)
      | (c, B_error_details m) \<Rightarrow> c = 400 \<and> m = ''invalid_run''
      | (c, B_error m) \<Rightarrow>
          c = 400 \<and> m = ''idempotency_key_required'' \<or>
          c = (if str_includes ''quota'' m then 429 else if m = ''Workflow not found'' then 404 else 500)
      | _ \<Rightarrow> False)"
| "route_reply (R_consume_credential h) rp =
     (case (rp_code rp, rp_body rp) of
        (c, B_credential s) \<Rightarrow> c = 200 \<and> s \<noteq> []
      | (c, B_error m) \<Rightarrow> (c, m) \<in> {(401, ''internal_unauthenticated''), (404, ''provider_credential_unavailable'')}
      | _ \<Rightarrow> False)"
| "route_reply (R_read_run i) rp =
     (case (rp_code rp, rp_body rp) of
        (c, B_run r) \<Rightarrow> c = 200
      | (c, B_error m) \<Rightarrow> (c, m) = (404, ''run_not_found'')
      | _ \<Rightarrow> False)"
| "route_reply (R_approve i) rp =
     (case (rp_code rp, rp_body rp) of
        (c, B_run r) \<Rightarrow> c = 200
      | (c, B_error m) \<Rightarrow> (c, m) \<in> {(404, ''run_not_found''), (409, ''run_not_awaiting_approval'')}
      | _ \<Rightarrow> False)"
| "route_reply (R_cancel i) rp =
     (case (rp_code rp, rp_body rp) of
        (c, B_run r) \<Rightarrow> c = 200
      | (c, B_error m) \<Rightarrow> (c, m) \<in> {(404, ''run_not_found''), (409, ''terminal_run'')}
      | _ \<Rightarrow> False)"
| "route_reply R_audit rp = (case (rp_code rp, rp_body rp) of (c, B_records rs) \<Rightarrow> c = 200 | _ \<Rightarrow> False)"

lemma io_catch_eq_Inr:
  "io_catch m h w = (Inr x, w') \<longleftrightarrow> m w = (Inr x, w') \<or> (\<exists>err w1. m w = (Inl err, w1) \<and> h err w1 = (Inr x, w'))"
  by (auto simp: io_catch_def split: prod.splits sum.splits)

lemmas reply_simps = io_bind_eq_Inr io_catch_eq_Inr send_def io_return_def

lemma try_reply: "try_create_run st p parsed key w = (Inr rp, w') \<Longrightarrow> route_reply R_create_run rp"
  unfolding try_create_run_def io_bind_eq_Inr send_def io_return_def by auto

lemma failed_reply: "creation_failed err w = (Inr rp, w') \<Longrightarrow> route_reply R_create_run rp"
  unfolding creation_failed_def Let_def io_bind_eq_Inr send_def io_return_def by auto

lemma dispatch_reply:
  assumes "dispatch st cf caller rq route w = (Inr rp, w')"
  shows "route_reply route rp"
proof (cases route)
  case R_health_ready
  with assms show ?thesis by (auto simp: health_ready_def reply_simps)
next
  case R_create_workflow
  with assms show ?thesis
    by (auto simp: create_workflow_def reply_simps split: option.splits)
next
  case R_create_run
  with assms obtain x w1 w2 where run: "(case header_string (rq_headers rq ''idempotency-key'') of
       None \<Rightarrow> send 400 (B_error ''idempotency_key_required'')
     | Some key \<Rightarrow>
         if length key < 16 \<or> length key > 128 then send 400 (B_error ''idempotency_key_required'')
         else
           (case createRunSchema (cf_isUuid cf) (rq_body rq) of
              None \<Rightarrow> send 400 (B_error_details ''invalid_run'')
            | Some parsed \<Rightarrow> io_catch (try_create_run st x parsed key) creation_failed)) w2 = (Inr rp, w')"
    unfolding R_create_run dispatch.simps create_run_handler_def io_bind_eq_Inr by blast
  show ?thesis
  proof (cases "header_string (rq_headers rq ''idempotency-key'')")
    case None
    with run R_create_run show ?thesis by (auto simp: send_def io_return_def)
  next
    case (Some key)
    note key = this
    show ?thesis
    proof (cases "length key < 16 \<or> length key > 128")
      case True
      with run key R_create_run show ?thesis by (auto simp: send_def io_return_def)
    next
      case False
      note valid = this
      show ?thesis
      proof (cases "createRunSchema (cf_isUuid cf) (rq_body rq)")
        case None
        with run key valid R_create_run show ?thesis by (auto simp: send_def io_return_def)
      next
        case (Some parsed)
        with run key valid have "io_catch (try_create_run st x parsed key) creation_failed w2 = (Inr rp, w')"
          by simp
        then have "route_reply R_create_run rp"
          unfolding io_catch_eq_Inr by (elim disjE exE conjE) (erule try_reply, erule failed_reply)
        then show ?thesis by (simp only: R_create_run)
      qed
    qed
  qed
next
  case (R_consume_credential h)
  let ?refused = "\<not> truthy (cf_internalToken cf) \<or>
    rq_headers rq ''x-runtime-internal-token'' \<noteq> map_option One (cf_internalToken cf)"
  show ?thesis
  proof (cases ?refused)
    case True
    with assms R_consume_credential show ?thesis
      by (auto simp: consume_credential_def send_def io_return_def)
  next
    case False
    from assms have "consume_credential cf h rq w = (Inr rp, w')"
      by (simp only: R_consume_credential dispatch.simps)
    then obtain credential w1 where "(if truthy credential then send 200 (B_credential (the credential))
        else send 404 (B_error ''provider_credential_unavailable'')) w1 = (Inr rp, w')"
      unfolding consume_credential_def if_not_P [OF False] io_bind_eq_Inr by blast
    with R_consume_credential show ?thesis
      by (cases credential) (auto simp: send_def io_return_def truthy_def split: if_splits)
  qed
next
  case (R_read_run i)
  with assms show ?thesis by (auto simp: read_run_def reply_simps split: option.splits)
next
  case (R_approve i)
  with assms show ?thesis by (auto simp: approve_run_def reply_simps split: option.splits if_splits)
next
  case (R_cancel i)
  with assms show ?thesis by (auto simp: cancel_run_def reply_simps split: option.splits if_splits)
next
  case R_audit
  with assms show ?thesis by (auto simp: list_audit_def reply_simps)
qed (use assms in \<open>auto simp: reply_simps\<close>)

text \<open>
  C39. Replies have the shapes of the interface. On every store and whatever the request, the control
  plane answers, and the reply is one of those of the route it was matched to, each status with
  its body; or, outside the open paths, 401; or the report of an error the handler threw, with
  the status Fastify gives it.
\<close>
theorem replies_typed:
  "\<exists>rp w'. serve st cf rq w = (Inr rp, w') \<and>
     (route_reply (rq_route rq) rp \<or>
      \<not> open_url (rq_url rq) \<and> rp = \<lparr>rp_code = 401, rp_body = B_error ''unauthenticated''\<rparr> \<or>
      (\<exists>err. rp = \<lparr>rp_code = cf_errorStatus cf err, rp_body = B_thrown err\<rparr>))"
proof -
  obtain e a where w: "w = (e, a)" by (rule prod.exhaust)
  obtain r e' a' where run: "serve st cf rq (e, a) = (r, (e', a'))" using prod_cases3 by blast
  then show ?thesis
  proof (cases rule: serve_cases)
    case (stopped rp a1)
    then have "\<not> open_url (rq_url rq) \<and> rp = \<lparr>rp_code = 401, rp_body = B_error ''unauthenticated''\<rparr>"
      by (auto simp: preHandler_def reply_simps Let_def split: if_splits option.splits)
    with run stopped(2) w show ?thesis by auto
  next
    case (answered caller e1 a1 rp a2)
    with run dispatch_reply [OF answered(2)] w show ?thesis by auto
  qed (use run w in auto)
qed

end
