(* ===== verification/Evidence.thy ===== *)
theory Evidence
  imports JsValues Redaction
begin

text \<open>
  The check of the release evidence (\<open>scripts/validate-evidence.mjs\<close>). It reads the reports one after
  the other and stops at the first assertion that fails. The files are parameters: \<open>files\<close> gives the
  parsed JSON of a report or the error of reading it, \<open>trace\<close> the text of the trace log.
\<close>

section \<open>The script\<close>

definition assert_that :: "bool \<Rightarrow> string \<Rightarrow> unit result" where
  "assert_that condition text = (if condition then Inr () else Inl (Error text))"

fun all_of :: "unit result list \<Rightarrow> unit result" where
  "all_of [] = Inr ()"
| "all_of (r # rs) = result_bind r (\<lambda>_. all_of rs)"

definition machine_keys :: "string list" where
  "machine_keys = [''os'', ''arch'', ''cpus'', ''memoryBytes'', ''goVersion'', ''nodeVersion'', ''dockerVersion'']"

definition assertMachine :: "json option \<Rightarrow> string \<Rightarrow> unit result" where
  "assertMachine machine label =
     all_of (map (\<lambda>key. assert_that
        (js_optional_get machine key \<noteq> None \<and> js_optional_get machine key \<noteq> Some (JStr []))
        (label @ '': missing machine.'' @ key)) machine_keys)"

text \<open>A report that is \<open>null\<close> throws at the first member read.\<close>

definition with_report ::
  "platform \<Rightarrow> (string \<Rightarrow> json result) \<Rightarrow> string \<Rightarrow> ((string \<Rightarrow> json option) \<Rightarrow> unit result) \<Rightarrow> unit result" where
  "with_report pf files path check =
     result_bind (files path) (\<lambda>j.
       if j = JNull then Inl (Error (pf_typeError pf)) else check (js_optional_get (Some j)))"

abbreviation num :: "rat \<Rightarrow> json option" where
  "num n \<equiv> Some (JNum n)"

abbreviation yes :: "json option" where
  "yes \<equiv> Some (JBool True)"

definition check_fault :: "(string \<Rightarrow> json option) \<Rightarrow> unit result" where
  "check_fault fault = all_of
     [assert_that (fault ''attempts'' = num 100000) ''fault report must contain 100,000 attempts'',
      assert_that (fault ''committedEffects'' = num 1 \<and> fault ''passed'' = yes)
        ''fault report must prove one committed effect'',
      assert_that (nonempty_array (fault ''failureConditions'')) ''fault report needs failure conditions'',
      assertMachine (fault ''machine'') ''fault report'']"

definition check_benchmark :: "platform \<Rightarrow> (string \<Rightarrow> json option) \<Rightarrow> unit result" where
  "check_benchmark pf benchmark = all_of
     [assert_that (benchmark ''residentActiveMockRuns'' = num 1000) ''benchmark must include 1,000 resident mock workflows'',
      assert_that (benchmark ''backlogRuns'' = num 10000) ''benchmark must include a 10,000-run backlog'',
      assert_that (benchmark ''succeededRuns'' = num 10000 \<and> benchmark ''passP95Under500Millis'' = yes)
        ''benchmark must pass all measured runs and p95 gate'',
      assert_that (js_le pf (benchmark ''p95Millis'') 500) ''benchmark p95 exceeds 500 ms'',
      assert_that (nonempty_array (benchmark ''failureConditions'')) ''benchmark needs failure conditions'',
      assertMachine (benchmark ''machine'') ''benchmark report'']"

definition check_recovery :: "(string \<Rightarrow> json option) \<Rightarrow> unit result" where
  "check_recovery recovery = all_of
     [assert_that (recovery ''passed'' = yes) ''lease recovery evidence did not pass'',
      assert_that (recovery ''attempts'' = num 2 \<and> recovery ''committedEffects'' = num 1 \<and>
          recovery ''finalState'' = Some (JStr ''succeeded'')) ''lease recovery outcome is incomplete'']"

definition check_process_recovery :: "(string \<Rightarrow> json option) \<Rightarrow> unit result" where
  "check_process_recovery r = all_of
     [assert_that (r ''passed'' = yes) ''process recovery evidence did not pass'',
      assert_that (r ''firstWorkerKilled'' = yes \<and> r ''leaseExpired'' = yes \<and> r ''replacementClaimed'' = yes)
        ''process recovery must prove an interrupted worker, lease expiry, and handoff'',
      assert_that (r ''finalState'' = Some (JStr ''succeeded'') \<and> r ''committedEffects'' = num 0)
        ''process recovery mock-read outcome is incorrect'']"

definition check_fault_v02 :: "(string \<Rightarrow> json option) \<Rightarrow> unit result" where
  "check_fault_v02 fault = all_of
     [assert_that (fault ''attempts'' = num 100000 \<and> fault ''committedEffects'' = num 1 \<and> fault ''passed'' = yes)
        ''v0.2 fault report must prove one commit across 100,000 attempts'',
      assertMachine (fault ''machine'') ''v0.2 fault report'']"

definition check_benchmark_v02 :: "platform \<Rightarrow> (string \<Rightarrow> json option) \<Rightarrow> unit result" where
  "check_benchmark_v02 pf b = all_of
     [assert_that (b ''residentActiveMockRuns'' = num 1000 \<and> b ''backlogRuns'' = num 10000)
        ''v0.2 benchmark workload is incomplete'',
      assert_that (b ''workerProcesses'' = num 2 \<and> b ''succeededRuns'' = num 10000)
        ''v0.2 benchmark must prove two-worker completion'',
      assert_that (js_le pf (b ''p95Millis'') 500 \<and> b ''passP95Under500Millis'' = yes)
        ''v0.2 benchmark exceeds the scheduling SLO'',
      assertMachine (b ''machine'') ''v0.2 benchmark report'']"

definition check_kubernetes :: "platform \<Rightarrow> (string \<Rightarrow> json option) \<Rightarrow> unit result" where
  "check_kubernetes pf k = all_of
     [assert_that (k ''workerReplicasReady'' = num 2 \<and> k ''workerRolloutPerformed'' = yes)
        ''kind evidence must include two ready workers and a rollout'',
      assert_that (k ''finalState'' = Some (JStr ''succeeded'') \<and> js_ge pf (k ''attemptCount'') 2 \<and>
          k ''committedEffects'' = num 1 \<and> k ''passed'' = yes) ''kind rolling-recovery result is incomplete'',
      assert_that (k ''syntheticOnly'' = yes \<and> nonempty_array (k ''limitations''))
        ''kind evidence must state its synthetic boundary'']"

definition evidence_secret :: regex where
  "evidence_secret =
     Alt (seq [lit_i ''Bearer'', Plus (Cls is_space)])
    (Alt (seq [lit_i ''api'', Opt (Cls (\<lambda>c. c = CHR ''_'' \<or> c = CHR ''-'')), lit_i ''key'', Star (Cls is_space),
               Cls (\<lambda>c. c = CHR '':'' \<or> c = CHR ''='')])
    (Alt (lit_i ''providerCredential'') (lit_i ''sk-'')))"

definition check_trace :: "string \<Rightarrow> unit result" where
  "check_trace otelTrace = all_of
     [assert_that (str_includes ''service.name: durable-agent-runtime-control-plane'' otelTrace)
        ''OTel evidence must identify the control plane'',
      assert_that (str_includes ''url.path: /healthz'' otelTrace \<and> str_includes ''url.path: /metrics'' otelTrace)
        ''OTel evidence must prove safe request spans'',
      assert_that (\<not> regex_test evidence_secret otelTrace) ''OTel evidence contains a secret-like value'']"

definition validate_evidence :: "platform \<Rightarrow> (string \<Rightarrow> json result) \<Rightarrow> string result \<Rightarrow> unit result" where
  "validate_evidence pf files trace = all_of
     [with_report pf files ''docs/evidence/effect-fault-report.json'' check_fault,
      with_report pf files ''docs/evidence/scheduling-benchmark-report.json'' (check_benchmark pf),
      with_report pf files ''docs/evidence/lease-recovery-report.json'' check_recovery,
      with_report pf files ''docs/evidence/process-recovery-report.json'' check_process_recovery,
      with_report pf files ''docs/evidence/effect-fault-report-v0.2.json'' check_fault_v02,
      with_report pf files ''docs/evidence/scheduling-benchmark-report-v0.2.json'' (check_benchmark_v02 pf),
      with_report pf files ''docs/evidence/kubernetes-rolling-recovery-v0.2.json'' (check_kubernetes pf),
      result_bind trace check_trace]"

section \<open>What it accepts\<close>

lemma all_of_Inr: "all_of rs = Inr () \<longleftrightarrow> (\<forall>r \<in> set rs. r = Inr ())"
  by (induction rs) (auto simp: result_bind_def split: sum.splits)

lemma assert_that_Inr [simp]: "assert_that b text = Inr () \<longleftrightarrow> b"
  by (simp add: assert_that_def)

lemma optional_get_Some: "js_optional_get (Some j) k = Some v \<Longrightarrow> \<exists>ms. j = JObj ms \<and> map_of ms k = Some v"
  by (cases j) auto

lemma report_shows:
  assumes "with_report pf files path check = Inr ()"
    and "\<And>j. check (js_optional_get (Some j)) = Inr () \<Longrightarrow> P j"
  shows "\<exists>j. files path = Inr j \<and> P j"
  using assms
  by (auto simp: with_report_def result_bind_def split: sum.splits if_splits)

text \<open>A machine is described: every member asked for is there and is no empty text.\<close>

definition machine_named :: "json option \<Rightarrow> bool" where
  "machine_named m \<longleftrightarrow>
     (\<exists>ms. m = Some (JObj ms) \<and> (\<forall>k \<in> set machine_keys. map_of ms k \<notin> {None, Some (JStr [])}))"

lemma assertMachine_named: "assertMachine m label = Inr () \<Longrightarrow> machine_named m"
  unfolding assertMachine_def all_of_Inr machine_named_def
  by (cases m; cases "the m") (auto simp: machine_keys_def)

definition one_effect :: "json \<Rightarrow> bool" where
  "one_effect j \<longleftrightarrow>
     (\<exists>ms. j = JObj ms \<and> map_of ms ''attempts'' = num 100000 \<and> map_of ms ''committedEffects'' = num 1 \<and>
        map_of ms ''passed'' = yes \<and> machine_named (map_of ms ''machine''))"

definition fast_schedule :: "platform \<Rightarrow> json \<Rightarrow> bool" where
  "fast_schedule pf j \<longleftrightarrow>
     (\<exists>ms. j = JObj ms \<and> map_of ms ''backlogRuns'' = num 10000 \<and> map_of ms ''succeededRuns'' = num 10000 \<and>
        js_le pf (map_of ms ''p95Millis'') 500 \<and> machine_named (map_of ms ''machine''))"

definition recovered :: "json \<Rightarrow> bool" where
  "recovered j \<longleftrightarrow>
     (\<exists>ms. j = JObj ms \<and> map_of ms ''finalState'' = Some (JStr ''succeeded'') \<and> map_of ms ''passed'' = yes)"

lemma recovery_sound:
  "check_recovery (js_optional_get (Some j)) = Inr () \<Longrightarrow> recovered j"
  "check_process_recovery (js_optional_get (Some j)) = Inr () \<Longrightarrow> recovered j"
  "check_kubernetes pf (js_optional_get (Some j)) = Inr () \<Longrightarrow> recovered j"
  by (cases j; simp add: check_recovery_def check_process_recovery_def check_kubernetes_def recovered_def
      all_of_Inr del: all_of.simps)+

text \<open>A percentile that is \<open>null\<close> counts as zero in the comparison and passes the bound.\<close>

lemma null_percentile_passes: "js_le pf (Some JNull) 500" "\<not> js_le pf None 500"
  by (simp_all add: js_le_def)

lemma fault_sound:
  "check_fault (js_optional_get (Some j)) = Inr () \<Longrightarrow> one_effect j"
  "check_fault_v02 (js_optional_get (Some j)) = Inr () \<Longrightarrow> one_effect j"
  by (cases j; auto simp: check_fault_def check_fault_v02_def one_effect_def all_of_Inr
      simp del: all_of.simps dest: assertMachine_named)+

lemma benchmark_sound:
  "check_benchmark pf (js_optional_get (Some j)) = Inr () \<Longrightarrow> fast_schedule pf j"
  "check_benchmark_v02 pf (js_optional_get (Some j)) = Inr () \<Longrightarrow> fast_schedule pf j"
  by (cases j; auto simp: check_benchmark_def check_benchmark_v02_def fast_schedule_def all_of_Inr
      simp del: all_of.simps dest: assertMachine_named)+

lemma spans_evidence_bearer:
  assumes "same_text ''Bearer'' b" and "chars is_space w"
  shows "matches evidence_secret (pre, b @ w @ rest) \<noteq> []"
proof -
  have "spans (seq [lit_i ''Bearer'', Plus (Cls is_space)]) (followed_by (same_text ''Bearer'') (chars is_space))"
    by (intro spans_rules)
  from spansD [OF this, of "(rev (b @ w) @ pre, rest)" pre "b @ w @ rest"] followed_byI [of "same_text ''Bearer''" b "chars is_space" w] assms
  have "(rev (b @ w) @ pre, rest) \<in> set (matches (seq [lit_i ''Bearer'', Plus (Cls is_space)]) (pre, b @ w @ rest))"
    by force
  then show ?thesis
    unfolding evidence_secret_def nonempty_iff in_Alt by blast
qed

lemma evidence_covers_bearer:
  assumes "\<not> regex_test evidence_secret s"
  shows "\<not> regex_test bearer_pattern s"
proof
  assume "regex_test bearer_pattern s"
  then obtain u v x cs where "s = u @ v" "v = x @ cs" "bearer_text x"
    unfolding regex_test_iff bearer_iff by blast
  moreover from this(3) obtain b w c y where "x = b @ w @ c # y" "same_text ''Bearer'' b" "chars is_space w"
    by (rule bearer_parts)
  ultimately have "s = u @ (b @ w @ (c # y @ cs))" "matches evidence_secret (rev u, b @ w @ (c # y @ cs)) \<noteq> []"
    using spans_evidence_bearer by auto
  with assms show False
    unfolding regex_test_iff by blast
qed



text \<open>The reports and an excerpt of the trace log that the repository keeps.\<close>

definition sample_machine :: json where
  "sample_machine = JObj
     [(''os'', JStr ''darwin''), (''arch'', JStr ''arm64''), (''cpus'', JNum 11), (''memoryBytes'', JNum 19327352832),
      (''goVersion'', JStr ''go1.26.6''), (''nodeVersion'', JStr ''v22.23.1''),
      (''dockerVersion'', JStr ''Docker version 29.7.2, build a7dcaa6fdb'')]"

definition sample_fault :: json where
  "sample_fault = JObj
     [(''attempts'', JNum 100000), (''workers'', JNum 100), (''committedEffects'', JNum 1), (''passed'', JBool True),
      (''failureConditions'', JArr [JStr ''concurrent duplicate delivery of one stable effect key'']),
      (''machine'', sample_machine)]"

definition sample_benchmark :: "rat \<Rightarrow> rat \<Rightarrow> json" where
  "sample_benchmark workers p95 = JObj
     [(''residentActiveMockRuns'', JNum 1000), (''backlogRuns'', JNum 10000), (''workerProcesses'', JNum workers),
      (''succeededRuns'', JNum 10000), (''p95Millis'', JNum p95), (''passP95Under500Millis'', JBool True),
      (''machine'', sample_machine), (''failureConditions'', JArr [JStr ''JetStream at-least-once delivery''])]"

definition sample_files :: "string \<Rightarrow> json result" where
  "sample_files path =
     (case map_of
        [(''docs/evidence/effect-fault-report.json'', sample_fault),
         (''docs/evidence/effect-fault-report-v0.2.json'', sample_fault),
         (''docs/evidence/scheduling-benchmark-report.json'', sample_benchmark 4 (2477 / 1000)),
         (''docs/evidence/scheduling-benchmark-report-v0.2.json'', sample_benchmark 2 (2749 / 1000)),
         (''docs/evidence/lease-recovery-report.json'', JObj
            [(''attempts'', JNum 2), (''committedEffects'', JNum 1), (''finalState'', JStr ''succeeded''), (''passed'', JBool True)]),
         (''docs/evidence/process-recovery-report.json'', JObj
            [(''firstWorkerKilled'', JBool True), (''leaseExpired'', JBool True), (''replacementClaimed'', JBool True),
             (''committedEffects'', JNum 0), (''finalState'', JStr ''succeeded''), (''passed'', JBool True)]),
         (''docs/evidence/kubernetes-rolling-recovery-v0.2.json'', JObj
            [(''workerReplicasReady'', JNum 2), (''finalState'', JStr ''succeeded''), (''attemptCount'', JNum 2),
             (''committedEffects'', JNum 1), (''workerRolloutPerformed'', JBool True), (''syntheticOnly'', JBool True),
             (''passed'', JBool True), (''limitations'', JArr [JStr ''mock ticket effect only''])])] path
      of None \<Rightarrow> Inl (Error ''ENOENT'') | Some j \<Rightarrow> Inr j)"

definition sample_trace :: string where
  "sample_trace =
     ''  service.name: durable-agent-runtime-control-plane  url.path: /healthz  url.path: /metrics''"

definition node_platform :: platform where
  "node_platform = \<lparr>pf_typeError = ''Cannot read properties of null'', pf_toText = (\<lambda>_. ''[object Object]''),
     pf_time = (\<lambda>_. ''''), pf_amount = (\<lambda>_. ''''), pf_toNumber = (\<lambda>_. None)\<rparr>"

lemma sample_machine_named [simp]: "assertMachine (Some sample_machine) label = Inr ()"
  by (simp add: assertMachine_def sample_machine_def machine_keys_def all_of_Inr del: all_of.simps)

lemma sample_not_null [simp]: "sample_fault \<noteq> JNull" "sample_benchmark w p \<noteq> JNull"
  by (simp_all add: sample_fault_def sample_benchmark_def)

lemma sample_reports:
  "check_fault (js_optional_get (Some sample_fault)) = Inr ()"
  "check_fault_v02 (js_optional_get (Some sample_fault)) = Inr ()"
  "check_benchmark node_platform (js_optional_get (Some (sample_benchmark 4 (2477 / 1000)))) = Inr ()"
  "check_benchmark_v02 node_platform (js_optional_get (Some (sample_benchmark 2 (2749 / 1000)))) = Inr ()"
  by (simp_all add: check_fault_def check_fault_v02_def check_benchmark_def check_benchmark_v02_def
      sample_fault_def sample_benchmark_def js_le_def all_of_Inr del: all_of.simps)

lemma sample_trace_accepted: "check_trace sample_trace = Inr ()"
  by code_simp

lemma sample_accepted: "validate_evidence node_platform sample_files (Inr sample_trace) = Inr ()"
  unfolding validate_evidence_def all_of_Inr
  using sample_reports sample_trace_accepted
  by (simp add: with_report_def sample_files_def result_bind_def check_recovery_def check_process_recovery_def
      check_kubernetes_def js_ge_def all_of_Inr del: all_of.simps)


end
