(* ===== verification/Threads.thy ===== *)
theory Threads
  imports Effects
begin

text \<open>
  Programs that run beside others on shared state. A program is over, or it does one action on the world,
  which nothing interrupts, and goes on with a program that may depend on what the action saw.
  \<open>run_prog\<close> lets a program run alone; there it agrees with the sequential combinators. A program
  that is never scheduled again models a process that died.

  The locale \<open>rely_guarantee\<close> has the method for invariants of such programs: an invariant of the world, and a
  relation that every action of every program respects and that each may rely on between two
  of its own actions.
\<close>

section \<open>Programs\<close>

datatype ('s, 'a) prog = Done "'a result" | Act "'s world \<Rightarrow> ('s, 'a) prog \<times> 's world"

definition atomic :: "('s, 'a) io \<Rightarrow> ('s, 'a) prog" where
  "atomic m = Act (\<lambda>w. case m w of (r, w') \<Rightarrow> (Done r, w'))"

primrec and_then :: "('s, 'a) prog \<Rightarrow> ('a \<Rightarrow> ('s, 'b) prog) \<Rightarrow> ('s, 'b) prog" where
  "and_then (Done r) f = (case r of Inl err \<Rightarrow> Done (Inl err) | Inr x \<Rightarrow> f x)"
| "and_then (Act g) f = Act (\<lambda>w. map_prod (\<lambda>p. and_then p f) id (g w))"

primrec run_prog :: "('s, 'a) prog \<Rightarrow> ('s, 'a) io" where
  "run_prog (Done r) = (\<lambda>w. (r, w))"
| "run_prog (Act g) = (\<lambda>w. case map_prod run_prog id (g w) of (k, w') \<Rightarrow> k w')"

lemma run_prog_atomic [simp]: "run_prog (atomic m) = m"
  by (auto simp: atomic_def fun_eq_iff split: prod.splits)

lemma run_prog_then [simp]: "run_prog (and_then p f) = io_bind (run_prog p) (\<lambda>x. run_prog (f x))"
proof (induction p)
  case (Done r)
  show ?case by (cases r) (auto simp: io_bind_def fun_eq_iff)
next
  case (Act g)
  show ?case
  proof
    fix w
    obtain p w' where g: "g w = (p, w')" by (rule prod.exhaust)
    have "run_prog (and_then p f) = io_bind (run_prog p) (\<lambda>x. run_prog (f x))"
      by (rule Act [OF rangeI, of p w]) (simp add: g)
    then show "run_prog (and_then (Act g) f) w = io_bind (run_prog (Act g)) (\<lambda>x. run_prog (f x)) w"
      by (simp add: g io_bind_def)
  qed
qed

lemma run_prog_Done: "run_prog (Done (Inr x)) = io_return x" "run_prog (Done (Inl err)) = io_throw err"
  by (simp_all add: io_return_def io_throw_def)

section \<open>Interleaving\<close>

text \<open>One of the programs does its next action.\<close>

inductive interleave :: "('s, 'a) prog list \<times> 's world \<Rightarrow> ('s, 'a) prog list \<times> 's world \<Rightarrow> bool" where
  act: "i < length ts \<Longrightarrow> ts ! i = Act g \<Longrightarrow> g w = (p, w') \<Longrightarrow> interleave (ts, w) (ts[i := p], w')"

inductive_cases interleaveE: "interleave (ts, w) (ts', w')"

text \<open>A program alone is scheduled until it is over.\<close>

lemma run_prog_interleave:
  assumes "run_prog p w = (r, w')"
  shows "interleave\<^sup>*\<^sup>* ([p], w) ([Done r], w')"
  using assms
proof (induction p arbitrary: w)
  case (Act g)
  obtain q w1 where g: "g w = (q, w1)" by (rule prod.exhaust)
  have "interleave ([Act g], w) ([q], w1)"
    using interleave.act [of 0 "[Act g]" g w q w1] g by simp
  moreover have "interleave\<^sup>*\<^sup>* ([q], w1) ([Done r], w')"
    by (rule Act.IH [OF rangeI, of q w]) (use Act.prems g in simp_all)
  ultimately show ?case by (rule converse_rtranclp_into_rtranclp)
qed simp

section \<open>Invariants by rely and guarantee\<close>

locale rely_guarantee =
  fixes inv :: "'s world \<Rightarrow> bool"
    and rely :: "'s world \<Rightarrow> 's world \<Rightarrow> bool"
  assumes rely_refl: "rely w w"
    and rely_trans: "rely w w1 \<Longrightarrow> rely w1 w2 \<Longrightarrow> rely w w2"
begin

text \<open>From the world \<open>w\<close> on, every action of the program keeps the invariant and respects the relation.\<close>

inductive meets :: "('a \<Rightarrow> 's world \<Rightarrow> bool) \<Rightarrow> ('s, 'a) prog \<Rightarrow> 's world \<Rightarrow> bool" for Q where
  failed: "meets Q (Done (Inl err)) w"
| returned: "Q x w \<Longrightarrow> meets Q (Done (Inr x)) w"
| action: "(\<And>w'. rely w w' \<Longrightarrow> inv w' \<Longrightarrow>
      inv (snd (g w')) \<and> rely w' (snd (g w')) \<and> meets Q (fst (g w')) (snd (g w'))) \<Longrightarrow> meets Q (Act g) w"

inductive_cases meets_ActE: "meets Q (Act g) w"
inductive_cases meets_returnedE: "meets Q (Done (Inr x)) w"

lemma meets_atomic:
  assumes "\<And>w' r w''. rely w w' \<Longrightarrow> inv w' \<Longrightarrow> m w' = (r, w'') \<Longrightarrow>
    inv w'' \<and> rely w' w'' \<and> (\<forall>x. r = Inr x \<longrightarrow> Q x w'')"
  shows "meets Q (atomic m) w"
  unfolding atomic_def
proof (rule action, goal_cases)
  case (1 w')
  obtain r w'' where m: "m w' = (r, w'')" by (rule prod.exhaust)
  with assms [OF 1 m] show ?case
    by (cases r) (auto intro: failed returned)
qed

lemma meets_then:
  assumes "meets Q p w" and "\<And>x w'. Q x w' \<Longrightarrow> meets R (f x) w'"
  shows "meets R (and_then p f) w"
  using assms(1)
proof (induction rule: meets.induct)
  case (failed err w)
  then show ?case by (auto intro: meets.failed)
next
  case (returned x w)
  then show ?case using assms(2) by simp
next
  case (action w g)
  show ?case
    unfolding and_then.simps by (rule meets.action) (use action in \<open>auto split: prod.splits\<close>)
qed

lemma meets_weaken: "meets Q p w \<Longrightarrow> (\<And>x w'. Q x w' \<Longrightarrow> R x w') \<Longrightarrow> meets R p w"
proof (induction rule: meets.induct)
  case (action w g)
  show ?case by (rule meets.action) (use action in blast)
qed (auto intro: meets.failed meets.returned)

text \<open>A program that meets its condition does so when it runs alone.\<close>

lemma meets_run:
  assumes "meets Q p w" and "inv w" and "run_prog p w = (r, w')"
  shows "inv w' \<and> rely w w' \<and> (\<forall>x. r = Inr x \<longrightarrow> Q x w')"
  using assms
proof (induction p arbitrary: w)
  case (Done y)
  then show ?case by (auto simp: rely_refl elim: meets_returnedE)
next
  case (Act g)
  obtain q w1 where g: "g w = (q, w1)" by (rule prod.exhaust)
  from Act.prems(1) have "inv (snd (g w)) \<and> rely w (snd (g w)) \<and> meets Q (fst (g w)) (snd (g w))"
    by (rule meets_ActE) (use rely_refl Act.prems(2) in blast)
  then have first: "inv w1" "rely w w1" "meets Q q w1"
    by (simp_all add: g)
  have "inv w' \<and> rely w1 w' \<and> (\<forall>x. r = Inr x \<longrightarrow> Q x w')"
    by (rule Act.IH [OF rangeI, of q w]) (use Act.prems(3) g first in simp_all)
  with first(2) rely_trans show ?case by blast
qed

lemma meets_stable:
  assumes "meets Q (Act g) w" and "rely w w'"
  shows "meets Q (Act g) w'"
  using assms(1) by (rule meets_ActE) (rule action, use assms(2) rely_trans in blast)

text \<open>What is asked of a program that waits for its turn; of one that is over, nothing.\<close>

definition fine :: "('s, 'a) prog \<Rightarrow> 's world \<Rightarrow> bool" where
  "fine p w \<longleftrightarrow> meets (\<lambda>_ _. True) p w"

lemma fine_Done: "fine (Done r) w"
  unfolding fine_def by (cases r) (auto intro: failed returned)

lemma fine_stable: "fine p w \<Longrightarrow> rely w w' \<Longrightarrow> fine p w'"
  by (cases p) (auto simp: fine_Done, auto simp: fine_def intro: meets_stable)

lemma fine_act: "fine (Act g) w \<Longrightarrow> inv w \<Longrightarrow> g w = (p, w') \<Longrightarrow> inv w' \<and> rely w w' \<and> fine p w'"
  unfolding fine_def by (erule meets_ActE) (use rely_refl in \<open>metis fst_conv snd_conv\<close>)

lemma interleave_keeps:
  assumes "interleave (ts, w) (ts', w')" and "inv w" and "\<forall>p \<in> set ts. fine p w"
  shows "inv w' \<and> rely w w' \<and> (\<forall>p \<in> set ts'. fine p w')"
  using assms(1)
proof (rule interleaveE)
  fix i g p
  assume step: "ts' = ts[i := p]" "i < length ts" "ts ! i = Act g" "g w = (p, w')"
  then have "Act g \<in> set ts" by (metis nth_mem)
  with fine_act [of g w p w'] assms(2,3) step(4) have new: "inv w'" "rely w w'" "fine p w'"
    by blast+
  moreover have "fine q w'" if "q \<in> set ts'" for q
    using that set_update_subset_insert [of ts i p] step(1) assms(3) new fine_stable by blast
  ultimately show ?thesis by blast
qed

end

end
