(* ===== verification/Worker.thy ===== *)
theory Worker
  imports Threads OutboxPublisher JsRegex
begin

text \<open>
  The worker (\<open>services/worker/main.go\<close>), the process that takes runs from the stream and executes their
  steps. It works on the database of \<open>Database\<close> with two more tables: the ledger of committed
  effects and the results of steps. Every call of the pool is one action, committed on its own;
  the claim of a run is one transaction. Between two actions anything else may happen to the
  database, and a worker may die, so the handlers are programs in the sense of \<open>Threads\<close>.

  The environment variables, the HTTP client, the parser of addresses, of media types and of JSON texts are
  arguments. \<open>wk_calls\<close> records the HTTP requests made and has no counterpart in the code. A decoded
  structure has the zero value where the text has no member; members are found by name without
  regard to case. Spans and the histogram of the queue delay are left out, and so is the column
  \<open>terminal_evidence\<close>, which nothing reads.
\<close>

section \<open>Tables, counters and the world of a worker\<close>

record effect_row =
  ef_tenant_id :: uuid
  ef_run_id :: uuid
  ef_step_index :: nat
  ef_effect_key :: string
  ef_committed_at :: timestamp

record step_result_row =
  sr_tenant_id :: uuid
  sr_run_id :: uuid
  sr_step_index :: nat
  sr_result_kind :: string
  sr_status :: string
  sr_output_ref :: string
  sr_label :: string
  sr_created_at :: timestamp

record worker_tables =
  wt_db :: db
  wt_effects :: "effect_row list"
  wt_results :: "step_result_row list"

record worker_metrics =
  wm_leaseRecoveries :: nat
  wm_effectReplays :: nat
  wm_runTerminals :: "run_state \<Rightarrow> nat"
  wm_workerFailures :: "string \<Rightarrow> nat"

record go_request =
  gq_method :: string
  gq_url :: string
  gq_headers :: "(string \<times> string) list"
  gq_body :: "json option"

text \<open>\<open>gr_broken\<close>: reading the body past \<open>gr_body\<close> fails instead of ending.\<close>

record go_response =
  gr_status :: nat
  gr_contentLength :: int
  gr_contentType :: string
  gr_body :: string
  gr_broken :: bool

record go_url =
  gu_scheme :: string
  gu_hostname :: string

record 'x worker =
  wk_tables :: worker_tables
  wk_metrics :: worker_metrics
  wk_calls :: "go_request list"
  wk_outside :: 'x

text \<open>
  \<open>wc_getenv\<close> is empty for a variable that is not set. \<open>wc_do\<close> is the HTTP client on the world outside, with no
  answer for an error. \<open>wc_unmarshal\<close> reads a whole text as JSON, \<open>wc_decode\<close> the first value of a text.
\<close>

record 'x worker_config =
  wc_getenv :: "string \<Rightarrow> string"
  wc_do :: "go_request \<Rightarrow> 'x \<Rightarrow> go_response option \<times> 'x"
  wc_parseURL :: "string \<Rightarrow> go_url option"
  wc_mediaType :: "string \<Rightarrow> string option"
  wc_unmarshal :: "string \<Rightarrow> json option"
  wc_decode :: "string \<Rightarrow> json option"

section \<open>Decoding\<close>

definition equal_fold :: "string \<Rightarrow> string \<Rightarrow> bool" where
  "equal_fold a b \<longleftrightarrow> map to_lower a = map to_lower b"

definition go_space :: "char \<Rightarrow> bool" where
  "go_space c \<longleftrightarrow> 9 \<le> code c \<and> code c \<le> 13 \<or> code c \<in> {32, 133, 160}"

definition trim_suffix :: "string \<Rightarrow> string" where
  "trim_suffix s = (if s \<noteq> [] \<and> last s = CHR ''/'' then butlast s else s)"

fun string_member :: "string \<Rightarrow> string \<Rightarrow> (string \<times> json) list \<Rightarrow> string option" where
  "string_member so_far name [] = Some so_far"
| "string_member so_far name ((k, v) # ms) =
     (if equal_fold k name
      then (case v of JStr s \<Rightarrow> string_member s name ms | JNull \<Rightarrow> string_member so_far name ms | _ \<Rightarrow> None)
      else string_member so_far name ms)"

fun list_member :: "(json \<Rightarrow> 'a option) \<Rightarrow> 'a list \<Rightarrow> string \<Rightarrow> (string \<times> json) list \<Rightarrow> 'a list option" where
  "list_member f so_far name [] = Some so_far"
| "list_member f so_far name ((k, v) # ms) =
     (if equal_fold k name
      then (case v of
              JArr js \<Rightarrow> (case those (map f js) of None \<Rightarrow> None | Some xs \<Rightarrow> list_member f xs name ms)
            | JNull \<Rightarrow> list_member f [] name ms
            | _ \<Rightarrow> None)
      else list_member f so_far name ms)"

text \<open>A structure is read from an object; \<open>null\<close> leaves its zero value.\<close>

fun members :: "json \<Rightarrow> (string \<times> json) list option" where
  "members (JObj ms) = Some ms"
| "members JNull = Some []"
| "members j = None"

fun go_string :: "json \<Rightarrow> string option" where
  "go_string (JStr s) = Some s"
| "go_string JNull = Some []"
| "go_string j = None"

record go_definition =
  gd_schemaVersion :: string
  gd_allowedHosts :: "string list"
  gd_steps :: "json list"

definition decode_definition :: "json \<Rightarrow> go_definition option" where
  "decode_definition j =
     Option.bind (members j) (\<lambda>ms.
     Option.bind (string_member [] ''schemaVersion'' ms) (\<lambda>version.
     Option.bind (list_member go_string [] ''allowedHosts'' ms) (\<lambda>hosts.
     Option.bind (list_member Some [] ''steps'' ms) (\<lambda>steps.
     Some \<lparr>gd_schemaVersion = version, gd_allowedHosts = hosts, gd_steps = steps\<rparr>))))"

record go_step =
  gs_kind :: string
  gs_provider :: string
  gs_promptTemplate :: string
  gs_operation :: string
  gs_tool :: string

definition decode_step :: "json \<Rightarrow> go_step option" where
  "decode_step j =
     Option.bind (members j) (\<lambda>ms.
     Option.bind (string_member [] ''kind'' ms) (\<lambda>kind.
     Option.bind (string_member [] ''provider'' ms) (\<lambda>provider.
     Option.bind (string_member [] ''promptTemplate'' ms) (\<lambda>prompt.
     Option.bind (string_member [] ''operation'' ms) (\<lambda>operation.
     Option.bind (string_member [] ''tool'' ms) (\<lambda>tool.
     Some \<lparr>gs_kind = kind, gs_provider = provider, gs_promptTemplate = prompt, gs_operation = operation,
           gs_tool = tool\<rparr>))))))"

definition decode_queued :: "'x worker_config \<Rightarrow> string \<Rightarrow> string option" where
  "decode_queued cfg data =
     Option.bind (wc_unmarshal cfg data) (\<lambda>j. Option.bind (members j) (string_member [] ''runId''))"

definition isUUID :: "string \<Rightarrow> bool" where
  "isUUID s \<longleftrightarrow> length s = 36 \<and>
     list_all (\<lambda>(i, c). if i \<in> {8, 13, 18, 23} then c = CHR ''-''
       else 48 \<le> code c \<and> code c \<le> 57 \<or> 97 \<le> code c \<and> code c \<le> 102 \<or> 65 \<le> code c \<and> code c \<le> 70)
     (List.enumerate 0 s)"

definition supportedWorkflowSchema :: "string \<Rightarrow> bool" where
  "supportedWorkflowSchema version \<longleftrightarrow> version = [] \<or> version = ''1''"

definition validateURL :: "'x worker_config \<Rightarrow> string \<Rightarrow> string list \<Rightarrow> bool" where
  "validateURL cfg raw hosts \<longleftrightarrow>
     (case wc_parseURL cfg raw of
        None \<Rightarrow> False
      | Some u \<Rightarrow> gu_scheme u = ''https'' \<and> gu_hostname u \<noteq> [] \<and> list_ex (equal_fold (gu_hostname u)) hosts)"

definition read_limited :: "nat \<Rightarrow> go_response \<Rightarrow> string option" where
  "read_limited n r =
     (if n \<le> length (gr_body r) then Some (take n (gr_body r))
      else if gr_broken r then None else Some (gr_body r))"


section \<open>Statements\<close>

type_synonym 'a table_statement = "env \<Rightarrow> timestamp \<Rightarrow> worker_tables \<Rightarrow> db_error + 'a \<times> worker_tables"

text \<open>
  A statement on the tables of the control plane, with the rights it needs. The two tables of the
  worker are granted to its role with every right the statements on them need.
\<close>

definition worker_session :: "timestamp \<Rightarrow> db \<Rightarrow> session" where
  "worker_session now d = \<lparr>se_db = d, se_role = DarWorker, se_tenant = None, se_now = now\<rparr>"

definition on_db :: "(sql_right \<times> sql_table) list \<Rightarrow> 'a statement \<Rightarrow> 'a table_statement" where
  "on_db rights q e now t =
     (if list_all (granted DarWorker) rights
      then (case q e (worker_session now (wt_db t)) of
              Inl err \<Rightarrow> Inl err
            | Inr (x, d) \<Rightarrow> Inr (x, t\<lparr>wt_db := d\<rparr>))
      else Inl (PermissionDenied ''permission denied''))"

definition perform :: "'a table_statement \<Rightarrow> ('x worker, 'a) io" where
  "perform q = io_bind next_clock (\<lambda>now. (\<lambda>(e, s).
     case q e now (wk_tables s) of
       Inl err \<Rightarrow> (Inl (Error (db_message e err)), (e, s))
     | Inr (x, t) \<Rightarrow> (Inr x, (e, s\<lparr>wk_tables := t\<rparr>))))"

definition pool_exec :: "'a table_statement \<Rightarrow> ('x worker, 'a) io" where
  "pool_exec q = io_bind next_fate (\<lambda>fate.
     case fate of
       Performed \<Rightarrow> perform q
     | NotPerformed text \<Rightarrow> io_throw (Error text)
     | PerformedButLost text \<Rightarrow> io_bind (perform q) (\<lambda>_. io_throw (Error text)))"

definition set_run :: "string \<Rightarrow> (timestamp \<Rightarrow> run_row \<Rightarrow> run_row) \<Rightarrow> unit statement" where
  "set_run runId f e s = as_uuid e runId (\<lambda>i.
     Inr ((), update_runs (\<lambda>r. rw_id r = i) (f (se_now s)) (se_db s)))"

definition select_claim :: "string \<Rightarrow> (run_row \<times> workflow_row) list statement" where
  "select_claim runId e s = as_uuid e runId (\<lambda>i.
     Inr ([(r, w). r \<leftarrow> db_runs (se_db s), rw_id r = i \<and> claimable (se_now s) r,
                   w \<leftarrow> db_workflows (se_db s), wr_id w = rw_workflow_id r], se_db s))"

definition take_run :: "string \<Rightarrow> timestamp \<Rightarrow> run_row \<Rightarrow> run_row" where
  "take_run workerId now r = r\<lparr>rw_state := Running, rw_lease_owner := Some workerId,
     rw_lease_expires_at := Some (now + 30000), rw_attempt_count := Suc (rw_attempt_count r), rw_updated_at := now\<rparr>"

definition insert_started :: "string \<Rightarrow> string \<Rightarrow> unit statement" where
  "insert_started tenant runId e s =
     (case insert_event tenant runId Ev_leased ''Worker lease acquired'' None e s of
        Inl err \<Rightarrow> Inl err
      | Inr (_, d) \<Rightarrow> insert_event tenant runId Ev_started ''Worker execution started'' None e (s\<lparr>se_db := d\<rparr>))"

definition advance_run :: "nat \<Rightarrow> timestamp \<Rightarrow> run_row \<Rightarrow> run_row" where
  "advance_run index now r =
     r\<lparr>rw_current_step := index + 1, rw_lease_expires_at := Some (now + 30000), rw_updated_at := now\<rparr>"

definition complete_run :: "timestamp \<Rightarrow> run_row \<Rightarrow> run_row" where
  "complete_run now r = r\<lparr>rw_state := Succeeded, rw_lease_owner := None, rw_lease_expires_at := None\<rparr>"

definition park_run :: "nat \<Rightarrow> timestamp \<Rightarrow> run_row \<Rightarrow> run_row" where
  "park_run index now r =
     r\<lparr>rw_state := Awaiting_approval, rw_lease_owner := None, rw_lease_expires_at := None, rw_current_step := index\<rparr>"

definition end_run :: "run_state \<Rightarrow> string \<Rightarrow> timestamp \<Rightarrow> run_row \<Rightarrow> run_row" where
  "end_run state errorCode now r =
     r\<lparr>rw_state := state, rw_lease_owner := None, rw_lease_expires_at := None, rw_last_error_code := Some errorCode\<rparr>"

definition insert_effect :: "string \<Rightarrow> string \<Rightarrow> nat \<Rightarrow> string \<Rightarrow> nat table_statement" where
  "insert_effect tenant runId index key e now t =
     as_uuid e tenant (\<lambda>u. as_uuid e runId (\<lambda>i.
       if (u, key) \<in> set (map (\<lambda>x. (ef_tenant_id x, ef_effect_key x)) (wt_effects t)) then Inr (0, t)
       else
         ensure (tenant_exists (wt_db t) u) (ForeignKeyViolation ''effect_commits_tenant_id_fkey'')
         (ensure (i \<in> set (map rw_id (db_runs (wt_db t)))) (ForeignKeyViolation ''effect_commits_run_id_fkey'')
           (Inr (1, t\<lparr>wt_effects := wt_effects t @
              [\<lparr>ef_tenant_id = u, ef_run_id = i, ef_step_index = index, ef_effect_key = key,
                ef_committed_at = now\<rparr>]\<rparr>)))))"

definition insert_result :: "string \<Rightarrow> string \<Rightarrow> nat \<Rightarrow> string \<Rightarrow> string \<Rightarrow> string \<Rightarrow> unit table_statement" where
  "insert_result tenant runId index kind status label e now t =
     as_uuid e tenant (\<lambda>u. as_uuid e runId (\<lambda>i.
       if (u, i, index) \<in> set (map (\<lambda>x. (sr_tenant_id x, sr_run_id x, sr_step_index x)) (wt_results t))
       then Inr ((), t)
       else
         ensure (tenant_exists (wt_db t) u) (ForeignKeyViolation ''run_step_results_tenant_id_fkey'')
         (ensure (i \<in> set (map rw_id (db_runs (wt_db t)))) (ForeignKeyViolation ''run_step_results_run_id_fkey'')
           (Inr ((), t\<lparr>wt_results := wt_results t @
              [\<lparr>sr_tenant_id = u, sr_run_id = i, sr_step_index = index, sr_result_kind = kind, sr_status = status,
                sr_output_ref = sha256_hex e (runId @ '':'' @ show_nat index @ '':'' @ label),
                sr_label = label, sr_created_at = now\<rparr>]\<rparr>)))))"

section \<open>The claim of a run\<close>

record leased_run =
  lr_id :: string
  lr_tenantId :: string
  lr_currentStep :: nat
  lr_input :: "(string \<times> json) list"
  lr_definition :: go_definition
  lr_credentialHandle :: "string option"

definition claim_row ::
  "string \<Rightarrow> string \<Rightarrow> run_row \<Rightarrow> workflow_row \<Rightarrow> (session, (run_row \<times> go_definition) option) io" where
  "claim_row runId workerId row workflow =
     io_bind (query [(Update, T_runs), (Select, T_runs)] (set_run runId (take_run workerId))) (\<lambda>_.
     io_bind (query [(Insert, T_events)] (insert_started (rw_tenant_id row) runId)) (\<lambda>_.
     case decode_definition (wr_definition workflow) of
       None \<Rightarrow> io_throw (Error ''json: cannot unmarshal'')
     | Some definition \<Rightarrow> io_return (Some (row, definition))))"

definition claim_body :: "string \<Rightarrow> string \<Rightarrow> (session, (run_row \<times> go_definition) option) io" where
  "claim_body runId workerId =
     io_bind (query [(Select, T_runs), (Select, T_workflows), (Update, T_runs)] (select_claim runId)) (\<lambda>rows.
     case rows of
       [] \<Rightarrow> io_return None
     | (row, workflow) # _ \<Rightarrow> claim_row runId workerId row workflow)"

text \<open>
  The transaction: \<open>Begin\<close>, the body, \<open>Commit\<close>. The deferred \<open>Rollback\<close> runs when the body left early; its own
  error is dropped, and after a commit it does nothing.
\<close>

definition deferred_rollback :: "('s, unit) io" where
  "deferred_rollback = io_catch roundtrip (\<lambda>_. io_return ())"

definition go_commit :: "'a \<Rightarrow> db \<Rightarrow> (pg, 'a) io" where
  "go_commit x d = io_bind next_fate (\<lambda>fate.
     case fate of
       Performed \<Rightarrow> io_bind (io_modify (\<lambda>p. p\<lparr>pg_db := d\<rparr>)) (\<lambda>_. io_return x)
     | NotPerformed text \<Rightarrow> io_throw (Error text)
     | PerformedButLost text \<Rightarrow> io_bind (io_modify (\<lambda>p. p\<lparr>pg_db := d\<rparr>)) (\<lambda>_. io_throw (Error text)))"

definition go_transaction :: "(session, 'a option) io \<Rightarrow> (pg, 'a option) io" where
  "go_transaction body = (\<lambda>(e, p).
     case io_bind begin_transaction (\<lambda>_. body) (e, open_session p) of
       (Inl err, (e', s)) \<Rightarrow> io_bind deferred_rollback (\<lambda>_. io_throw err) (e', p)
     | (Inr None, (e', s)) \<Rightarrow> io_bind deferred_rollback (\<lambda>_. io_return None) (e', p)
     | (Inr (Some x), (e', s)) \<Rightarrow> go_commit (Some x) (se_db s) (e', p))"

definition in_db :: "(pg, 'a) io \<Rightarrow> ('x worker, 'a) io" where
  "in_db = io_zoom (\<lambda>s. \<lparr>pg_role = DarWorker, pg_db = wt_db (wk_tables s)\<rparr>)
     (\<lambda>p s. s\<lparr>wk_tables := (wk_tables s)\<lparr>wt_db := pg_db p\<rparr>\<rparr>)"

definition count_worker :: "(worker_metrics \<Rightarrow> worker_metrics) \<Rightarrow> ('x worker, unit) io" where
  "count_worker f = io_modify (\<lambda>s. s\<lparr>wk_metrics := f (wk_metrics s)\<rparr>)"

definition claim :: "string \<Rightarrow> string \<Rightarrow> ('x worker, leased_run option) io" where
  "claim runId workerId =
     io_bind (in_db (go_transaction (claim_body runId workerId))) (\<lambda>claimed.
     case claimed of
       None \<Rightarrow> io_return None
     | Some (row, definition) \<Rightarrow>
         io_bind (if rw_state row \<noteq> Queued
                  then count_worker (\<lambda>m. m\<lparr>wm_leaseRecoveries := Suc (wm_leaseRecoveries m)\<rparr>)
                  else io_return ()) (\<lambda>_.
         io_return (Some \<lparr>lr_id = runId, lr_tenantId = rw_tenant_id row, lr_currentStep = rw_current_step row,
           lr_input = rw_input row, lr_definition = definition,
           lr_credentialHandle = rw_provider_credential_handle row\<rparr>)))"

section \<open>The execution of steps\<close>

definition exec_db :: "(sql_right \<times> sql_table) list \<Rightarrow> 'a statement \<Rightarrow> ('x worker, 'a) prog" where
  "exec_db rights q = atomic (pool_exec (on_db rights q))"

definition recordStep :: "leased_run \<Rightarrow> nat \<Rightarrow> string \<Rightarrow> string \<Rightarrow> string \<Rightarrow> ('x worker, unit) prog" where
  "recordStep run index kind status label =
     atomic (pool_exec (insert_result (lr_tenantId run) (lr_id run) index kind status label))"

definition add_event :: "leased_run \<Rightarrow> event_type \<Rightarrow> string \<Rightarrow> ('x worker, unit) prog" where
  "add_event run type detail =
     exec_db [(Insert, T_events)] (insert_event (lr_tenantId run) (lr_id run) type detail None)"

definition update_run :: "leased_run \<Rightarrow> (timestamp \<Rightarrow> run_row \<Rightarrow> run_row) \<Rightarrow> ('x worker, unit) prog" where
  "update_run run f = exec_db [(Update, T_runs), (Select, T_runs)] (set_run (lr_id run) f)"

definition count_terminal :: "run_state \<Rightarrow> ('x worker, unit) prog" where
  "count_terminal st = atomic (count_worker (\<lambda>m. m\<lparr>wm_runTerminals := (wm_runTerminals m)(st := Suc (wm_runTerminals m st))\<rparr>))"

definition awaitApproval :: "leased_run \<Rightarrow> nat \<Rightarrow> ('x worker, unit) prog" where
  "awaitApproval run index =
     and_then (recordStep run index ''approval'' ''awaiting_approval'' ''approval-required'') (\<lambda>_.
     and_then (update_run run (park_run index)) (\<lambda>_.
     add_event run Ev_approval_requested ''Configured side effect requires approval''))"

text \<open>\<open>fail\<close> and \<open>uncertain\<close> differ in the state, the event and the label of the counter.\<close>

definition end_with :: "run_state \<Rightarrow> event_type \<Rightarrow> leased_run \<Rightarrow> string \<Rightarrow> ('x worker, unit) prog" where
  "end_with st type run errorCode =
     and_then (atomic (count_worker (\<lambda>m. m\<lparr>wm_workerFailures :=
       (wm_workerFailures m)(errorCode := Suc (wm_workerFailures m errorCode))\<rparr>))) (\<lambda>_.
     and_then (update_run run (end_run st errorCode)) (\<lambda>_.
     and_then (add_event run type errorCode) (\<lambda>_.
     count_terminal st)))"

definition fail :: "leased_run \<Rightarrow> string \<Rightarrow> ('x worker, unit) prog" where
  "fail = end_with Failed Ev_failed"

definition uncertain :: "leased_run \<Rightarrow> string \<Rightarrow> ('x worker, unit) prog" where
  "uncertain = end_with Uncertain Ev_uncertain"


subsection \<open>HTTP\<close>

definition http_do :: "'x worker_config \<Rightarrow> go_request \<Rightarrow> ('x worker, go_response option) prog" where
  "http_do cfg rq = atomic (\<lambda>(e, s).
     case wc_do cfg rq (wk_outside s) of
       (response, x) \<Rightarrow> (Inr response, (e, s\<lparr>wk_calls := wk_calls s @ [rq], wk_outside := x\<rparr>)))"

fun message_content :: "string \<Rightarrow> (string \<times> json) list \<Rightarrow> string option" where
  "message_content so_far [] = Some so_far"
| "message_content so_far ((k, v) # ms) =
     (if equal_fold k ''message''
      then Option.bind (members v) (\<lambda>inner.
           Option.bind (string_member so_far ''content'' inner) (\<lambda>content. message_content content ms))
      else message_content so_far ms)"

definition validateProviderResponse :: "'x worker_config \<Rightarrow> go_response \<Rightarrow> bool" where
  "validateProviderResponse cfg response \<longleftrightarrow>
     (case read_limited 1000001 response of
        None \<Rightarrow> False
      | Some body \<Rightarrow>
          length body \<le> 1000000 \<and>
          (case Option.bind (wc_unmarshal cfg body) (\<lambda>j. Option.bind (members j)
                  (list_member (\<lambda>c. Option.bind (members c) (message_content [])) [] ''choices'')) of
             Some (content # _) \<Rightarrow> \<not> list_all go_space content
           | _ \<Rightarrow> False))"

definition provider_allowed :: "'x worker_config \<Rightarrow> string \<Rightarrow> bool" where
  "provider_allowed cfg baseURL \<longleftrightarrow>
     (case wc_parseURL cfg baseURL of
        None \<Rightarrow> False
      | Some u \<Rightarrow> gu_scheme u = ''https'' \<or>
          gu_scheme u = ''http'' \<and> (gu_hostname u = ''127.0.0.1'' \<or> gu_hostname u = ''localhost''))"

definition provider_request :: "string \<Rightarrow> string \<Rightarrow> string \<Rightarrow> string \<Rightarrow> go_request" where
  "provider_request baseURL model credential prompt =
     \<lparr>gq_method = ''POST'', gq_url = trim_suffix baseURL @ ''/v1/chat/completions'',
      gq_headers = [(''Authorization'', ''Bearer '' @ credential), (''Content-Type'', ''application/json'')],
      gq_body = Some (JObj [(''messages'', JArr [JObj [(''content'', JStr prompt), (''role'', JStr ''user'')]]),
        (''model'', JStr model)])\<rparr>"

text \<open>Whether the provider answered as expected.\<close>

definition callOpenAICompatible ::
  "'x worker_config \<Rightarrow> string \<Rightarrow> string \<Rightarrow> string \<Rightarrow> string \<Rightarrow> ('x worker, bool) prog" where
  "callOpenAICompatible cfg baseURL model credential prompt =
     (if \<not> provider_allowed cfg baseURL then Done (Inr False)
      else
        and_then (http_do cfg (provider_request baseURL model credential prompt)) (\<lambda>response.
        case response of
          None \<Rightarrow> Done (Inr False)
        | Some r \<Rightarrow> Done (Inr (gr_status r < 400 \<and> validateProviderResponse cfg r))))"

definition consume_request :: "'x worker_config \<Rightarrow> string \<Rightarrow> go_request" where
  "consume_request cfg handle =
     \<lparr>gq_method = ''POST'',
      gq_url = trim_suffix (wc_getenv cfg ''DAR_CONTROL_PLANE_INTERNAL_URL'') @ ''/internal/credentials/'' @ handle @
        ''/consume'',
      gq_headers = [(''x-runtime-internal-token'', wc_getenv cfg ''DAR_INTERNAL_TOKEN'')], gq_body = None\<rparr>"

definition credential_of :: "'x worker_config \<Rightarrow> go_response \<Rightarrow> string" where
  "credential_of cfg r =
     (case Option.bind (wc_decode cfg (take 2048 (gr_body r))) (\<lambda>j. Option.bind (members j)
            (string_member [] ''credential'')) of
        None \<Rightarrow> [] | Some c \<Rightarrow> c)"

definition executeProviderModel :: "'x worker_config \<Rightarrow> leased_run \<Rightarrow> nat \<Rightarrow> go_step \<Rightarrow> ('x worker, unit) prog" where
  "executeProviderModel cfg run index current =
     (case lr_credentialHandle run of
        None \<Rightarrow> uncertain run ''provider_credential_unavailable''
      | Some handle \<Rightarrow>
          if wc_getenv cfg ''DAR_CONTROL_PLANE_INTERNAL_URL'' = [] \<or> wc_getenv cfg ''DAR_INTERNAL_TOKEN'' = [] \<or>
             wc_parseURL cfg (gq_url (consume_request cfg handle)) = None
          then uncertain run ''provider_credential_unavailable''
          else
            and_then (http_do cfg (consume_request cfg handle)) (\<lambda>response.
            case response of
              None \<Rightarrow> uncertain run ''provider_credential_unavailable''
            | Some r \<Rightarrow>
                if gr_status r \<noteq> 200 \<or> credential_of cfg r = []
                then uncertain run ''provider_credential_unavailable''
                else if wc_getenv cfg ''OPENAI_COMPATIBLE_BASE_URL'' = [] \<or> wc_getenv cfg ''OPENAI_COMPATIBLE_MODEL'' = []
                then uncertain run ''provider_not_configured''
                else
                  and_then (callOpenAICompatible cfg (wc_getenv cfg ''OPENAI_COMPATIBLE_BASE_URL'')
                    (wc_getenv cfg ''OPENAI_COMPATIBLE_MODEL'') (credential_of cfg r) (gs_promptTemplate current)) (\<lambda>answered.
                  if answered then recordStep run index ''model'' ''succeeded'' ''openai-compatible-model''
                  else uncertain run ''provider_model_unavailable'')))"

subsection \<open>Tools\<close>

definition effect_key :: "string \<Rightarrow> nat \<Rightarrow> string" where
  "effect_key runId index = runId @ '':'' @ show_nat index @ '':mock-ticket''"

definition fetch_target :: "leased_run \<Rightarrow> string" where
  "fetch_target run = (case map_of (lr_input run) ''url'' of Some (JStr s) \<Rightarrow> s | _ \<Rightarrow> [])"

definition fetch_request :: "string \<Rightarrow> go_request" where
  "fetch_request target = \<lparr>gq_method = ''GET'', gq_url = target, gq_headers = [], gq_body = None\<rparr>"

definition judge_fetched :: "'x worker_config \<Rightarrow> leased_run \<Rightarrow> nat \<Rightarrow> go_response \<Rightarrow> ('x worker, unit) prog" where
  "judge_fetched cfg run index r =
     (if 1000000 < gr_contentLength r then fail run ''http_response_too_large''
      else if wc_mediaType cfg (gr_contentType r) \<notin> {Some ''application/json'', Some ''text/plain''}
      then fail run ''http_content_type_not_allowed''
      else
        (case read_limited 1000001 r of
           None \<Rightarrow> fail run ''http_fetch_failed''
         | Some body \<Rightarrow>
             if 1000000 < length body then fail run ''http_response_too_large''
             else recordStep run index ''tool'' ''succeeded'' ''allowlisted-http-fetch''))"

definition executeTool :: "'x worker_config \<Rightarrow> leased_run \<Rightarrow> nat \<Rightarrow> go_step \<Rightarrow> ('x worker, unit) prog" where
  "executeTool cfg run index current =
     (if gs_tool current = ''mock_data_read'' then recordStep run index ''tool'' ''succeeded'' ''mock-data-read''
      else if gs_tool current = ''mock_ticket_write'' then
        and_then (atomic (pool_exec
          (insert_effect (lr_tenantId run) (lr_id run) index (effect_key (lr_id run) index)))) (\<lambda>rows.
        if rows = 0 then
          and_then (atomic (count_worker (\<lambda>m. m\<lparr>wm_effectReplays := Suc (wm_effectReplays m)\<rparr>))) (\<lambda>_.
          recordStep run index ''tool'' ''succeeded'' ''mock-ticket-replayed'')
        else recordStep run index ''tool'' ''succeeded'' ''mock-ticket-committed'')
      else if gs_tool current = ''allowlisted_http_fetch'' then
        (if \<not> validateURL cfg (fetch_target run) (gd_allowedHosts (lr_definition run))
         then fail run ''http_url_not_allowed''
         else
           and_then (http_do cfg (fetch_request (fetch_target run))) (\<lambda>response.
           case response of
             None \<Rightarrow> fail run ''http_fetch_failed''
           | Some r \<Rightarrow> if 400 \<le> gr_status r then fail run ''http_fetch_failed'' else judge_fetched cfg run index r))
      else fail run ''tool_not_registered'')"

subsection \<open>The run\<close>

definition execute_step :: "'x worker_config \<Rightarrow> leased_run \<Rightarrow> nat \<Rightarrow> go_step \<Rightarrow> ('x worker, unit) prog" where
  "execute_step cfg run index current =
     (if gs_kind current = ''model'' then
        (if gs_provider current = ''mock'' then recordStep run index ''model'' ''succeeded'' ''mock-model''
         else if gs_provider current \<noteq> ''openai_compatible'' then fail run ''provider_not_configured''
         else executeProviderModel cfg run index current)
      else if gs_kind current = ''transform'' then
        (if gs_operation current \<noteq> ''extract_json'' \<and> gs_operation current \<noteq> ''template''
         then fail run ''unsupported_transform''
         else recordStep run index ''transform'' ''succeeded'' (gs_operation current))
      else if gs_kind current = ''tool'' then executeTool cfg run index current
      else fail run ''unsupported_step'')"

definition complete :: "leased_run \<Rightarrow> ('x worker, unit) prog" where
  "complete run =
     and_then (update_run run complete_run) (\<lambda>_.
     and_then (add_event run Ev_succeeded ''All workflow steps completed'') (\<lambda>_.
     count_terminal Succeeded))"

text \<open>
  The loop over the steps from the current one, as a recursion over those that remain. Note that a step
  which called \<open>fail\<close> or \<open>uncertain\<close> returned without an error when their statements went
  through, and the loop goes on.
\<close>

primrec execute_from :: "'x worker_config \<Rightarrow> leased_run \<Rightarrow> nat \<Rightarrow> json list \<Rightarrow> ('x worker, unit) prog" where
  "execute_from cfg run index [] = complete run"
| "execute_from cfg run index (raw # rest) =
     (case decode_step raw of
        None \<Rightarrow> fail run ''invalid_workflow_step''
      | Some current \<Rightarrow>
          if gs_kind current = ''approval'' then awaitApproval run index
          else
            and_then (execute_step cfg run index current) (\<lambda>_.
            and_then (update_run run (advance_run index)) (\<lambda>_.
            execute_from cfg run (Suc index) rest)))"

definition execute :: "'x worker_config \<Rightarrow> leased_run \<Rightarrow> ('x worker, unit) prog" where
  "execute cfg run =
     (if \<not> supportedWorkflowSchema (gd_schemaVersion (lr_definition run))
      then fail run ''unsupported_workflow_schema''
      else execute_from cfg run (lr_currentStep run) (drop (lr_currentStep run) (gd_steps (lr_definition run))))"

datatype processed = Invalid_queue_message | Processed

definition process :: "'x worker_config \<Rightarrow> string \<Rightarrow> string \<Rightarrow> ('x worker, processed) prog" where
  "process cfg workerId data =
     (case decode_queued cfg data of
        None \<Rightarrow> Done (Inr Invalid_queue_message)
      | Some runId \<Rightarrow>
          if \<not> isUUID runId then Done (Inr Invalid_queue_message)
          else
            and_then (atomic (claim runId workerId)) (\<lambda>claimed.
            case claimed of
              None \<Rightarrow> Done (Inr Processed)
            | Some run \<Rightarrow> and_then (execute cfg run) (\<lambda>_. Done (Inr Processed))))"

text \<open>What the consumer tells the stream: only an error of \<open>process\<close> other than an invalid message asks for redelivery.\<close>

datatype acknowledgement = Ack | Nak

fun acknowledgement_of :: "processed result \<Rightarrow> acknowledgement" where
  "acknowledgement_of (Inr _) = Ack"
| "acknowledgement_of (Inl err) = Nak"

section \<open>Settings\<close>

text \<open>\<open>parsed\<close> is what \<open>strconv.Atoi\<close> and \<open>time.ParseDuration\<close>, in nanoseconds, make of the variable.\<close>

definition workerConcurrency :: "int option \<Rightarrow> int" where
  "workerConcurrency parsed =
     (case parsed of Some n \<Rightarrow> if 0 < n \<and> n \<le> 128 then n else 16 | None \<Rightarrow> 16)"

definition workerDrainTimeout :: "int option \<Rightarrow> int" where
  "workerDrainTimeout parsed =
     (case parsed of
        Some ns \<Rightarrow> if 1000000000 \<le> ns \<and> ns \<le> 120000000000 then ns else 25000000000
      | None \<Rightarrow> 25000000000)"

definition environmentOr :: "'x worker_config \<Rightarrow> string \<Rightarrow> string \<Rightarrow> string" where
  "environmentOr cfg name fallback =
     (let trimmed = rev (dropWhile go_space (rev (dropWhile go_space (wc_getenv cfg name)))) in
      if trimmed \<noteq> [] then trimmed else fallback)"

end
