(* ===== verification/WorkerSystem.thy ===== *)
theory WorkerSystem
  imports Worker SystemSteps
begin

text \<open>
  Workers beside the rest of the system. Any number of deliveries are in progress at once, each at any of its
  actions, some of them abandoned; between two actions the control plane serves requests, the
  publisher publishes, and other workers act. The ledger of effects keeps its promise through all
  of it: an effect is committed once, at a step of the workflow that writes the ticket, and only
  after as many approvals as the workflow asks for before that step.
\<close>

section \<open>Approvals given and approvals needed\<close>

definition needs_approval :: "json \<Rightarrow> bool" where
  "needs_approval raw \<longleftrightarrow> (case decode_step raw of None \<Rightarrow> False | Some s \<Rightarrow> gs_kind s = ''approval'')"

definition approvals_before :: "json list \<Rightarrow> nat \<Rightarrow> nat" where
  "approvals_before steps n = length (filter needs_approval (take n steps))"

definition approvals_of :: "db \<Rightarrow> uuid \<Rightarrow> nat" where
  "approvals_of d i = length (filter (\<lambda>x. er_run_id x = i \<and> er_event_type x = Ev_approved) (db_events d))"

definition steps_of :: "json \<Rightarrow> json list" where
  "steps_of j = (case decode_definition j of None \<Rightarrow> [] | Some g \<Rightarrow> gd_steps g)"

definition step_limit :: "db \<Rightarrow> run_row \<Rightarrow> nat \<Rightarrow> bool" where
  "step_limit d r n \<longleftrightarrow> (\<forall>w \<in> set (db_workflows d). wr_id w = rw_workflow_id r \<longrightarrow>
     approvals_before (steps_of (wr_definition w)) n \<le> approvals_of d (rw_id r))"

definition approved_ok :: "db \<Rightarrow> bool" where
  "approved_ok d \<longleftrightarrow> (\<forall>r \<in> set (db_runs d). step_limit d r (rw_current_step r))"

definition run_keys :: "db \<Rightarrow> (uuid \<times> uuid \<times> uuid) set" where
  "run_keys d = (\<lambda>r. (rw_id r, rw_tenant_id r, rw_workflow_id r)) ` set (db_runs d)"

text \<open>What only grows: runs, workflows and approvals.\<close>

definition grows :: "db \<Rightarrow> db \<Rightarrow> bool" where
  "grows d d' \<longleftrightarrow> run_keys d \<subseteq> run_keys d' \<and> set (db_workflows d) \<subseteq> set (db_workflows d') \<and>
     (\<forall>i. approvals_of d i \<le> approvals_of d' i)"

lemma approvals_before_0 [simp]: "approvals_before steps 0 = 0"
  by (simp add: approvals_before_def)

lemma approvals_before_Suc:
  "approvals_before steps (Suc n) =
     approvals_before steps n + (if n < length steps \<and> needs_approval (steps ! n) then 1 else 0)"
  by (cases "n < length steps") (simp_all add: approvals_before_def take_Suc_conv_app_nth)

lemma grows_refl [simp]: "grows d d"
  by (simp add: grows_def)

lemma grows_trans: "grows d d1 \<Longrightarrow> grows d1 d2 \<Longrightarrow> grows d d2"
  unfolding grows_def by (meson order.trans)

lemma approvals_of_fields [simp]:
  "approvals_of (with_message t i d) j = approvals_of d j"
  "approvals_of (with_audit p a i n d) j = approvals_of d j"
  "approvals_of (with_run r d) j = approvals_of d j"
  "approvals_of (with_workflow w d) j = approvals_of d j"
  "approvals_of (update_runs P f d) j = approvals_of d j"
  "approvals_of (update_outbox P' g d) j = approvals_of d j"
  "approvals_of (with_event t i y x tr n d) j = approvals_of d j + (if j = i \<and> y = Ev_approved then 1 else 0)"
  by (simp_all add: approvals_of_def with_event_def update_outbox_def)

lemma step_limit_cong:
  assumes "db_workflows d' = db_workflows d" and "\<And>i. approvals_of d i \<le> approvals_of d' i"
    and "rw_workflow_id r' = rw_workflow_id r" and "rw_id r' = rw_id r" and "step_limit d r n"
  shows "step_limit d' r' n"
  using assms unfolding step_limit_def by (metis order.trans)

lemma grows_same:
  assumes "db_runs d' = db_runs d" and "db_workflows d' = db_workflows d" and "\<And>i. approvals_of d i \<le> approvals_of d' i"
  shows "grows d d'" and "approved_ok d \<Longrightarrow> approved_ok d'"
  using assms by (auto simp: grows_def run_keys_def approved_ok_def intro: step_limit_cong [OF assms(2,3) refl refl])

lemma update_runs_keys:
  assumes "\<And>r. rw_id (f r) = rw_id r" and "\<And>r. rw_tenant_id (f r) = rw_tenant_id r"
    and "\<And>r. rw_workflow_id (f r) = rw_workflow_id r"
  shows "run_keys (update_runs P f d) = run_keys d"
  using map_if_same_key [of "\<lambda>r. (rw_id r, rw_tenant_id r, rw_workflow_id r)" f P "db_runs d"] assms
  unfolding run_keys_def update_runs_fields by (metis (no_types, lifting) list.set_map)

lemma approved_ok_update:
  assumes "approved_ok d" and "\<And>r. rw_id (f r) = rw_id r" and "\<And>r. rw_workflow_id (f r) = rw_workflow_id r"
    and "\<And>r. r \<in> set (db_runs d) \<Longrightarrow> P r \<Longrightarrow> step_limit d r (rw_current_step (f r))"
  shows "approved_ok (update_runs P f d)"
  unfolding approved_ok_def
proof
  fix r'
  assume "r' \<in> set (db_runs (update_runs P f d))"
  then obtain r where r: "r \<in> set (db_runs d)" "r' = (if P r then f r else r)"
    by (auto simp: update_runs_def)
  then have "step_limit d r (rw_current_step r')"
    using assms(1,4) by (auto simp: approved_ok_def)
  moreover have "rw_workflow_id r' = rw_workflow_id r" "rw_id r' = rw_id r"
    using r(2) assms(2,3) by simp_all
  ultimately show "step_limit (update_runs P f d) r' (rw_current_step r')"
    by (simp add: step_limit_def)
qed


lemma db_change_approved:
  assumes "db_change e d d'" and "schema_ok cn d" and "approved_ok d"
  shows "approved_ok d' \<and> grows d d'"
  using assms(1)
proof cases
  case (created c now rq k x)
  then obtain row where ins: "may_insert e d c rq k row" and d': "d' = with_new_run c row now d"
    by (auto simp: creates_def)
  have fields: "db_runs d' = db_runs d @ [row]" "db_workflows d' = db_workflows d" "approvals_of d' i = approvals_of d i" for i
    by (simp_all add: d' with_new_run_def) (simp add: with_run_def)
  from ins obtain w k' budget h n where "row = new_run_row (rw_id row) (pr_tenantId c) w k' (rr_input rq) budget h n"
    by (auto simp: may_insert_def)
  then have "rw_current_step row = 0"
    by (metis new_run_row_def run_row.select_convs(10))
  with assms(3) show ?thesis
    by (auto simp: approved_ok_def grows_def run_keys_def step_limit_def fields image_Un)
next
  case (decided c row target ev now)
  let ?f = "\<lambda>r. r\<lparr>rw_state := target, rw_current_step := rw_current_step r +
    (if target = Queued \<and> ev_type ev = Ev_approved then 1 else 0), rw_updated_at := now\<rparr>"
  have runs: "db_runs d' = db_runs (update_runs (\<lambda>r. rw_id r = rw_id row) ?f d)"
    and workflows: "db_workflows d' = db_workflows d"
    and approvals: "approvals_of d' i = approvals_of d i + (if i = rw_id row \<and> ev_type ev = Ev_approved then 1 else 0)" for i
    by (simp_all add: decided(1) with_transition_def Let_def)
  have "run_keys d' = run_keys d"
    using update_runs_keys [of ?f "\<lambda>r. rw_id r = rw_id row" d] runs by (simp add: run_keys_def)
  then have "grows d d'"
    by (simp add: grows_def workflows approvals)
  moreover have "step_limit d' r' (rw_current_step r')" if "r' \<in> set (db_runs d')" for r'
  proof -
    from that obtain r where r: "r \<in> set (db_runs d)" "r' = (if rw_id r = rw_id row then ?f r else r)"
      unfolding runs by auto
    then have same: "rw_workflow_id r' = rw_workflow_id r" "rw_id r' = rw_id r"
      and current: "rw_current_step r' = rw_current_step r +
        (if rw_id r = rw_id row \<and> target = Queued \<and> ev_type ev = Ev_approved then 1 else 0)"
      by simp_all
    have "step_limit d r (rw_current_step r)"
      using assms(3) r(1) by (simp add: approved_ok_def)
    then show ?thesis
      unfolding step_limit_def workflows same approvals current
      by (auto simp: approvals_before_Suc intro: le_SucI)
  qed
  ultimately show ?thesis by (simp add: approved_ok_def)
next
  case (defined c w n wd now)
  have fields: "db_runs d' = db_runs d" "db_workflows d' = db_workflows d @ [w]" "approvals_of d' i = approvals_of d i" for i
    by (simp_all add: defined(1) with_workflow_def approvals_of_def)
  have "wr_id w \<noteq> rw_workflow_id r" if "r \<in> set (db_runs d)" for r
  proof -
    from assms(2) that obtain v where "v \<in> set (db_workflows d)" "wr_id v = rw_workflow_id r"
      by (auto simp: schema_ok_def db_ok_def runs_ok_def)
    with defined(4) show ?thesis by (metis imageI list.set_map)
  qed
  with assms(3) show ?thesis
    by (auto simp: approved_ok_def grows_def run_keys_def step_limit_def fields)
next
  case (leased row now worker expires)
  let ?f = "\<lambda>r. r\<lparr>rw_state := Leased, rw_lease_owner := Some worker,
    rw_lease_expires_at := Some expires, rw_updated_at := now\<rparr>" and ?P = "\<lambda>r. rw_id r = rw_id row"
  have "approved_ok (update_runs ?P ?f d)"
    using assms(3) by (intro approved_ok_update) (simp_all add: approved_ok_def)
  moreover have "grows d (update_runs ?P ?f d)"
    using update_runs_keys [of ?f ?P d] by (simp add: grows_def)
  ultimately show ?thesis
    unfolding leased(1) with_lease_def
    using grows_same [of "with_event (rw_tenant_id row) (rw_id row) Ev_leased ''Worker lease acquired'' None now
        (update_runs ?P ?f d)" "update_runs ?P ?f d"]
    by (auto intro: grows_trans)
next
  case (counted ids)
  have "grows d d'" "approved_ok d'"
    using grows_same [of d' d] assms(3) by (simp_all add: counted attempted_def) (simp_all add: update_outbox_def)
  then show ?thesis by simp
next
  case (published ids now)
  have "grows d d'" "approved_ok d'"
    using grows_same [of d' d] assms(3) by (simp_all add: published marked_def) (simp_all add: update_outbox_def)
  then show ?thesis by simp
next
  case provisioned
  then have "db_runs d' = db_runs d" "db_workflows d' = db_workflows d" "approvals_of d' = approvals_of d"
    using provisionsD(1) [OF provisioned] by (simp_all add: same_work_def approvals_of_def fun_eq_iff)
  with grows_same [of d' d] assms(3) show ?thesis by simp
qed (use assms(3) in simp)

lemma system_step_approved:
  assumes "system_step cf (e, d) (e', d')" and "schema_ok cn d" and "parse_uuid e = cn"
    and "\<forall>n. cn (uuids e n) = Some (uuids e n)" and "approved_ok d"
  shows "same_sources e e' \<and> schema_ok cn d' \<and> approved_ok d' \<and> grows d d'"
proof -
  from system_step_change [OF assms(1-4)] have "same_sources e e'" and changes: "(db_change e)\<^sup>*\<^sup>* d d'"
    by auto
  from changes have "schema_ok cn d' \<and> approved_ok d' \<and> grows d d'"
    by (induction rule: rtranclp_induct)
       (use assms(2,5) db_change_schema [OF _ _ assms(4)] db_change_approved grows_trans in auto)
  with \<open>same_sources e e'\<close> show ?thesis by simp
qed


section \<open>The invariant of the ledger\<close>

text \<open>The run is in the database, and this is what the worker reads as its workflow.\<close>

definition executes :: "db \<Rightarrow> uuid \<Rightarrow> uuid \<Rightarrow> go_definition \<Rightarrow> bool" where
  "executes d i t g \<longleftrightarrow>
     (\<exists>w \<in> set (db_workflows d). (i, t, wr_id w) \<in> run_keys d \<and> decode_definition (wr_definition w) = Some g)"

definition writes_ticket :: "json \<Rightarrow> bool" where
  "writes_ticket raw \<longleftrightarrow>
     (case decode_step raw of None \<Rightarrow> False | Some s \<Rightarrow> gs_kind s = ''tool'' \<and> gs_tool s = ''mock_ticket_write'')"

definition effect_ok :: "db \<Rightarrow> effect_row \<Rightarrow> bool" where
  "effect_ok d x \<longleftrightarrow>
     ef_effect_key x = effect_key (ef_run_id x) (ef_step_index x) \<and>
     (\<exists>g. executes d (ef_run_id x) (ef_tenant_id x) g \<and> ef_step_index x < length (gd_steps g) \<and>
        writes_ticket (gd_steps g ! ef_step_index x) \<and>
        approvals_before (gd_steps g) (ef_step_index x) \<le> approvals_of d (ef_run_id x))"

definition ledger_ok :: "(string \<Rightarrow> uuid option) \<Rightarrow> worker_tables \<Rightarrow> bool" where
  "ledger_ok cn t \<longleftrightarrow>
     schema_ok cn (wt_db t) \<and> approved_ok (wt_db t) \<and>
     distinct (map (\<lambda>x. (ef_tenant_id x, ef_effect_key x)) (wt_effects t)) \<and>
     (\<forall>x \<in> set (wt_effects t). effect_ok (wt_db t) x)"

definition worker_inv :: "(string \<Rightarrow> uuid option) \<Rightarrow> 'x worker world \<Rightarrow> bool" where
  "worker_inv cn w \<longleftrightarrow>
     parse_uuid (fst w) = cn \<and> (\<forall>n. cn (uuids (fst w) n) = Some (uuids (fst w) n)) \<and> ledger_ok cn (wk_tables (snd w))"

abbreviation db_of :: "'x worker \<Rightarrow> db" where
  "db_of s \<equiv> wt_db (wk_tables s)"

definition worker_rely :: "'x worker world \<Rightarrow> 'x worker world \<Rightarrow> bool" where
  "worker_rely w w' \<longleftrightarrow> same_sources (fst w) (fst w') \<and> grows (db_of (snd w)) (db_of (snd w'))"

interpretation workers: rely_guarantee "worker_inv cn" worker_rely
  for cn :: "string \<Rightarrow> uuid option"
  by unfold_locales (auto simp: worker_rely_def intro: same_sources_trans grows_trans)

lemma executes_grows: "executes d i t g \<Longrightarrow> grows d d' \<Longrightarrow> executes d' i t g"
  unfolding executes_def grows_def by blast

lemma effect_ok_grows: "effect_ok d x \<Longrightarrow> grows d d' \<Longrightarrow> effect_ok d' x"
  unfolding effect_ok_def by (meson executes_grows grows_def order.trans)

lemma ledger_ok_db:
  assumes "ledger_ok cn t" and "schema_ok cn d" and "approved_ok d" and "grows (wt_db t) d"
  shows "ledger_ok cn (t\<lparr>wt_db := d\<rparr>)"
  using assms effect_ok_grows by (auto simp: ledger_ok_def)

text \<open>What a worker knows while it executes a run and stands at a step.\<close>

definition serves :: "leased_run \<Rightarrow> nat \<Rightarrow> 'x worker world \<Rightarrow> bool" where
  "serves run index w \<longleftrightarrow>
     executes (db_of (snd w)) (lr_id run) (lr_tenantId run) (lr_definition run) \<and>
     approvals_before (gd_steps (lr_definition run)) index \<le> approvals_of (db_of (snd w)) (lr_id run)"

lemma serves_stable: "serves run index w \<Longrightarrow> worker_rely w w' \<Longrightarrow> serves run index w'"
  unfolding serves_def worker_rely_def grows_def using executes_grows
  by (meson grows_def order.trans)

lemma executes_row:
  assumes "executes d i t g" and "schema_ok cn d"
  shows "cn i = Some i" and "cn t = Some t" and "(t, i) \<in> run_refs d"
  using assms by (auto simp: executes_def run_keys_def schema_ok_def db_ok_def runs_ok_def run_refs_def)

lemma executes_limit:
  assumes "executes d i t g" and "schema_ok cn d" and "r \<in> set (db_runs d)" and "rw_id r = i"
    and "approvals_before (gd_steps g) n \<le> approvals_of d i"
  shows "step_limit d r n"
proof -
  from assms(1) obtain w r0 where w: "w \<in> set (db_workflows d)" "decode_definition (wr_definition w) = Some g"
    and r0: "r0 \<in> set (db_runs d)" "rw_id r0 = i" "rw_workflow_id r0 = wr_id w"
    by (auto simp: executes_def run_keys_def)
  have ok: "distinct (map rw_id (db_runs d))" "distinct (map wr_id (db_workflows d))"
    using assms(2) by (simp_all add: schema_ok_def db_ok_def runs_ok_def principals_ok_def)
  have "r = r0"
    using distinct_map_inj [OF ok(1) assms(3) r0(1)] assms(4) r0(2) by simp
  moreover have "v = w" if "v \<in> set (db_workflows d)" "wr_id v = wr_id w" for v
    using distinct_map_inj [OF ok(2) that(1) w(1) that(2)] .
  moreover have "approvals_before (steps_of (wr_definition w)) n \<le> approvals_of d i"
    using assms(5) w(2) by (simp add: steps_of_def)
  ultimately show ?thesis
    using r0 unfolding step_limit_def by metis
qed

subsection \<open>What the statements do to it\<close>

lemma schema_ok_update:
  assumes "schema_ok cn d" and "\<And>r. rw_id (f r) = rw_id r" and "\<And>r. rw_tenant_id (f r) = rw_tenant_id r"
    and "\<And>r. rw_idempotency_key (f r) = rw_idempotency_key r" and "\<And>r. rw_workflow_id (f r) = rw_workflow_id r"
  shows "schema_ok cn (update_runs P f d)"
  using db_ok_update(1) [of cn d f P] assms by (intro schema_ok_db [OF assms(1)]) (simp_all add: schema_ok_def)

lemma ledger_ok_update:
  assumes "ledger_ok cn t" and "\<And>r. rw_id (f r) = rw_id r" and "\<And>r. rw_tenant_id (f r) = rw_tenant_id r"
    and "\<And>r. rw_idempotency_key (f r) = rw_idempotency_key r" and "\<And>r. rw_workflow_id (f r) = rw_workflow_id r"
    and "\<And>r. r \<in> set (db_runs (wt_db t)) \<Longrightarrow> P r \<Longrightarrow> step_limit (wt_db t) r (rw_current_step (f r))"
  shows "ledger_ok cn (t\<lparr>wt_db := update_runs P f (wt_db t)\<rparr>) \<and> grows (wt_db t) (update_runs P f (wt_db t))"
proof -
  have "grows (wt_db t) (update_runs P f (wt_db t))"
    using update_runs_keys [of f P "wt_db t"] assms(2,3,5) by (simp add: grows_def)
  moreover have "approved_ok (update_runs P f (wt_db t))"
    using assms(1,2,5,6) by (intro approved_ok_update) (simp_all add: ledger_ok_def)
  ultimately show ?thesis
    using ledger_ok_db [OF assms(1)] schema_ok_update [of cn "wt_db t" f P] assms(1-5) by (simp add: ledger_ok_def)
qed

lemma ledger_ok_event:
  assumes "ledger_ok cn t" and "(u, i) \<in> run_refs (wt_db t)" and "y \<noteq> Ev_approved"
  shows "ledger_ok cn (t\<lparr>wt_db := with_event u i y x tr now (wt_db t)\<rparr>) \<and>
    grows (wt_db t) (with_event u i y x tr now (wt_db t))"
proof -
  let ?d = "with_event u i y x tr now (wt_db t)"
  have "schema_ok cn (wt_db t)" "db_ok cn ?d"
    using assms(1,2) db_ok_event [of cn "wt_db t"] by (simp_all add: ledger_ok_def schema_ok_def)
  then have "schema_ok cn ?d"
    by (rule schema_ok_db) simp_all
  moreover have "grows (wt_db t) ?d" "approved_ok ?d"
    using grows_same [of ?d "wt_db t"] assms(1,3) by (simp_all add: ledger_ok_def)
  ultimately show ?thesis
    using ledger_ok_db [OF assms(1)] by simp
qed


section \<open>The programs of a worker uphold it\<close>

named_theorems upholds_rules \<open>parts of the worker that keep the invariant and what it knows\<close>

definition upholds :: "(string \<Rightarrow> uuid option) \<Rightarrow> leased_run \<Rightarrow> nat \<Rightarrow> ('x worker, 'a) prog \<Rightarrow> bool" where
  "upholds cn run index p \<longleftrightarrow> (\<forall>w. serves run index w \<longrightarrow> workers.meets cn (\<lambda>_. serves run index) p w)"

lemma upholds_Done [upholds_rules]: "upholds cn run index (Done r)"
  unfolding upholds_def by (cases r) (auto intro: workers.failed workers.returned)

lemma upholds_then [upholds_rules]:
  "upholds cn run index p \<Longrightarrow> (\<And>x. upholds cn run index (f x)) \<Longrightarrow> upholds cn run index (and_then p f)"
  unfolding upholds_def by (blast intro: workers.meets_then)

lemma upholds_atomic:
  assumes "\<And>e s r e' s'. worker_inv cn (e, s) \<Longrightarrow> serves run index (e, s) \<Longrightarrow> m (e, s) = (r, (e', s')) \<Longrightarrow>
    worker_inv cn (e', s') \<and> worker_rely (e, s) (e', s')"
  shows "upholds cn run index (atomic m)"
  unfolding upholds_def
proof (intro allI impI workers.meets_atomic, goal_cases)
  case (1 w w' r w'')
  moreover from 1(1,2) have "serves run index w'" by (rule serves_stable)
  ultimately have "worker_inv cn w'' \<and> worker_rely w' w''"
    using assms [of "fst w'" "snd w'" r "fst w''" "snd w''"] by simp
  with \<open>serves run index w'\<close> show ?case using serves_stable by blast
qed

lemma upholds_if [upholds_rules]:
  "(b \<Longrightarrow> upholds cn run index p) \<Longrightarrow> (\<not> b \<Longrightarrow> upholds cn run index q) \<Longrightarrow> upholds cn run index (if b then p else q)"
  "upholds cn run index p \<Longrightarrow> (\<And>x. upholds cn run index (f x)) \<Longrightarrow>
     upholds cn run index (case o' of None \<Rightarrow> p | Some x \<Rightarrow> f x)"
  by (auto split: option.split)

lemma worker_inv_sources: "worker_inv cn (e, s) \<Longrightarrow> same_sources e e' \<Longrightarrow> wk_tables s' = wk_tables s \<Longrightarrow>
    worker_inv cn (e', s') \<and> worker_rely (e, s) (e', s')"
  by (auto simp: worker_inv_def worker_rely_def same_sources_def)

lemma pool_exec_cases:
  assumes "pool_exec q (e, s) = (r, (e', s'))"
  obtains (given_up) "same_sources e e'" and "s' = s"
  | (performed) e1 now x t where "same_sources e e'" and "parse_uuid e1 = parse_uuid e"
      and "q e1 now (wk_tables s) = Inr (x, t)" and "s' = s\<lparr>wk_tables := t\<rparr>" and "\<forall>y. r = Inr y \<longrightarrow> y = x"
proof -
  let ?e = "e\<lparr>roundtrips := Suc (roundtrips e)\<rparr>"
  let ?e1 = "?e\<lparr>ticks := Suc (ticks e)\<rparr>"
  have sources: "same_sources e ?e" "same_sources e ?e1" "parse_uuid ?e1 = parse_uuid e"
    by (simp_all add: same_sources_def)
  show thesis
  proof (cases "q ?e1 (clock e (ticks e)) (wk_tables s)")
    case (Inl err)
    then have "e' \<in> {?e, ?e1} \<and> s' = s"
      using assms by (auto simp: pool_exec_def perform_def io_defs split: db_fate.splits)
    with sources given_up show thesis by auto
  next
    case (Inr y)
    obtain x t where y: "y = (x, t)" by (rule prod.exhaust)
    from assms Inr y have "e' = ?e \<and> s' = s \<or> e' = ?e1 \<and> s' = s\<lparr>wk_tables := t\<rparr> \<and> (\<forall>z. r = Inr z \<longrightarrow> z = x)"
      by (auto simp: pool_exec_def perform_def io_defs split: db_fate.splits)
    with sources Inr y given_up performed [of ?e1 "clock e (ticks e)" x t] show thesis by auto
  qed
qed

lemma upholds_exec:
  assumes "\<And>e now t x t'. parse_uuid e = cn \<Longrightarrow> ledger_ok cn t \<Longrightarrow>
      executes (wt_db t) (lr_id run) (lr_tenantId run) (lr_definition run) \<Longrightarrow>
      approvals_before (gd_steps (lr_definition run)) index \<le> approvals_of (wt_db t) (lr_id run) \<Longrightarrow>
      q e now t = Inr (x, t') \<Longrightarrow> ledger_ok cn t' \<and> grows (wt_db t) (wt_db t')"
  shows "upholds cn run index (atomic (pool_exec q))"
proof (rule upholds_atomic)
  fix e s r e' s'
  assume inv: "worker_inv cn (e, s)" and "serves run index (e, s)" and "pool_exec q (e, s) = (r, (e', s'))"
  from this(3) show "worker_inv cn (e', s') \<and> worker_rely (e, s) (e', s')"
  proof (cases rule: pool_exec_cases)
    case given_up
    with inv show ?thesis using worker_inv_sources by blast
  next
    case (performed e1 now x t)
    with inv \<open>serves run index (e, s)\<close> assms [of e1 "wk_tables s" now x t] have "ledger_ok cn t \<and> grows (db_of s) (wt_db t)"
      by (simp add: worker_inv_def serves_def)
    with performed(1,4) inv show ?thesis
      by (auto simp: worker_inv_def worker_rely_def same_sources_def)
  qed
qed

lemma upholds_recordStep [upholds_rules]: "upholds cn run index (recordStep run n kind status label)"
  unfolding recordStep_def
  by (rule upholds_exec) (auto simp: insert_result_def as_uuid_Inr ensure_Inr ledger_ok_def split: if_splits)

lemma on_db_Inr:
  "on_db rights q e now t = Inr (x, t') \<longleftrightarrow> list_all (granted DarWorker) rights \<and>
     (\<exists>d. q e (worker_session now (wt_db t)) = Inr (x, d) \<and> t' = t\<lparr>wt_db := d\<rparr>)"
  by (auto simp: on_db_def split: sum.splits)

lemma insert_event_result:
  assumes "insert_event u i type detail trace e (worker_session now d) = Inr (x, d')"
    and "parse_uuid e u = Some u" and "parse_uuid e i = Some i"
  shows "d' = with_event u i type detail trace now d"
  using assms by (auto simp: insert_event_def as_uuid_Inr ensure_Inr rls_check_Inr worker_session_def with_event_def Let_def)

lemma upholds_add_event [upholds_rules]:
  assumes "type \<noteq> Ev_approved"
  shows "upholds cn run index (add_event run type detail)"
  unfolding add_event_def exec_db_def
proof (rule upholds_exec)
  fix e now t x t'
  assume "parse_uuid e = cn" "ledger_ok cn t"
    and ex: "executes (wt_db t) (lr_id run) (lr_tenantId run) (lr_definition run)"
    and "on_db [(Insert, T_events)] (insert_event (lr_tenantId run) (lr_id run) type detail None) e now t = Inr (x, t')"
  moreover from this have "(lr_tenantId run, lr_id run) \<in> run_refs (wt_db t)" "cn (lr_id run) = Some (lr_id run)"
      "cn (lr_tenantId run) = Some (lr_tenantId run)"
    using executes_row [OF ex, of cn] by (simp_all add: ledger_ok_def)
  ultimately show "ledger_ok cn t' \<and> grows (wt_db t) (wt_db t')"
    using ledger_ok_event [of cn t "lr_tenantId run" "lr_id run" type detail None now] assms
    by (auto simp: on_db_Inr dest!: insert_event_result)
qed

lemma upholds_update_run:
  assumes "\<And>now r. rw_id (f now r) = rw_id r" and "\<And>now r. rw_tenant_id (f now r) = rw_tenant_id r"
    and "\<And>now r. rw_idempotency_key (f now r) = rw_idempotency_key r"
    and "\<And>now r. rw_workflow_id (f now r) = rw_workflow_id r"
    and "\<And>now r. rw_current_step (f now r) = rw_current_step r \<or>
      approvals_before (gd_steps (lr_definition run)) (rw_current_step (f now r)) =
      approvals_before (gd_steps (lr_definition run)) index"
  shows "upholds cn run index (update_run run f)"
  unfolding update_run_def exec_db_def
proof (rule upholds_exec)
  fix e now t x t'
  assume cn: "parse_uuid e = cn" and ok: "ledger_ok cn t"
    and ex: "executes (wt_db t) (lr_id run) (lr_tenantId run) (lr_definition run)"
    and below: "approvals_before (gd_steps (lr_definition run)) index \<le> approvals_of (wt_db t) (lr_id run)"
    and run: "on_db [(Update, T_runs), (Select, T_runs)] (set_run (lr_id run) f) e now t = Inr (x, t')"
  have schema: "schema_ok cn (wt_db t)" "approved_ok (wt_db t)" using ok by (simp_all add: ledger_ok_def)
  with run cn executes_row(1) [OF ex, of cn] have t': "t' = t\<lparr>wt_db := update_runs (\<lambda>r. rw_id r = lr_id run) (f now) (wt_db t)\<rparr>"
    by (auto simp: on_db_Inr set_run_def as_uuid_Inr worker_session_def)
  have "step_limit (wt_db t) r (rw_current_step (f now r))"
    if "r \<in> set (db_runs (wt_db t))" "rw_id r = lr_id run" for r
    using assms(5) [of now r] executes_limit [OF ex schema(1) that] below schema(2) that(1)
    by (auto simp: approved_ok_def)
  from ledger_ok_update [OF ok, of "f now" "\<lambda>r. rw_id r = lr_id run", OF assms(1-4) this] t'
  show "ledger_ok cn t' \<and> grows (wt_db t) (wt_db t')" by simp
qed

lemmas run_updates = take_run_def advance_run_def complete_run_def park_run_def end_run_def

lemma upholds_updates [upholds_rules]:
  "upholds cn run index (update_run run (park_run index))"
  "upholds cn run index (update_run run (end_run st errorCode))"
  "upholds cn run index (update_run run complete_run)"
  by (rule upholds_update_run; simp add: run_updates)+

lemma upholds_count [upholds_rules]: "upholds cn run index (atomic (count_worker f))"
  by (rule upholds_atomic, rule worker_inv_sources) (auto simp: count_worker_def io_modify_def)

lemma upholds_http [upholds_rules]: "upholds cn run index (http_do cfg rq)"
  unfolding http_do_def
  by (rule upholds_atomic, rule worker_inv_sources) (auto split: prod.splits)

lemma upholds_endings [upholds_rules]:
  "upholds cn run index (awaitApproval run index)"
  "upholds cn run index (fail run errorCode)" "upholds cn run index (uncertain run errorCode)"
  "upholds cn run index (complete run)"
  unfolding awaitApproval_def fail_def uncertain_def end_with_def complete_def count_terminal_def
  by (intro upholds_rules; simp)+


subsection \<open>The steps\<close>

lemma upholds_effect:
  assumes "index < length (gd_steps (lr_definition run))" and "writes_ticket (gd_steps (lr_definition run) ! index)"
  shows "upholds cn run index (atomic (pool_exec
    (insert_effect (lr_tenantId run) (lr_id run) index (effect_key (lr_id run) index))))"
proof (rule upholds_exec)
  let ?key = "effect_key (lr_id run) index"
  fix e now t x t'
  assume cn: "parse_uuid e = cn" and ok: "ledger_ok cn t"
    and ex: "executes (wt_db t) (lr_id run) (lr_tenantId run) (lr_definition run)"
    and below: "approvals_before (gd_steps (lr_definition run)) index \<le> approvals_of (wt_db t) (lr_id run)"
    and ins: "insert_effect (lr_tenantId run) (lr_id run) index ?key e now t = Inr (x, t')"
  let ?row = "\<lparr>ef_tenant_id = lr_tenantId run, ef_run_id = lr_id run, ef_step_index = index, ef_effect_key = ?key,
    ef_committed_at = now\<rparr>"
  have "cn (lr_id run) = Some (lr_id run)" "cn (lr_tenantId run) = Some (lr_tenantId run)"
    using executes_row [OF ex, of cn] ok by (simp_all add: ledger_ok_def)
  with ins cn have "t' = t \<or> t' = t\<lparr>wt_effects := wt_effects t @ [?row]\<rparr> \<and>
      (lr_tenantId run, ?key) \<notin> set (map (\<lambda>x. (ef_tenant_id x, ef_effect_key x)) (wt_effects t))"
    by (auto simp: insert_effect_def as_uuid_Inr ensure_Inr split: if_splits)
  moreover have "effect_ok (wt_db t) ?row"
    using ex below assms by (auto simp: effect_ok_def)
  ultimately show "ledger_ok cn t' \<and> grows (wt_db t) (wt_db t')"
    using ok by (auto simp: ledger_ok_def)
qed

lemma upholds_provider [upholds_rules]: "upholds cn run index (executeProviderModel cfg run index current)"
  unfolding executeProviderModel_def callOpenAICompatible_def by (intro upholds_rules)

lemma upholds_fetched [upholds_rules]: "upholds cn run index (judge_fetched cfg run index r)"
  unfolding judge_fetched_def by (intro upholds_rules)

lemma upholds_tool:
  assumes "index < length (gd_steps (lr_definition run))" and "decode_step (gd_steps (lr_definition run) ! index) = Some current"
    and "gs_kind current = ''tool''"
  shows "upholds cn run index (executeTool cfg run index current)"
proof -
  have "writes_ticket (gd_steps (lr_definition run) ! index)" if "gs_tool current = ''mock_ticket_write''"
    using that assms by (simp add: writes_ticket_def)
  then show ?thesis
    unfolding executeTool_def by (intro upholds_rules upholds_effect assms(1))
qed

lemma upholds_step:
  assumes "index < length (gd_steps (lr_definition run))" and "decode_step (gd_steps (lr_definition run) ! index) = Some current"
  shows "upholds cn run index (execute_step cfg run index current)"
  unfolding execute_step_def by (intro upholds_rules upholds_tool [OF assms])

lemma upholds_advance:
  assumes "\<not> needs_approval (gd_steps (lr_definition run) ! index)"
  shows "upholds cn run index (update_run run (advance_run index))"
  by (rule upholds_update_run) (use assms in \<open>simp_all add: run_updates approvals_before_Suc\<close>)

lemma fineI: "upholds cn run index p \<Longrightarrow> serves run index w \<Longrightarrow> workers.meets cn (\<lambda>_ _. True) p w"
  unfolding upholds_def by (blast intro: workers.meets_weaken)

lemma execute_from_fine:
  assumes "rest = drop index (gd_steps (lr_definition run))" and "serves run index w"
  shows "workers.meets cn (\<lambda>_ _. True) (execute_from cfg run index rest) w"
  using assms
proof (induction rest arbitrary: index w)
  case Nil
  show ?case
    unfolding execute_from.simps by (rule fineI [OF _ Nil.prems(2)]) (intro upholds_rules)
next
  case (Cons raw rest)
  let ?steps = "gd_steps (lr_definition run)"
  have here: "index < length ?steps"
    using Cons.prems(1) by (rule contrapos_pp) simp
  have "raw # rest = ?steps ! index # drop (Suc index) ?steps"
    unfolding Cons.prems(1) by (rule Cons_nth_drop_Suc [OF here, symmetric])
  with here have index: "index < length ?steps" "?steps ! index = raw" "rest = drop (Suc index) ?steps"
    by simp_all
  show ?case
  proof (cases "decode_step raw")
    case None
    then show ?thesis
      by (simp add: fineI [OF upholds_endings(2) Cons.prems(2)])
  next
    case (Some current)
    show ?thesis
    proof (cases "gs_kind current = ''approval''")
      case True
      with Some show ?thesis
        by (simp add: fineI [OF upholds_endings(1) Cons.prems(2)])
    next
      case False
      with Some index(2) have plain: "\<not> needs_approval (?steps ! index)"
        by (simp add: needs_approval_def)
      then have next_step: "serves run index w' \<Longrightarrow> serves run (Suc index) w'" for w' :: "'a worker world"
        using index(1) by (simp add: serves_def approvals_before_Suc)
      have "decode_step (?steps ! index) = Some current" using Some index(2) by simp
      note steps = upholds_step [OF index(1) this, of cn cfg] upholds_advance [OF plain, of cn]
      have rest: "workers.meets cn (\<lambda>_ _. True) (execute_from cfg run (Suc index) rest) w'"
        if "serves run index w'" for w'
        using Cons.IH [OF index(3) next_step [OF that]] .
      have "workers.meets cn (\<lambda>_ _. True) (and_then (execute_step cfg run index current) (\<lambda>_.
          and_then (update_run run (advance_run index)) (\<lambda>_. execute_from cfg run (Suc index) rest))) w"
        using steps Cons.prems(2) unfolding upholds_def by (blast intro: workers.meets_then rest)
      with Some False show ?thesis by simp
    qed
  qed
qed


section \<open>The claim\<close>

definition with_claim :: "string \<Rightarrow> timestamp \<Rightarrow> run_row \<Rightarrow> db \<Rightarrow> db" where
  "with_claim workerId now row d =
     with_event (rw_tenant_id row) (rw_id row) Ev_started ''Worker execution started'' None now
       (with_event (rw_tenant_id row) (rw_id row) Ev_leased ''Worker lease acquired'' None now
         (update_runs (\<lambda>r. rw_id r = rw_id row) (take_run workerId now) d))"

lemma go_transaction_cases:
  assumes "go_transaction body (e, p) = (r, (e', p'))"
  obtains (left) "p' = p" and "\<forall>x. r \<noteq> Inr (Some x)"
  | (committed) e1 x e2 s where "body (e1, (open_session p)\<lparr>se_now := clock e (ticks e)\<rparr>) = (Inr (Some x), (e2, s))"
      and "same_sources e e1" and "p' = p\<lparr>pg_db := se_db s\<rparr>" and "\<forall>y. r = Inr y \<longrightarrow> y = Some x"
proof -
  let ?e1 = "e\<lparr>roundtrips := Suc (roundtrips e), ticks := Suc (ticks e)\<rparr>"
  have undone: "p' = p \<and> (\<forall>x. r \<noteq> Inr (Some x))"
    if "io_bind deferred_rollback (\<lambda>_. k) (e2, p) = (r, (e', p'))" "k \<in> {io_throw err, io_return None}" for k e2 err
    using that by (auto simp: deferred_rollback_def io_defs roundtrip_eq split: db_fate.splits)
  obtain y e2 s where run: "io_bind begin_transaction (\<lambda>_. body) (e, open_session p) = (y, (e2, s))"
    using prod_cases3 by blast
  show thesis
  proof (cases y)
    case (Inl err)
    with assms run have "io_bind deferred_rollback (\<lambda>_. io_throw err) (e2, p) = (r, (e', p'))"
      by (simp add: go_transaction_def)
    with undone [OF this] left show thesis by blast
  next
    case (Inr z)
    show thesis
    proof (cases z)
      case None
      with assms run Inr have "io_bind deferred_rollback (\<lambda>_. io_return None) (e2, p) = (r, (e', p'))"
        by (simp add: go_transaction_def)
      with undone [OF this] left show thesis by blast
    next
      case (Some x)
      with run Inr have "body (?e1, (open_session p)\<lparr>se_now := clock e (ticks e)\<rparr>) = (Inr (Some x), (e2, s))"
        by (auto simp: begin_transaction_def io_defs roundtrip_eq split: db_fate.splits)
      moreover have "same_sources e ?e1" by (simp add: same_sources_def)
      moreover from assms run Inr Some have "p' = p \<and> (\<forall>x. r \<noteq> Inr (Some x)) \<or>
          p' = p\<lparr>pg_db := se_db s\<rparr> \<and> (\<forall>y. r = Inr y \<longrightarrow> y = Some x)"
        by (auto simp: go_transaction_def go_commit_def io_defs split: db_fate.splits)
      ultimately show thesis using left committed by blast
    qed
  qed
qed

lemma insert_started_result:
  assumes "insert_started u i e (worker_session now d) = Inr (x, d')"
    and "parse_uuid e u = Some u" and "parse_uuid e i = Some i"
  shows "d' = with_event u i Ev_started ''Worker execution started'' None now
    (with_event u i Ev_leased ''Worker lease acquired'' None now d)"
proof -
  have next_session: "worker_session now d\<lparr>se_db := d1\<rparr> = worker_session now d1" for d1
    by (simp add: worker_session_def)
  from assms(1) obtain y d1 where
    "insert_event u i Ev_leased ''Worker lease acquired'' None e (worker_session now d) = Inr (y, d1)"
    "insert_event u i Ev_started ''Worker execution started'' None e (worker_session now d1) = Inr (x, d')"
    by (auto simp: insert_started_def next_session split: sum.splits)
  then show ?thesis
    using insert_event_result [OF _ assms(2,3)] by blast
qed

lemma claim_row_completed:
  assumes "claim_row i workerId row w (e, worker_session now d) = (Inr x, (e', s'))"
    and "parse_uuid e i = Some i" and "parse_uuid e (rw_tenant_id row) = Some (rw_tenant_id row)" and "rw_id row = i"
  shows "\<exists>g. x = Some (row, g) \<and> decode_definition (wr_definition w) = Some g \<and> se_db s' = with_claim workerId now row d"
proof -
  let ?e1 = "e\<lparr>roundtrips := Suc (roundtrips e)\<rparr>"
  have next_session: "worker_session now d\<lparr>se_db := d1\<rparr> = worker_session now d1" for d1
    by (simp add: worker_session_def)
  let ?e2 = "e\<lparr>roundtrips := Suc (Suc (roundtrips e))\<rparr>"
  from assms(1) obtain d1 d2 g where
    upd: "set_run i (take_run workerId) ?e1 (worker_session now d) = Inr ((), d1)"
    and ins: "insert_started (rw_tenant_id row) i ?e2 (worker_session now d1) = Inr ((), d2)"
    and rest: "decode_definition (wr_definition w) = Some g" "x = Some (row, g)" "se_db s' = d2"
    by (auto simp: claim_row_def io_bind_eq_Inr query_Inr next_session io_return_def io_throw_def split: option.splits)
  have "d1 = update_runs (\<lambda>r. rw_id r = i) (take_run workerId now) d"
    using upd assms(2) by (auto simp: set_run_def as_uuid_Inr worker_session_def)
  with insert_started_result [OF ins] assms(2-4) rest show ?thesis
    by (simp add: with_claim_def)
qed

lemma claim_body_completed:
  assumes "claim_body i workerId (e, worker_session now d) = (Inr (Some (row, g)), (e', s'))"
    and "parse_uuid e i = Some i" and "\<forall>r \<in> set (db_runs d). parse_uuid e (rw_tenant_id r) = Some (rw_tenant_id r)"
  shows "row \<in> set (db_runs d)" and "rw_id row = i" and "claimable now row"
    and "\<exists>w \<in> set (db_workflows d). wr_id w = rw_workflow_id row \<and> decode_definition (wr_definition w) = Some g"
    and "se_db s' = with_claim workerId now row d"
proof -
  let ?s = "worker_session now d" and ?e1 = "e\<lparr>roundtrips := Suc (roundtrips e)\<rparr>"
  from assms(1) obtain rows e1 s1 where
    sel: "query [(Select, T_runs), (Select, T_workflows), (Update, T_runs)] (select_claim i) (e, ?s) = (Inr rows, (e1, s1))"
    and rest: "(case rows of [] \<Rightarrow> io_return None | (row, workflow) # _ \<Rightarrow> claim_row i workerId row workflow) (e1, s1) =
      (Inr (Some (row, g)), (e', s'))"
    unfolding claim_body_def io_bind_eq_Inr by auto
  then obtain row' w rest' where rows: "rows = (row', w) # rest'"
    by (cases rows) (auto simp: io_return_def)
  from sel have s1: "s1 = ?s" "parse_uuid e1 = parse_uuid e" "select_claim i ?e1 ?s = Inr (rows, d)"
    by (auto simp: query_Inr select_claim_def as_uuid_Inr worker_session_def)
  then have "(row', w) \<in> set [(r, w). r \<leftarrow> db_runs d, rw_id r = i \<and> claimable now r, w \<leftarrow> db_workflows d, wr_id w = rw_workflow_id r]"
    using assms(2) unfolding rows by (simp add: select_claim_def as_uuid_Inr worker_session_def cong: if_cong)
  then have found: "row' \<in> set (db_runs d)" "rw_id row' = i" "claimable now row'" "w \<in> set (db_workflows d)"
      "wr_id w = rw_workflow_id row'"
    by auto
  with claim_row_completed [of i workerId row' w e1 now d] rest rows s1 assms(2,3)
  have "row = row'" "decode_definition (wr_definition w) = Some g" "se_db s' = with_claim workerId now row' d"
    by auto
  with found show "row \<in> set (db_runs d)" and "rw_id row = i" and "claimable now row"
    and "\<exists>w \<in> set (db_workflows d). wr_id w = rw_workflow_id row \<and> decode_definition (wr_definition w) = Some g"
    and "se_db s' = with_claim workerId now row d"
    by auto
qed


lemma env_keeps_go_transaction [env_rules]:
  assumes "env_keeps body"
  shows "env_keeps (go_transaction body)"
proof -
  have rollback: "env_keeps deferred_rollback"
    unfolding deferred_rollback_def by (intro env_rules)
  have commit: "env_keeps (go_commit x d)" for x :: "'a option" and d
    unfolding go_commit_def by (intro env_rules) (auto split: db_fate.splits intro: env_rules)
  have start: "env_keeps (io_bind begin_transaction (\<lambda>_. body))"
    unfolding begin_transaction_def by (intro env_rules assms)
  show ?thesis
    unfolding env_keeps_def
  proof
    fix w :: "pg world"
    obtain e p where w: "w = (e, p)" by (rule prod.exhaust)
    obtain y e1 s where run: "io_bind begin_transaction (\<lambda>_. body) (e, open_session p) = (y, (e1, s))"
      using prod_cases3 by blast
    note first = env_keepsD [OF start run]
    have "env_keeps (io_bind deferred_rollback (\<lambda>_. io_throw err :: (pg, 'a option) io))"
        "env_keeps (io_bind deferred_rollback (\<lambda>_. io_return None :: (pg, 'a option) io))" for err
      by (intro env_rules rollback)+
    then show "same_sources (fst w) (fst (snd (go_transaction body w)))"
      using run first commit
      by (auto simp: w go_transaction_def env_keeps_at split: sum.splits option.splits)
  qed
qed

lemma env_keeps_claim_run: "env_keeps (claim i workerId)"
  unfolding claim_def in_db_def claim_body_def claim_row_def count_worker_def
  by (intro env_rules)

lemma ledger_ok_claim:
  assumes "ledger_ok cn t" and "row \<in> set (db_runs (wt_db t))"
  shows "ledger_ok cn (t\<lparr>wt_db := with_claim workerId now row (wt_db t)\<rparr>) \<and>
    grows (wt_db t) (with_claim workerId now row (wt_db t))"
proof -
  let ?d1 = "update_runs (\<lambda>r. rw_id r = rw_id row) (take_run workerId now) (wt_db t)"
  let ?t1 = "t\<lparr>wt_db := ?d1\<rparr>"
  let ?event = "\<lambda>y text. with_event (rw_tenant_id row) (rw_id row) y text None now"
  let ?t2 = "?t1\<lparr>wt_db := ?event Ev_leased ''Worker lease acquired'' ?d1\<rparr>"
  have refs: "(rw_tenant_id row, rw_id row) \<in> run_refs (wt_db t)"
    using assms(2) by (auto simp: run_refs_def)
  have 1: "ledger_ok cn ?t1 \<and> grows (wt_db t) ?d1"
    using assms(1) by (intro ledger_ok_update) (auto simp: take_run_def ledger_ok_def approved_ok_def)
  moreover have refs1: "run_refs ?d1 = run_refs (wt_db t)"
    using db_ok_update(2) [of cn "wt_db t" "take_run workerId now"] assms(1)
    by (simp add: ledger_ok_def schema_ok_def take_run_def)
  ultimately have 2: "ledger_ok cn ?t2 \<and> grows ?d1 (wt_db ?t2)"
    using ledger_ok_event [of cn ?t1 "rw_tenant_id row" "rw_id row" Ev_leased] refs by simp
  then have "ledger_ok cn (?t2\<lparr>wt_db := ?event Ev_started ''Worker execution started'' (wt_db ?t2)\<rparr>) \<and>
      grows (wt_db ?t2) (?event Ev_started ''Worker execution started'' (wt_db ?t2))"
    using ledger_ok_event [of cn ?t2 "rw_tenant_id row" "rw_id row" Ev_started] refs refs1 by simp
  with 1 2 show ?thesis
    unfolding with_claim_def by (auto intro: grows_trans)
qed

lemma claim_keeps:
  assumes inv: "worker_inv cn (e, s)" and cn: "cn i = Some i" and run: "claim i workerId (e, s) = (r, (e', s'))"
  shows "worker_inv cn (e', s') \<and> worker_rely (e, s) (e', s') \<and>
    (\<forall>run. r = Inr (Some run) \<longrightarrow> serves run (lr_currentStep run) (e', s'))"
proof -
  have sources: "same_sources e e'"
    using env_keepsD [OF env_keeps_claim_run run] .
  let ?p = "\<lparr>pg_role = DarWorker, pg_db = db_of s\<rparr>" and ?now = "clock e (ticks e)"
  obtain y e1 p1 where tx: "go_transaction (claim_body i workerId) (e, ?p) = (y, (e1, p1))"
    using prod_cases3 by blast
  have session: "(open_session ?p)\<lparr>se_now := ?now\<rparr> = worker_session ?now (db_of s)"
    by (simp add: open_session_def worker_session_def)
  from run tx have result: "db_of s' = pg_db p1" "wk_tables s' = (wk_tables s)\<lparr>wt_db := pg_db p1\<rparr>"
      "r = Inr (Some lr) \<Longrightarrow> \<exists>row g. y = Inr (Some (row, g)) \<and> lr_id lr = i \<and> lr_tenantId lr = rw_tenant_id row \<and>
        lr_currentStep lr = rw_current_step row \<and> lr_definition lr = g" for lr
    by (auto simp: claim_def in_db_def count_worker_def io_defs split: sum.splits option.splits if_splits)
  from tx show ?thesis
  proof (cases rule: go_transaction_cases)
    case left
    then have "wk_tables s' = wk_tables s" using result(2) by simp
    with worker_inv_sources [OF inv sources this] left(2) result(3) show ?thesis by blast
  next
    case (committed e2 x e3 s3)
    obtain row g where x: "x = (row, g)" by (rule prod.exhaust)
    have ok: "ledger_ok cn (wk_tables s)" "parse_uuid e2 = cn"
        "\<forall>r \<in> set (db_runs (db_of s)). cn (rw_tenant_id r) = Some (rw_tenant_id r)"
      using inv committed(2)
      by (auto simp: worker_inv_def same_sources_def ledger_ok_def schema_ok_def db_ok_def runs_ok_def)
    with claim_body_completed [of i workerId e2 ?now "db_of s" row g e3 s3] committed(1) cn
    have row: "row \<in> set (db_runs (db_of s))" "rw_id row = i"
        "\<exists>w \<in> set (db_workflows (db_of s)). wr_id w = rw_workflow_id row \<and> decode_definition (wr_definition w) = Some g"
        "se_db s3 = with_claim workerId ?now row (db_of s)"
      by (simp_all add: session x)
    have tables: "wk_tables s' = (wk_tables s)\<lparr>wt_db := with_claim workerId ?now row (db_of s)\<rparr>"
      using result(2) committed(3) row(4) by simp
    from ledger_ok_claim [OF ok(1) row(1), of workerId ?now]
    have new: "ledger_ok cn (wk_tables s')" "grows (db_of s) (db_of s')"
      by (simp_all add: tables)
    then have keeps: "worker_inv cn (e', s')" "worker_rely (e, s) (e', s')"
      using inv sources by (auto simp: worker_inv_def worker_rely_def same_sources_def)
    have "executes (db_of s) i (rw_tenant_id row) g"
      using row(1-3) by (force simp: executes_def run_keys_def)
    moreover have "approvals_before (gd_steps g) (rw_current_step row) \<le> approvals_of (db_of s) i"
    proof -
      from row(3) obtain w where "w \<in> set (db_workflows (db_of s))" "wr_id w = rw_workflow_id row"
          "steps_of (wr_definition w) = gd_steps g"
        by (auto simp: steps_of_def)
      moreover have "step_limit (db_of s) row (rw_current_step row)"
        using ok(1) row(1) by (simp add: ledger_ok_def approved_ok_def)
      ultimately show ?thesis
        using row(2) unfolding step_limit_def by metis
    qed
    ultimately have here: "serves lr (lr_currentStep lr) (e, s)"
      if "lr_id lr = i" "lr_tenantId lr = rw_tenant_id row" "lr_currentStep lr = rw_current_step row" "lr_definition lr = g" for lr
      using that by (simp add: serves_def)
    have "serves lr (lr_currentStep lr) (e, s)" if "r = Inr (Some lr)" for lr
    proof -
      from result(3) [OF that] obtain row' g' where "y = Inr (Some (row', g'))" "lr_id lr = i"
          "lr_tenantId lr = rw_tenant_id row'" "lr_currentStep lr = rw_current_step row'" "lr_definition lr = g'" by blast
      with committed(4) x here show ?thesis by simp
    qed
    then have "serves lr (lr_currentStep lr) (e', s')" if "r = Inr (Some lr)" for lr
      using serves_stable [OF _ keeps(2)] that by blast
    with keeps show ?thesis by simp
  qed
qed


lemma execute_fine:
  assumes "serves run (lr_currentStep run) w"
  shows "workers.meets cn (\<lambda>_ _. True) (execute cfg run) w"
  unfolding execute_def
  using execute_from_fine [OF refl assms] fineI [OF upholds_endings(2) assms] by simp

lemma process_fine:
  fixes cfg :: "'x worker_config"
  assumes "\<And>i. decode_queued cfg data = Some i \<Longrightarrow> cn i = Some i"
  shows "workers.fine cn (process cfg workerId data) w"
proof (cases "decode_queued cfg data")
  case None
  then show ?thesis by (simp add: process_def workers.fine_Done)
next
  case (Some i)
  have "workers.meets cn (\<lambda>r w. \<forall>run. r = Some run \<longrightarrow> serves run (lr_currentStep run) w) (atomic (claim i workerId)) w"
  proof (rule workers.meets_atomic)
    fix w' r w''
    assume "worker_inv cn w'" "claim i workerId w' = (r, w'')"
    then show "worker_inv cn w'' \<and> worker_rely w' w'' \<and>
        (\<forall>x. r = Inr x \<longrightarrow> (\<forall>run. x = Some run \<longrightarrow> serves run (lr_currentStep run) w''))"
      using claim_keeps [of cn "fst w'" "snd w'" i workerId r "fst w''" "snd w''"] assms [OF Some] by simp
  qed
  then have "workers.meets cn (\<lambda>_ _. True) (and_then (atomic (claim i workerId)) (\<lambda>claimed.
      case claimed of
        None \<Rightarrow> Done (Inr Processed)
      | Some run \<Rightarrow> and_then (execute cfg run) (\<lambda>_. Done (Inr Processed)))) w"
  proof (rule workers.meets_then)
    fix x and w' :: "'x worker world"
    assume "\<forall>run. x = Some run \<longrightarrow> serves run (lr_currentStep run) w'"
    then show "workers.meets cn (\<lambda>_ _. True) (case x of
        None \<Rightarrow> Done (Inr Processed)
      | Some run \<Rightarrow> and_then (execute cfg run) (\<lambda>_. Done (Inr Processed))) w'"
      by (cases x) (auto intro: workers.returned workers.meets_then [OF execute_fine])
  qed
  then show ?thesis
    by (auto simp: process_def Some workers.fine_Done) (simp add: workers.fine_def)
qed

section \<open>The whole system\<close>

text \<open>
  A delivery carries an outbox row that is in the database, as the publisher encodes it; any row may be delivered any
  number of times, to any worker. \<open>outside\<close> lets the world the workers call change on its own.
\<close>

inductive runtime_step ::
  "'x worker_config \<Rightarrow> app_config \<Rightarrow> ('x worker, processed) prog list \<times> 'x worker world \<Rightarrow>
   ('x worker, processed) prog list \<times> 'x worker world \<Rightarrow> bool" for cfg cf where
  deliver: "row \<in> set (db_outbox (db_of s)) \<Longrightarrow>
    wc_unmarshal cfg data = Some (JObj (snd (encode (to_message row)))) \<Longrightarrow>
    runtime_step cfg cf (ts, (e, s)) (ts @ [process cfg workerId data], (e, s))"
| work: "interleave (ts, w) (ts', w') \<Longrightarrow> runtime_step cfg cf (ts, w) (ts', w')"
| system: "system_step cf (e, db_of s) (e', d') \<Longrightarrow>
    runtime_step cfg cf (ts, (e, s)) (ts, (e', s\<lparr>wk_tables := (wk_tables s)\<lparr>wt_db := d'\<rparr>\<rparr>))"
| outside: "runtime_step cfg cf (ts, (e, s)) (ts, (e, s\<lparr>wk_outside := x\<rparr>))"

definition runtime_ok ::
  "(string \<Rightarrow> uuid option) \<Rightarrow> ('x worker, processed) prog list \<times> 'x worker world \<Rightarrow> bool" where
  "runtime_ok cn = (\<lambda>(ts, w). worker_inv cn w \<and> (\<forall>p \<in> set ts. workers.fine cn p w))"

lemma delivered_run:
  assumes "ledger_ok cn t" and "row \<in> set (db_outbox (wt_db t))"
    and "wc_unmarshal cfg data = Some (JObj (snd (encode (to_message row))))" and "decode_queued cfg data = Some i"
  shows "cn i = Some i"
proof -
  have ok: "ob_payload row = [(''runId'', JStr (ob_run_id row))]" "(ob_tenant_id row, ob_run_id row) \<in> run_refs (wt_db t)"
    using assms(1,2) by (auto simp: ledger_ok_def schema_ok_def db_ok_def outbox_ok_def)
  then have "i = ob_run_id row"
    using assms(3,4)
    by (simp add: decode_queued_def encode_def to_message_def with_tenantId_def equal_fold_def)
  then show ?thesis
    using ok(2) assms(1) by (auto simp: ledger_ok_def schema_ok_def db_ok_def runs_ok_def run_refs_def)
qed

lemma runtime_step_ok:
  assumes "runtime_step cfg cf x y" and "runtime_ok cn x"
  shows "runtime_ok cn y"
  using assms(1)
proof cases
  case (deliver row s data ts e workerId)
  with assms(2) have "worker_inv cn (e, s)" by (simp add: runtime_ok_def)
  then have "workers.fine cn (process cfg workerId data) (e, s)"
    using delivered_run [OF _ deliver(3,4)] by (intro process_fine) (simp add: worker_inv_def)
  with assms(2) deliver show ?thesis by (auto simp: runtime_ok_def)
next
  case (work ts w ts' w')
  with assms(2) workers.interleave_keeps [OF work(3)] show ?thesis
    by (auto simp: runtime_ok_def)
next
  case (system e s e' d' ts)
  let ?w' = "(e', s\<lparr>wk_tables := (wk_tables s)\<lparr>wt_db := d'\<rparr>\<rparr>)"
  have inv: "worker_inv cn (e, s)" and fine: "\<forall>p \<in> set ts. workers.fine cn p (e, s)"
    using assms(2) system(1) by (simp_all add: runtime_ok_def)
  then have "schema_ok cn (db_of s)" "parse_uuid e = cn" "\<forall>n. cn (uuids e n) = Some (uuids e n)" "approved_ok (db_of s)"
    by (simp_all add: worker_inv_def ledger_ok_def)
  from system_step_approved [OF system(3) this] have new: "same_sources e e'" "schema_ok cn d'" "approved_ok d'"
      "grows (db_of s) d'" by auto
  with inv have "worker_inv cn ?w'" "worker_rely (e, s) ?w'"
    using ledger_ok_db [of cn "wk_tables s" d'] by (auto simp: worker_inv_def worker_rely_def same_sources_def)
  moreover from this fine have "\<forall>p \<in> set ts. workers.fine cn p ?w'"
    using workers.fine_stable by blast
  ultimately show ?thesis
    by (simp add: runtime_ok_def system(2))
next
  case (outside ts e s x)
  then have "worker_inv cn (e, s\<lparr>wk_outside := x\<rparr>) \<and> worker_rely (e, s) (e, s\<lparr>wk_outside := x\<rparr>)"
    using assms(2) by (intro worker_inv_sources) (simp_all add: runtime_ok_def)
  moreover from this assms(2) outside(1) have "\<forall>p \<in> set ts. workers.fine cn p (e, s\<lparr>wk_outside := x\<rparr>)"
    using workers.fine_stable unfolding runtime_ok_def by blast
  ultimately show ?thesis
    by (simp add: runtime_ok_def outside(2))
qed


section \<open>Workflows as the worker reads them\<close>

lemma to_lower_letters [simp]:
  "to_lower CHR ''a'' = CHR ''a''" "to_lower CHR ''c'' = CHR ''c''" "to_lower CHR ''d'' = CHR ''d''"
  "to_lower CHR ''e'' = CHR ''e''" "to_lower CHR ''f'' = CHR ''f''" "to_lower CHR ''h'' = CHR ''h''"
  "to_lower CHR ''i'' = CHR ''i''" "to_lower CHR ''j'' = CHR ''j''" "to_lower CHR ''k'' = CHR ''k''"
  "to_lower CHR ''l'' = CHR ''l''" "to_lower CHR ''m'' = CHR ''m''" "to_lower CHR ''n'' = CHR ''n''"
  "to_lower CHR ''o'' = CHR ''o''" "to_lower CHR ''p'' = CHR ''p''" "to_lower CHR ''r'' = CHR ''r''"
  "to_lower CHR ''s'' = CHR ''s''" "to_lower CHR ''t'' = CHR ''t''" "to_lower CHR ''u'' = CHR ''u''"
  "to_lower CHR ''v'' = CHR ''v''" "to_lower CHR ''C'' = CHR ''c''" "to_lower CHR ''E'' = CHR ''e''"
  "to_lower CHR ''H'' = CHR ''h''" "to_lower CHR ''I'' = CHR ''i''" "to_lower CHR ''T'' = CHR ''t''"
  "to_lower CHR ''V'' = CHR ''v''"
  by code_simp+

lemma list_member_strings: "those (map go_string (map JStr hosts)) = Some hosts"
  by (induction hosts) simp_all

lemma those_Some [simp]: "those (map Some xs) = Some xs"
  by (induction xs) simp_all

lemma decode_definition_json:
  "decode_definition (definition_json wd) =
     Some \<lparr>gd_schemaVersion = wf_schemaVersion wd, gd_allowedHosts = wf_allowedHosts wd,
       gd_steps = map step_json (wf_steps wd)\<rparr>"
  using list_member_strings [of "wf_allowedHosts wd"] those_Some [of "map step_json (wf_steps wd)"]
  by (simp add: decode_definition_def definition_json_def equal_fold_def del: map_map)

lemma decode_step_json:
  "decode_step (step_json st) = Some (case st of
     Model p t \<Rightarrow> \<lparr>gs_kind = ''model'', gs_provider = provider_name p, gs_promptTemplate = t, gs_operation = [], gs_tool = []\<rparr>
   | Transform op i \<Rightarrow> \<lparr>gs_kind = ''transform'', gs_provider = [], gs_promptTemplate = [], gs_operation = operation_name op, gs_tool = []\<rparr>
   | Tool tool b \<Rightarrow> \<lparr>gs_kind = ''tool'', gs_provider = [], gs_promptTemplate = [], gs_operation = [], gs_tool = tool_id tool\<rparr>
   | Approval r \<Rightarrow> \<lparr>gs_kind = ''approval'', gs_provider = [], gs_promptTemplate = [], gs_operation = [], gs_tool = []\<rparr>)"
  by (cases st) (simp_all add: decode_step_def equal_fold_def)

lemma needs_approval_json: "needs_approval (step_json st) \<longleftrightarrow> is_approval st"
  unfolding needs_approval_def decode_step_json by (cases st) simp_all

lemma writes_ticket_json: "writes_ticket (step_json st) \<longleftrightarrow> (\<exists>b. st = Tool Mock_ticket_write b)"
proof (cases st)
  case (Tool tool b)
  then show ?thesis unfolding writes_ticket_def decode_step_json by (cases tool) simp_all
qed (simp_all add: writes_ticket_def decode_step_json del: step_json.simps)

lemma approvals_before_json:
  "approvals_before (map step_json steps) n = length (filter is_approval (take n steps))"
proof -
  have "filter needs_approval (map step_json xs) = map step_json (filter is_approval xs)" for xs
    by (induction xs) (simp_all add: needs_approval_json)
  then show ?thesis
    by (simp add: approvals_before_def take_map)
qed

lemma approval_needed:
  assumes "valid_definition wd" and "n < length (wf_steps wd)" and "wf_steps wd ! n = Tool tool True"
  shows "1 \<le> length (filter is_approval (take n (wf_steps wd)))"
proof -
  have "superRefine_issues (wf_steps wd) = []"
    using assms(1) by (simp add: valid_definition_def)
  with assms(2,3) have "0 < n" and "is_approval (wf_steps wd ! (n - 1))"
    by (auto simp: superRefine_issues_def filter_empty_conv)
  moreover have "wf_steps wd ! (n - 1) \<in> set (take n (wf_steps wd))"
    using \<open>0 < n\<close> assms(2) by (simp add: in_set_conv_nth) (intro exI [of _ "n - 1"], simp)
  ultimately have "filter is_approval (take n (wf_steps wd)) \<noteq> []"
    by (auto simp: filter_empty_conv)
  then show ?thesis by (simp add: Suc_le_eq)
qed

text \<open>
  C1. Effects are committed once and only with the approvals asked for. Start with consistent tables, no run under way and an empty
  ledger. Let outbox messages be delivered any number of times to any number of workers, which
  work at the same time, action by action, may stop anywhere, go on after their lease has
  expired, and meet every kind of failed round trip, while requests are served, messages published and
  tenants provisioned. Then the ledger never has two effects of one step of a run. Every effect belongs
  to a run of its tenant, to a step of the run's workflow that writes the ticket, and the run has
  been approved at least as often as the workflow has approval steps before that step; at
  least once when the step is declared to have a side effect.
\<close>
theorem effects_once_and_approved:
  assumes "(runtime_step cfg cf)\<^sup>*\<^sup>* ([], (e, s)) (ts, (e', s'))"
    and "schema_ok (parse_uuid e) (db_of s)" and "\<forall>r \<in> set (db_runs (db_of s)). rw_current_step r = 0"
    and "wt_effects (wk_tables s) = []" and "\<forall>n. parse_uuid e (uuids e n) = Some (uuids e n)"
  shows "distinct (map (\<lambda>x. (ef_tenant_id x, ef_run_id x, ef_step_index x)) (wt_effects (wk_tables s'))) \<and>
    (\<forall>x \<in> set (wt_effects (wk_tables s')). \<exists>r \<in> set (db_runs (db_of s')). \<exists>w \<in> set (db_workflows (db_of s')). \<exists>wd b.
       rw_id r = ef_run_id x \<and> rw_tenant_id r = ef_tenant_id x \<and> wr_id w = rw_workflow_id r \<and>
       wr_definition w = definition_json wd \<and> valid_definition wd \<and> ef_step_index x < length (wf_steps wd) \<and>
       wf_steps wd ! ef_step_index x = Tool Mock_ticket_write b \<and>
       length (filter is_approval (take (ef_step_index x) (wf_steps wd))) \<le> approvals_of (db_of s') (rw_id r) \<and>
       (b \<longrightarrow> 1 \<le> approvals_of (db_of s') (rw_id r)))"
proof -
  let ?cn = "parse_uuid e" and ?effects = "wt_effects (wk_tables s')"
  have "runtime_ok ?cn ([] :: ('a worker, processed) prog list, (e, s))"
    using assms(2-5)
    by (simp add: runtime_ok_def worker_inv_def ledger_ok_def approved_ok_def step_limit_def)
  with assms(1) have "runtime_ok ?cn (ts, (e', s'))"
    by (induction rule: rtranclp_induct) (auto intro: runtime_step_ok)
  then have ok: "ledger_ok ?cn (wk_tables s')"
    by (simp add: runtime_ok_def worker_inv_def)
  let ?key = "\<lambda>x. (ef_tenant_id x, ef_run_id x, ef_step_index x)"
  have "map (\<lambda>x. (ef_tenant_id x, ef_effect_key x)) ?effects = map ((\<lambda>(t, i, n). (t, effect_key i n)) \<circ> ?key) ?effects"
    using ok by (auto simp: ledger_ok_def effect_ok_def)
  with ok have "distinct (map (\<lambda>(t, i, n). (t, effect_key i n)) (map ?key ?effects))"
    by (simp add: ledger_ok_def)
  then have "distinct (map ?key ?effects)"
    by (simp only: distinct_map)
  moreover have "\<exists>r \<in> set (db_runs (db_of s')). \<exists>w \<in> set (db_workflows (db_of s')). \<exists>wd b.
       rw_id r = ef_run_id x \<and> rw_tenant_id r = ef_tenant_id x \<and> wr_id w = rw_workflow_id r \<and>
       wr_definition w = definition_json wd \<and> valid_definition wd \<and> ef_step_index x < length (wf_steps wd) \<and>
       wf_steps wd ! ef_step_index x = Tool Mock_ticket_write b \<and>
       length (filter is_approval (take (ef_step_index x) (wf_steps wd))) \<le> approvals_of (db_of s') (rw_id r) \<and>
       (b \<longrightarrow> 1 \<le> approvals_of (db_of s') (rw_id r))" if "x \<in> set ?effects" for x
  proof -
    from ok that have "effect_ok (db_of s') x" by (simp add: ledger_ok_def)
    then obtain g w r where w: "w \<in> set (db_workflows (db_of s'))" "decode_definition (wr_definition w) = Some g"
      and r: "r \<in> set (db_runs (db_of s'))" "rw_id r = ef_run_id x" "rw_tenant_id r = ef_tenant_id x" "wr_id w = rw_workflow_id r"
      and at: "ef_step_index x < length (gd_steps g)" "writes_ticket (gd_steps g ! ef_step_index x)"
        "approvals_before (gd_steps g) (ef_step_index x) \<le> approvals_of (db_of s') (ef_run_id x)"
      by (auto simp: effect_ok_def executes_def run_keys_def)
    from ok w(1) obtain wd where wd: "valid_definition wd" "wr_definition w = definition_json wd"
      by (auto simp: ledger_ok_def schema_ok_def definitions_ok_def)
    with w(2) have g: "gd_steps g = map step_json (wf_steps wd)"
      by (auto simp: decode_definition_json)
    with at obtain b where "wf_steps wd ! ef_step_index x = Tool Mock_ticket_write b" "ef_step_index x < length (wf_steps wd)"
        "length (filter is_approval (take (ef_step_index x) (wf_steps wd))) \<le> approvals_of (db_of s') (rw_id r)"
      using r(2) by (auto simp: writes_ticket_json approvals_before_json)
    moreover from this approval_needed [OF wd(1)] have "b \<longrightarrow> 1 \<le> approvals_of (db_of s') (rw_id r)"
      by (cases b) (auto intro: order.trans)
    ultimately show ?thesis
      using w(1) wd r by blast
  qed
  ultimately show ?thesis by blast
qed

end
