(* ===== verification/PostgresBranches.thy ===== *)
theory PostgresBranches
  imports ControlPlane
begin

text \<open>
  What \<open>createRun\<close> answers on PostgreSQL when the round trips go through: each branch of the
  method, in its order, and the status the control plane replies with.
\<close>

section \<open>Transactions over a working link\<close>

definition link_up :: "env \<Rightarrow> bool" where
  "link_up e \<longleftrightarrow> (\<forall>n. fates e n = Performed)"

lemma link_up_sources: "same_sources e e' \<Longrightarrow> link_up e' \<longleftrightarrow> link_up e"
  by (simp add: link_up_def same_sources_def)

lemma query_link_up:
  assumes "link_up e" and "list_all (granted (se_role s)) rights"
    and "q (e\<lparr>roundtrips := Suc (roundtrips e)\<rparr>) s = Inr (x, d)"
  shows "query rights q (e, s) = (Inr x, (e\<lparr>roundtrips := Suc (roundtrips e)\<rparr>, s\<lparr>se_db := d\<rparr>))"
  using assms by (simp add: link_up_def query_performed Let_def)

lemma withTenant_link_up:
  assumes "link_up e" and "env_keeps body"
    and "body (e\<lparr>ticks := Suc (ticks e), roundtrips := roundtrips e + 3\<rparr>, tenant_session p t (clock e (ticks e)))
      = (r, (e2, s))"
  shows "withTenant t body (e, p) =
    (r, (e2\<lparr>roundtrips := Suc (roundtrips e2)\<rparr>, case r of Inl err \<Rightarrow> p | Inr x \<Rightarrow> p\<lparr>pg_db := se_db s\<rparr>))"
proof -
  have "fates e2 = fates e"
    using env_keepsD [OF assms(2,3)] by (simp add: same_sources_def)
  with assms(1,3) show ?thesis
    by (cases r)
       (simp_all add: link_up_def withTenant_def set_tenant_def pg_transaction_def io_bind_def roundtrip_eq
         begin_transaction_def next_clock_def io_modify_def pg_commit_def next_fate_def io_return_def
         rollback_and_rethrow_def io_throw_def open_session_def tenant_session_def numeral_3_eq_3)
qed

text \<open>A session of the control plane for a tenant sees the rows of that tenant.\<close>

lemma tenant_session_visible:
  assumes "parse_uuid e t = Some t" and "t \<noteq> []" and "pg_role p = DarControl"
  shows "visible e ((tenant_session p t now)\<lparr>se_db := d\<rparr>) u \<longleftrightarrow> u = t"
    and "visible e (tenant_session p t now) u \<longleftrightarrow> u = t"
  using assms by (auto simp: visible_def)

lemma tenant_session_db [simp]: "(tenant_session p t now)\<lparr>se_db := pg_db p\<rparr> = tenant_session p t now"
  by (simp add: tenant_session_def)

section \<open>The branches of createRun\<close>

definition stored_workflow_for :: "(string \<Rightarrow> uuid option) \<Rightarrow> db \<Rightarrow> principal \<Rightarrow> run_request \<Rightarrow> bool" where
  "stored_workflow_for cn d c rq \<longleftrightarrow> (\<exists>w \<in> set (db_workflows d).
     cn (rr_workflowId rq) = Some (wr_id w) \<and> wr_tenant_id w = pr_tenantId c)"

lemma createRun_body_refused:
  fixes now :: timestamp
  assumes e: "link_up e" and T: "parse_uuid e (pr_tenantId c) = Some (pr_tenantId c)" "pr_tenantId c \<noteq> []"
    and role: "pg_role p = DarControl" and W: "parse_uuid e (rr_workflowId rq) \<noteq> None"
    and key: "\<forall>row \<in> set (db_runs (pg_db p)). \<not> has_key c k row"
  defines "s \<equiv> tenant_session p (pr_tenantId c) now"
    and "limits \<equiv> filter (\<lambda>l. lm_tenant_id l = pr_tenantId c) (db_limits (pg_db p))"
  shows "limits = [] \<Longrightarrow> fst (createRun_body c rq k (e, s)) = Inl (Error ''Tenant runtime limits missing'')"
    and "limits = l # ls \<Longrightarrow> lm_max_active_runs l \<le> active_count (pg_db p) (pr_tenantId c) \<Longrightarrow>
      fst (createRun_body c rq k (e, s)) = Inl (Error ''Active run quota exceeded'')"
    and "limits = l # ls \<Longrightarrow> active_count (pg_db p) (pr_tenantId c) < lm_max_active_runs l \<Longrightarrow>
      lm_max_runs_per_day l \<le> day_count (pg_db p) (pr_tenantId c) now \<Longrightarrow>
      fst (createRun_body c rq k (e, s)) = Inl (Error ''Daily run quota exceeded'')"
    and "limits = l # ls \<Longrightarrow> active_count (pg_db p) (pr_tenantId c) < lm_max_active_runs l \<Longrightarrow>
      day_count (pg_db p) (pr_tenantId c) now < lm_max_runs_per_day l \<Longrightarrow>
      \<not> stored_workflow_for (parse_uuid e) (pg_db p) c rq \<Longrightarrow>
      fst (createRun_body c rq k (e, s)) = Inl (Error ''Workflow not found'')"
proof -
  let ?e = "\<lambda>n. e\<lparr>roundtrips := n\<rparr>"
  have seen [simp]: "visible e s u \<longleftrightarrow> u = pr_tenantId c" for u
    using tenant_session_visible [of e "pr_tenantId c" p] T role by (simp add: s_def)
  have s [simp]: "se_db s = pg_db p" "se_role s = DarControl" "s\<lparr>se_db := pg_db p\<rparr> = s" "se_now s = now"
    by (simp_all add: s_def role)
  have conn [simp]: "fates e n = Performed" for n
    using e by (simp add: link_up_def)
  have none: "filter (\<lambda>r. rw_tenant_id r = pr_tenantId c \<and> rw_idempotency_key r = k) (db_runs (pg_db p)) = []"
    using key by (auto simp: filter_empty_conv has_key_def)
  have usage: "select_usage (pr_tenantId c) (?e n) s =
      Inr ((active_count (pg_db p) (pr_tenantId c), day_count (pg_db p) (pr_tenantId c) now), pg_db p)" for n
    using T by (auto simp: select_usage_def as_uuid_def active_count_def day_count_def Let_def
        intro!: arg_cong [where f = length] filter_cong)
  note eval = createRun_body_def io_bind_def query_performed Let_def select_runs_by_key_def as_uuid_def
    select_limits_def T none usage limits_def [symmetric] io_throw_def
  show "limits = [] \<Longrightarrow> fst (createRun_body c rq k (e, s)) = Inl (Error ''Tenant runtime limits missing'')"
    by (simp add: eval)
  show "fst (createRun_body c rq k (e, s)) = Inl (Error ''Active run quota exceeded'')"
    if "limits = l # ls" "lm_max_active_runs l \<le> active_count (pg_db p) (pr_tenantId c)"
    using that by (simp add: eval)
  show "fst (createRun_body c rq k (e, s)) = Inl (Error ''Daily run quota exceeded'')"
    if "limits = l # ls" "active_count (pg_db p) (pr_tenantId c) < lm_max_active_runs l"
      "lm_max_runs_per_day l \<le> day_count (pg_db p) (pr_tenantId c) now"
    using that by (simp add: eval)
  have "select_workflows (rr_workflowId rq) (pr_tenantId c) (?e n) s = Inr ([], pg_db p)"
    if "\<not> stored_workflow_for (parse_uuid e) (pg_db p) c rq" for n
    using that W T
    by (auto simp: select_workflows_def as_uuid_def stored_workflow_for_def filter_empty_conv)
  then show "fst (createRun_body c rq k (e, s)) = Inl (Error ''Workflow not found'')"
    if "limits = l # ls" "active_count (pg_db p) (pr_tenantId c) < lm_max_active_runs l"
      "day_count (pg_db p) (pr_tenantId c) now < lm_max_runs_per_day l"
      "\<not> stored_workflow_for (parse_uuid e) (pg_db p) c rq"
    using that by (simp add: eval insert_new_run_def)
qed

lemma pg_audit_link_up:
  assumes "link_up e" and "parse_uuid e (pr_tenantId c) = Some (pr_tenantId c)"
    and "parse_uuid e i = Some i" and "visible e s (pr_tenantId c)" and "se_role s = DarControl"
    and "tenant_exists (se_db s) (pr_tenantId c)"
  shows "\<exists>e' s'. pg_audit c act i (e, s) = (Inr (), (e', s')) \<and> same_sources e e' \<and>
    s' = s\<lparr>se_db := se_db s'\<rparr> \<and> db_events (se_db s') = db_events (se_db s)"
proof -
  let ?ids = "map pn_id (filter (\<lambda>q. pn_tenant_id q = pr_tenantId c \<and> pn_subject q = pr_subject c) (db_principals (se_db s)))"
  let ?pid = "case ?ids of [] \<Rightarrow> None | i # _ \<Rightarrow> Some i"
  have "case ?pid of None \<Rightarrow> True | Some q \<Rightarrow> q \<in> set (map pn_id (db_principals (se_db s)))"
    by (cases ?ids) (auto dest!: map_eq_Cons_D filter_eq_ConsD_set)
  then have ins: "\<exists>d'. insert_audit (pr_tenantId c) ?pid act i (e\<lparr>roundtrips := n\<rparr>) s = Inr ((), d') \<and>
      db_events d' = db_events (se_db s)" for n
    using assms(2-4,6) by (simp add: insert_audit_def as_uuid_def rls_check_def ensure_def Let_def)
  have sel: "query [(Select, T_principals)] (select_principal_ids (pr_tenantId c) (pr_subject c)) (e, s) =
      (Inr ?ids, (e\<lparr>roundtrips := Suc (roundtrips e)\<rparr>, s\<lparr>se_db := se_db s\<rparr>))"
    using assms(1,2,5)
    by (intro query_link_up) (simp_all add: select_principal_ids_def as_uuid_def)
  from ins obtain d' where "insert_audit (pr_tenantId c) ?pid act i
      (e\<lparr>roundtrips := Suc (Suc (roundtrips e))\<rparr>) s = Inr ((), d')" "db_events d' = db_events (se_db s)"
    by blast
  then have "query [(Insert, T_audits)] (insert_audit (pr_tenantId c) ?pid act i)
      (e\<lparr>roundtrips := Suc (roundtrips e)\<rparr>, s) =
      (Inr (), (e\<lparr>roundtrips := Suc (Suc (roundtrips e))\<rparr>, s\<lparr>se_db := d'\<rparr>))"
    using assms(1,5) by (subst query_link_up) (simp_all add: link_up_def)
  with sel \<open>db_events d' = db_events (se_db s)\<close> show ?thesis
    by (simp add: pg_audit_def io_bind_def same_sources_def)
qed

lemma createRun_body_replays:
  assumes e: "link_up e" and T: "parse_uuid e (pr_tenantId c) = Some (pr_tenantId c)" "pr_tenantId c \<noteq> []"
    and role: "pg_role p = DarControl"
    and row: "row \<in> set (db_runs (pg_db p))" "has_key c k row"
    and ids: "\<forall>r \<in> set (db_runs (pg_db p)). parse_uuid e (rw_id r) = Some (rw_id r)"
  shows "\<exists>run. fst (createRun_body c rq k (e, tenant_session p (pr_tenantId c) now)) = Inr (run, True)"
proof -
  let ?s = "tenant_session p (pr_tenantId c) now"
  have [simp]: "visible e ?s u \<longleftrightarrow> u = pr_tenantId c" for u
    using tenant_session_visible [of e "pr_tenantId c" p] T role by simp
  have [simp]: "fates e n = Performed" for n
    using e by (simp add: link_up_def)
  obtain y ys where rows: "filter (\<lambda>r. rw_tenant_id r = pr_tenantId c \<and> rw_idempotency_key r = k)
      (db_runs (pg_db p)) = y # ys"
    using row by (cases "filter (\<lambda>r. rw_tenant_id r = pr_tenantId c \<and> rw_idempotency_key r = k)
      (db_runs (pg_db p))") (auto simp: filter_empty_conv has_key_def)
  then have "parse_uuid e (rw_id y) = Some (rw_id y)"
    using ids filter_eq_ConsD_set [OF rows] by auto
  with rows show ?thesis
    by (simp add: createRun_body_def io_bind_def query_performed Let_def select_runs_by_key_def as_uuid_def T
        role read_first_def readRunInTransaction_def select_events_def toRun_eq io_return_def)
qed

lemma record_new_run_link_up:
  assumes e: "link_up e" and T: "parse_uuid e (pr_tenantId c) = Some (pr_tenantId c)"
    and R: "parse_uuid e (rw_id row) = Some (rw_id row)"
    and s: "visible e s (pr_tenantId c)" "se_role s = DarControl" "se_tenant s = Some (pr_tenantId c)"
      "pr_tenantId c \<noteq> []" "tenant_exists (se_db s) (pr_tenantId c)"
    and row: "row \<in> set (db_runs (se_db s))" "rw_tenant_id row = pr_tenantId c" "rw_state row = Queued"
  shows "\<exists>run. fst (record_new_run c row (e, s)) = Inr (run, False)"
proof -
  let ?t = "pr_tenantId c" and ?i = "rw_id row"
  let ?s1 = "s\<lparr>se_db := with_event ?t ?i Ev_created ''Run queued'' None (se_now s) (se_db s)\<rparr>"
  let ?s2 = "?s1\<lparr>se_db := with_message ?t ?i (se_db ?s1)\<rparr>"
  let ?e = "\<lambda>n. e\<lparr>roundtrips := n\<rparr>"
  have 1: "query [(Insert, T_events)] (insert_event ?t ?i Ev_created ''Run queued'' None) (e, s) =
      (Inr (), (?e (Suc (roundtrips e)), ?s1))"
    using e T R s row
    by (subst query_link_up)
       (auto simp: insert_event_def as_uuid_def rls_check_def ensure_def Let_def with_event_def)
  have 2: "query [(Queue_function, T_outbox)] (queue_run_outbox ?t ?i) (?e (Suc (roundtrips e)), ?s1) =
      (Inr (), (?e (Suc (Suc (roundtrips e))), ?s2))"
    using e T R s row
    by (subst query_link_up)
       (auto simp: link_up_def queue_run_outbox_def as_uuid_def ensure_def Let_def with_message_def
         queued_message_def)
  have "\<exists>e' s'. pg_audit c ''run.created'' ?i (?e (Suc (Suc (roundtrips e))), ?s2) = (Inr (), (e', s')) \<and>
      same_sources (?e (Suc (Suc (roundtrips e)))) e' \<and> s' = ?s2\<lparr>se_db := se_db s'\<rparr> \<and>
      db_events (se_db s') = db_events (se_db ?s2)"
    using e T R s by (intro pg_audit_link_up) (simp_all add: link_up_def)
  then obtain e3 s3 where 3: "pg_audit c ''run.created'' ?i (?e (Suc (Suc (roundtrips e))), ?s2) = (Inr (), (e3, s3))"
    and e3: "same_sources (?e (Suc (Suc (roundtrips e)))) e3" and s3: "s3 = ?s2\<lparr>se_db := se_db s3\<rparr>"
    by blast
  have "link_up e3" "parse_uuid e3 ?t = Some ?t" "parse_uuid e3 ?i = Some ?i"
    using e3 e T R by (auto simp: same_sources_def link_up_def)
  moreover have "se_role s3 = DarControl"
    by (subst s3) (simp add: s(2))
  ultimately have "\<exists>run w. readRunInTransaction ?t row (e3, s3) = (Inr run, w)"
    by (simp add: readRunInTransaction_def io_bind_def link_up_def query_performed Let_def select_events_def
        as_uuid_def toRun_eq io_return_def)
  then obtain run w where "readRunInTransaction ?t row (e3, s3) = (Inr run, w)" by blast
  with 1 2 3 show ?thesis
    by (cases w) (simp add: record_new_run_def io_bind_def io_return_def)
qed

text \<open>What a fresh run needs beside the quotas and its workflow.\<close>

definition insertable :: "env \<Rightarrow> db \<Rightarrow> principal \<Rightarrow> run_request \<Rightarrow> string \<Rightarrow> bool" where
  "insertable e d c rq k \<longleftrightarrow>
     16 \<le> length k \<and> length k \<le> 128 \<and> rr_providerCredentialHandle rq = None \<and>
     uuids e (issued e) \<notin> set (map rw_id (db_runs d)) \<and> tenant_exists d (pr_tenantId c) \<and>
     (\<forall>w \<in> set (db_workflows d). 0 \<le> wr_budget_cents w)"

lemma createRun_body_creates:
  assumes e: "link_up e" and T: "parse_uuid e (pr_tenantId c) = Some (pr_tenantId c)" "pr_tenantId c \<noteq> []"
    and U: "parse_uuid e (uuids e (issued e)) = Some (uuids e (issued e))"
    and role: "pg_role p = DarControl"
    and key: "\<forall>row \<in> set (db_runs (pg_db p)). \<not> has_key c k row"
    and limits: "filter (\<lambda>l. lm_tenant_id l = pr_tenantId c) (db_limits (pg_db p)) = l # ls"
    and quota: "active_count (pg_db p) (pr_tenantId c) < lm_max_active_runs l"
      "day_count (pg_db p) (pr_tenantId c) now < lm_max_runs_per_day l"
    and wf: "stored_workflow_for (parse_uuid e) (pg_db p) c rq" and ins: "insertable e (pg_db p) c rq k"
  shows "\<exists>run. fst (createRun_body c rq k (e, tenant_session p (pr_tenantId c) now)) = Inr (run, False)"
proof -
  let ?s = "tenant_session p (pr_tenantId c) now" and ?t = "pr_tenantId c" and ?d = "pg_db p"
  let ?e = "\<lambda>n. e\<lparr>roundtrips := n\<rparr>" and ?n = "roundtrips e"
  have vis [simp]: "visible e ?s u \<longleftrightarrow> u = ?t" for u
    using tenant_session_visible [of e ?t p] T role by simp
  have conn [simp]: "fates e n = Performed" for n
    using e by (simp add: link_up_def)
  have none: "filter (\<lambda>r. rw_tenant_id r = ?t \<and> rw_idempotency_key r = k) (db_runs ?d) = []"
    using key by (auto simp: filter_empty_conv has_key_def)
  have usage: "select_usage ?t (?e n) ?s = Inr ((active_count ?d ?t, day_count ?d ?t now), ?d)" for n
    using T by (auto simp: select_usage_def as_uuid_def active_count_def day_count_def Let_def
        intro!: arg_cong [where f = length] filter_cong)
  obtain u where u: "parse_uuid e (rr_workflowId rq) = Some u"
    using wf by (auto simp: stored_workflow_for_def)
  let ?ws = "filter (\<lambda>w. wr_tenant_id w = ?t \<and> wr_id w = u \<and> wr_tenant_id w = ?t) (db_workflows ?d)"
  obtain w ws where ws: "?ws = w # ws"
    using wf u by (cases ?ws) (auto simp: stored_workflow_for_def filter_empty_conv)
  then have w: "w \<in> set (db_workflows ?d)" "wr_id w = u"
    by (auto dest: filter_eq_ConsD_set)
  have wfs: "select_workflows (rr_workflowId rq) ?t (?e n) ?s = Inr (w # ws, ?d)" for n
    using T u ws by (simp add: select_workflows_def as_uuid_def)
  let ?row = "new_run_row (uuids e (issued e)) ?t u k (rr_input rq) (wr_budget_cents w) None now"
  have insd: "insert_run (uuids e (issued e)) ?t (rr_workflowId rq) k (rr_input rq) (wr_budget_cents w) None
      (e\<lparr>issued := j, roundtrips := m\<rparr>) ?s = Inr (Some ?row, with_run ?row ?d)" for m j
    using ins T u w key
    by (auto simp: insert_run_def as_uuid_def optional_uuid_def rls_check_def ensure_def Let_def insertable_def
        with_run_def has_key_def image_iff)
  let ?s1 = "?s\<lparr>se_db := with_run ?row ?d\<rparr>"
  have "\<exists>run. fst (record_new_run c ?row (e\<lparr>issued := j, roundtrips := m\<rparr>, ?s1)) = Inr (run, False)" for m j
    using e T U ins role
    by (intro record_new_run_link_up)
       (auto simp: link_up_def new_run_row_def with_run_def insertable_def tenant_exists_def)
  moreover have "rr_providerCredentialHandle rq = None"
    using ins by (simp add: insertable_def)
  ultimately show ?thesis
    using limits quota
    by (simp add: createRun_body_def io_bind_def query_performed Let_def select_runs_by_key_def as_uuid_def
        select_limits_def T none usage insert_new_run_def wfs next_uuid_def insd role)
qed

lemma pg_createRun_link_up:
  assumes "link_up e" and "fst (createRun_body c rq k (e\<lparr>ticks := Suc (ticks e), roundtrips := roundtrips e + 3\<rparr>,
      tenant_session p (pr_tenantId c) (clock e (ticks e)))) = r"
  shows "fst (pg_createRun c rq k (e, p)) = r"
proof -
  obtain e2 s where "createRun_body c rq k (e\<lparr>ticks := Suc (ticks e), roundtrips := roundtrips e + 3\<rparr>,
      tenant_session p (pr_tenantId c) (clock e (ticks e))) = (r, (e2, s))"
    using assms(2) by (metis prod.collapse)
  moreover have "env_keeps (createRun_body c rq k)" by (intro env_rules)
  ultimately show ?thesis
    using withTenant_link_up [OF assms(1), of "createRun_body c rq k"] by (simp add: pg_createRun_def)
qed

text \<open>
  C21. Every branch of \<open>createRun\<close> on PostgreSQL, in the order of the method, when the round trips
  go through: a run stored under the key is replayed; a tenant without limits is an error; then the
  quota of active runs, the quota of runs of the day and the existence of the workflow decide; and
  what passes is created.
\<close>
theorem pg_createRun_branches:
  assumes "pg_ok cn (e, p)" and "pg_authentic p c" and "pg_role p = DarControl"
    and "\<forall>n. fates e n = Performed" and "cn [] = None" and "cn (rr_workflowId rq) \<noteq> None"
    and "insertable e (pg_db p) c rq k"
  defines "limits \<equiv> filter (\<lambda>l. lm_tenant_id l = pr_tenantId c) (db_limits (pg_db p))"
    and "active \<equiv> active_count (pg_db p) (pr_tenantId c)"
    and "today \<equiv> day_count (pg_db p) (pr_tenantId c) (clock e (ticks e))"
  shows "case fst (pg_createRun c rq k (e, p)) of
      Inr (run, True) \<Rightarrow> \<exists>row \<in> set (db_runs (pg_db p)). has_key c k row
    | Inr (run, False) \<Rightarrow> (\<forall>row \<in> set (db_runs (pg_db p)). \<not> has_key c k row) \<and> limits \<noteq> [] \<and>
        active < lm_max_active_runs (hd limits) \<and> today < lm_max_runs_per_day (hd limits) \<and>
        stored_workflow_for cn (pg_db p) c rq
    | Inl err \<Rightarrow> (\<forall>row \<in> set (db_runs (pg_db p)). \<not> has_key c k row) \<and> err =
        (if limits = [] then Error ''Tenant runtime limits missing''
         else if lm_max_active_runs (hd limits) \<le> active then Error ''Active run quota exceeded''
         else if lm_max_runs_per_day (hd limits) \<le> today then Error ''Daily run quota exceeded''
         else Error ''Workflow not found'') \<and>
        (limits \<noteq> [] \<and> active < lm_max_active_runs (hd limits) \<and> today < lm_max_runs_per_day (hd limits) \<longrightarrow>
           \<not> stored_workflow_for cn (pg_db p) c rq)"
proof -
  let ?e = "e\<lparr>ticks := Suc (ticks e), roundtrips := roundtrips e + 3\<rparr>"
  have ok: "parse_uuid ?e = cn" "db_ok cn (pg_db p)" "cn (uuids e n) = Some (uuids e n)" for n
    using assms(1) by (auto simp: pg_ok_def)
  have T: "cn (pr_tenantId c) = Some (pr_tenantId c)"
    using pg_authentic_canonical [OF assms(2) ok(2)] .
  have T': "parse_uuid ?e (pr_tenantId c) = Some (pr_tenantId c)" "pr_tenantId c \<noteq> []"
    using T ok(1) assms(5) by auto
  have link: "link_up e" "link_up ?e"
    using assms(4) by (simp_all add: link_up_def)
  note result = pg_createRun_link_up [OF link(1), of c rq k p]
  have W: "parse_uuid ?e (rr_workflowId rq) \<noteq> None"
    using assms(6) ok(1) by simp
  note refused = createRun_body_refused [OF link(2) T' assms(3) W, where now = "clock e (ticks e)",
      folded limits_def active_def today_def]
  have ids: "\<forall>r \<in> set (db_runs (pg_db p)). parse_uuid ?e (rw_id r) = Some (rw_id r)"
    using ok(1,2) by (auto simp: db_ok_def runs_ok_def)
  show ?thesis
  proof (cases "\<exists>row \<in> set (db_runs (pg_db p)). has_key c k row")
    case True
    then obtain row where "row \<in> set (db_runs (pg_db p))" "has_key c k row" by blast
    from createRun_body_replays [OF link(2) T' assms(3) this ids, of rq "clock e (ticks e)"]
    obtain run where "fst (pg_createRun c rq k (e, p)) = Inr (run, True)"
      using result by blast
    with True show ?thesis by simp
  next
    case False
    then have key: "\<forall>row \<in> set (db_runs (pg_db p)). \<not> has_key c k row" by blast
    show ?thesis
    proof (cases limits)
      case Nil
      from result [OF refused(1) [OF key Nil]] key Nil show ?thesis by simp
    next
      case (Cons l ls)
      consider "lm_max_active_runs l \<le> active" | "active < lm_max_active_runs l" "lm_max_runs_per_day l \<le> today"
        | "active < lm_max_active_runs l" "today < lm_max_runs_per_day l" "\<not> stored_workflow_for cn (pg_db p) c rq"
        | "active < lm_max_active_runs l" "today < lm_max_runs_per_day l" "stored_workflow_for cn (pg_db p) c rq"
        by linarith
      then show ?thesis
      proof cases
        case 1
        from result [OF refused(2) [OF key Cons 1]] key Cons 1 show ?thesis by simp
      next
        case 2
        from result [OF refused(3) [OF key Cons 2]] key Cons 2 show ?thesis by simp
      next
        case 3
        from result [OF refused(4) [OF key Cons 3(1,2)]] ok(1) key Cons 3 show ?thesis by simp
      next
        case 4
        have "\<exists>run. fst (createRun_body c rq k (?e, tenant_session p (pr_tenantId c) (clock e (ticks e)))) = Inr (run, False)"
          using 4 Cons ok(1,3) assms(7) key
          by (intro createRun_body_creates [OF link(2) T' _ assms(3)])
             (auto simp: limits_def active_def today_def insertable_def)
        then obtain run where "fst (pg_createRun c rq k (e, p)) = Inr (run, False)"
          using result by blast
        with 4 Cons key show ?thesis by simp
      qed
    qed
  qed
qed

abbreviation strict_env :: env where
  "strict_env \<equiv> sample_env\<lparr>parse_uuid := (\<lambda>x. if x = [] then None else Some x)\<rparr>"

lemma strict_ok: "pg_ok (\<lambda>x. if x = [] then None else Some x) (strict_env, sample_pg r)"
  by (simp add: pg_ok_def sample_pg_def sample_db_def db_ok_defs tenant_exists_def)

lemma sample_insertable: "insertable strict_env sample_db sample_owner sample_request sample_key"
  by (simp add: insertable_def sample_db_def sample_owner_def sample_request_def sample_key_def
      tenant_exists_def)

theorem pg_createRun_branches_witness:
  "case fst (pg_createRun sample_owner sample_request sample_key (strict_env, sample_pg DarControl)) of
     Inr (run, replayed) \<Rightarrow> \<not> replayed | Inl err \<Rightarrow> False"
  using pg_createRun_branches [OF strict_ok [of DarControl] sample_authentic, of sample_request sample_key]
    sample_insertable
  by (simp add: sample_pg_def sample_request_def split: sum.splits prod.splits bool.splits)
     (simp_all add: sample_db_def sample_owner_def active_count_def day_count_def stored_workflow_for_def)

section \<open>The status of a run request\<close>

lemma creation_failed_reply:
  "\<exists>a'. creation_failed err (e, a) =
     (Inr \<lparr>rp_code = (if str_includes ''quota'' (message err) then 429
            else if message err = ''Workflow not found'' then 404 else 500),
           rp_body = B_error (message err)\<rparr>, (e, a')) \<and> as_store a' = as_store a"
  by (auto simp: creation_failed_def Let_def io_bind_def count_def io_modify_def send_def io_return_def)

lemma guarded_creation_returns: "\<exists>rp w'. io_catch m creation_failed w = (Inr rp, w')"
proof (cases "fst (m w)")
  case (Inl err)
  then show ?thesis
    using creation_failed_reply [of err "fst (snd (m w))" "snd (snd (m w))"]
    by (cases "m w") (auto simp: io_catch_def)
next
  case (Inr rp)
  then show ?thesis
    by (cases "m w") (simp add: io_catch_def)
qed

lemma guarded_creation_without_credential:
  assumes "cr_providerCredential parsed = None"
    and "rs_createRun st c \<lparr>rr_workflowId = cr_workflowId parsed, rr_input = cr_input parsed,
      rr_providerCredentialHandle = None\<rparr> k (e, as_store a) = (r, (e', s'))"
    and "io_catch (try_create_run st c parsed k) creation_failed (e, a) = (Inr rp, w')"
  shows "as_store (snd w') = s' \<and> rp = (case r of
      Inr (run, replayed) \<Rightarrow> \<lparr>rp_code = (if replayed then 200 else 201), rp_body = B_created_run run replayed\<rparr>
    | Inl err \<Rightarrow> \<lparr>rp_code = (if str_includes ''quota'' (message err) then 429
                  else if message err = ''Workflow not found'' then 404 else 500),
                rp_body = B_error (message err)\<rparr>)"
proof (cases r)
  case (Inl err)
  with assms(1,2) have "try_create_run st c parsed k (e, a) = (Inl err, (e', a\<lparr>as_store := s'\<rparr>))"
    by (simp add: try_create_run_def truthy_def io_bind_def io_zoom_def io_return_def)
  with assms(3) creation_failed_reply [of err e' "a\<lparr>as_store := s'\<rparr>"] Inl show ?thesis
    by (auto simp: io_catch_def)
next
  case (Inr x)
  with assms show ?thesis
    by (cases x) (auto simp: try_create_run_def truthy_def io_bind_def io_zoom_def io_catch_def io_return_def
        count_def io_modify_def send_def)
qed



end
