(* ===== verification/ApprovalPath.thy ===== *)
theory ApprovalPath
  imports PostgresBranches SystemSteps
begin

text \<open>
  An approval that goes through. With every round trip performed, an owner or operator who approves a run of the tenant
  that waits for approval is answered 200, and the database is that of the approving transition:
  authentication, reading, the checked transition and its message succeed in turn.
\<close>

section \<open>The statements\<close>

lemma query_at:
  assumes "link_up e" and "list_all (granted (se_role s)) rights" and "q (e\<lparr>roundtrips := Suc (roundtrips e)\<rparr>) s = Inr (x, d)"
    and "s' = s\<lparr>se_db := d\<rparr>"
  shows "\<exists>e'. query rights q (e, s) = (Inr x, (e', s')) \<and> same_sources e e'"
proof -
  have "query rights q (e, s) = (Inr x, (e\<lparr>roundtrips := Suc (roundtrips e)\<rparr>, s'))"
    using query_link_up [of e s rights q, OF assms(1-3)] assms(4) by simp
  then show ?thesis
    by (auto simp: same_sources_def)
qed

lemma control_visible:
  "parse_uuid e t = Some t \<Longrightarrow> t \<noteq> [] \<Longrightarrow> se_role s = DarControl \<Longrightarrow> se_tenant s = Some t \<Longrightarrow> visible e s u \<longleftrightarrow> u = t"
  by (auto simp: visible_def)

lemma readRun_at:
  assumes "link_up e" and "parse_uuid e t = Some t" and "parse_uuid e (rw_id row) = Some (rw_id row)" and "se_role s = DarControl"
  shows "\<exists>events z. readRunInTransaction t row (e, s) = (Inr (run_of row events), z) \<and> z = (fst z, s)"
  using assms
  by (auto simp: readRunInTransaction_def io_bind_def link_up_def query_performed Let_def select_events_def as_uuid_def toRun_eq
      io_return_def)

lemma update_runs_ids:
  assumes "\<And>r. rw_id (f r) = rw_id r"
  shows "rw_id ` set (db_runs (update_runs P f d)) = rw_id ` set (db_runs d)"
proof -
  have "rw_id ` set (db_runs (update_runs P f d)) = (\<lambda>r. rw_id (if P r then f r else r)) ` set (db_runs d)"
    unfolding update_runs_fields set_map by (rule image_image)
  also have "\<dots> = rw_id ` set (db_runs d)"
    by (rule image_cong) (simp_all add: assms)
  finally show ?thesis .
qed

lemma transition_body_link_up:
  assumes e: "link_up e" and T: "parse_uuid e (pr_tenantId c) = Some (pr_tenantId c)" "pr_tenantId c \<noteq> []"
    and R: "parse_uuid e (rw_id row) = Some (rw_id row)"
    and s: "se_role s = DarControl" "se_tenant s = Some (pr_tenantId c)" "tenant_exists (se_db s) (pr_tenantId c)"
    and row: "row \<in> set (db_runs (se_db s))" "rw_tenant_id row = pr_tenantId c" "distinct (map rw_id (db_runs (se_db s)))"
    and trans: "assertTransition (rw_state row) target = Inr ()" and ev: "length (ev_detail ev) \<le> 500"
  shows "\<exists>x z. transition_body c (rw_id row) target ev (e, s) = (Inr x, z)"
proof -
  let ?t = "pr_tenantId c" and ?i = "rw_id row" and ?d = "se_db s"
  let ?approving = "target = Queued \<and> ev_type ev = Ev_approved"
  let ?f = "\<lambda>r. r\<lparr>rw_state := target, rw_current_step := rw_current_step r + (if ?approving then 1 else 0),
    rw_updated_at := se_now s\<rparr>"
  let ?d1 = "update_runs (\<lambda>r. visible e s (rw_tenant_id r) \<and> rw_id r = ?i) ?f ?d"
  let ?d2 = "with_event ?t ?i (ev_type ev) (ev_detail ev) (ev_traceId ev) (se_now s) ?d1"
  have sources: "link_up e'" "parse_uuid e' = parse_uuid e" "same_sources e (e'\<lparr>roundtrips := Suc (roundtrips e')\<rparr>)"
    if "same_sources e e'" for e'
    using that link_up_sources e by (auto simp: same_sources_def)
  have [simp]: "visible e' (s\<lparr>se_db := d\<rparr>) u \<longleftrightarrow> u = ?t" "visible e' s u \<longleftrightarrow> u = ?t" if "parse_uuid e' = parse_uuid e" for e' d u
    using that T s by (simp_all add: control_visible)
  have "filter (\<lambda>r. rw_tenant_id r = ?t \<and> rw_id r = ?i \<and> rw_tenant_id r = ?t) (db_runs ?d) = filter (\<lambda>r. rw_id r = ?i) (db_runs ?d)"
    using row(2) distinct_map_inj [OF row(3) _ row(1)] by (intro filter_cong) auto
  then have found: "filter (\<lambda>r. rw_tenant_id r = ?t \<and> rw_id r = ?i \<and> rw_tenant_id r = ?t) (db_runs ?d) = [row]"
    using distinct_id_filter [OF row(3,1)] by simp
  obtain e1 where 1: "query [(Select, T_runs), (Update_run_state, T_runs)] (select_runs_by_id ?i ?t) (e, s) = (Inr [row], (e1, s))"
      "same_sources e e1"
    using query_at [OF e, of s "[(Select, T_runs), (Update_run_state, T_runs)]" "select_runs_by_id ?i ?t" "[row]" ?d s] T R s found
    by (auto simp: select_runs_by_id_def as_uuid_def)
  obtain e2 where 2: "query [(Update_run_state, T_runs), (Select, T_runs)] (update_run_state target (if ?approving then 1 else 0) ?i)
      (e1, s) = (Inr (), (e2, s\<lparr>se_db := ?d1\<rparr>))" "same_sources e1 e2"
    using query_at [of e1 s "[(Update_run_state, T_runs), (Select, T_runs)]" "update_run_state target (if ?approving then 1 else 0) ?i"
        "()" ?d1 "s\<lparr>se_db := ?d1\<rparr>"] R s sources [OF 1(2)]
    by (auto simp: update_run_state_def as_uuid_def)
  have e2: "same_sources e e2" using same_sources_trans [OF 1(2) 2(2)] .
  have ids: "rw_id ` set (db_runs ?d1) = rw_id ` set (db_runs ?d)"
    by (rule update_runs_ids) simp
  obtain e3 where 3: "query [(Insert, T_events)] (insert_event ?t ?i (ev_type ev) (ev_detail ev) (ev_traceId ev))
      (e2, s\<lparr>se_db := ?d1\<rparr>) = (Inr (), (e3, s\<lparr>se_db := ?d2\<rparr>))" "same_sources e2 e3"
    using query_at [of e2 "s\<lparr>se_db := ?d1\<rparr>" "[(Insert, T_events)]" "insert_event ?t ?i (ev_type ev) (ev_detail ev) (ev_traceId ev)"
        "()" ?d2 "s\<lparr>se_db := ?d2\<rparr>"] T R s row(1) ev sources [OF e2] ids
    by (auto simp: insert_event_def as_uuid_def rls_check_def ensure_def Let_def with_event_def)
  have e3: "same_sources e e3" using same_sources_trans [OF e2 3(2)] .
  let ?s3 = "s\<lparr>se_db := ?d2\<rparr>"
  have moved: "?f row \<in> set (db_runs ?d2)"
    using row(1,2) T s by (force simp: with_event_def control_visible)
  obtain e4 s4 where 4: "(if ?approving then query [(Queue_function, T_outbox)] (queue_run_outbox ?t ?i) else io_return ()) (e3, ?s3) =
      (Inr (), (e4, s4))" "same_sources e3 e4" "se_role s4 = DarControl" "se_tenant s4 = Some ?t" "tenant_exists (se_db s4) ?t"
  proof (cases ?approving)
    case True
    have "queue_run_outbox ?t ?i (e3\<lparr>roundtrips := Suc (roundtrips e3)\<rparr>) ?s3 = Inr ((), with_message ?t ?i ?d2)"
      using True T R s row(1,2) moved sources(2) [OF e3]
      by (auto simp: queue_run_outbox_def as_uuid_def ensure_def Let_def with_message_def queued_message_def
          intro!: bexI [of _ "?f row"])
    with query_at [of e3 ?s3 "[(Queue_function, T_outbox)]" "queue_run_outbox ?t ?i" "()" "with_message ?t ?i ?d2"
        "s\<lparr>se_db := with_message ?t ?i ?d2\<rparr>"] True s sources(1) [OF e3] that show thesis
      by auto
  next
    case False
    then show thesis
      using s by (intro that [of e3 ?s3]) (auto simp: io_return_def same_sources_def)
  qed
  have e4: "same_sources e e4" using same_sources_trans [OF e3 4(2)] .
  obtain e5 s5 where 5: "pg_audit c (''run.'' @ event_type_name (ev_type ev)) ?i (e4, s4) = (Inr (), (e5, s5))"
      "same_sources e4 e5" "s5 = s4\<lparr>se_db := se_db s5\<rparr>"
    using pg_audit_link_up [of e4 c ?i s4 "''run.'' @ event_type_name (ev_type ev)"] T R 4(3-5) sources [OF e4]
    by (auto simp: control_visible)
  have e5: "same_sources e e5" using same_sources_trans [OF e4 5(2)] .
  have "se_role s5 = DarControl" by (subst 5(3)) (simp add: 4(3))
  then obtain events z where 6: "readRunInTransaction ?t (row\<lparr>rw_state := target\<rparr>) (e5, s5) =
      (Inr (run_of (row\<lparr>rw_state := target\<rparr>) events), z)"
    using readRun_at [of e5 ?t "row\<lparr>rw_state := target\<rparr>" s5] T R sources [OF e5] by auto
  show ?thesis
    using 1(1) 2(1) 3(1) 4(1) 5(1) 6 trans by (auto simp: transition_body_def io_bind_def Let_def runStateSchema_name)
qed


section \<open>The methods\<close>

text \<open>An owner or operator of the tenant of the run, over a working link, as the control plane's role.\<close>

definition decides :: "(string \<Rightarrow> uuid option) \<Rightarrow> env \<Rightarrow> pg \<Rightarrow> principal \<Rightarrow> run_row \<Rightarrow> bool" where
  "decides cn e p c row \<longleftrightarrow> link_up e \<and> pg_ok cn (e, p) \<and> cn [] = None \<and> pg_role p = DarControl \<and> pg_authentic p c \<and>
     row \<in> set (db_runs (pg_db p)) \<and> rw_tenant_id row = pr_tenantId c"

lemma decides_facts:
  assumes "decides cn e p c row"
  shows "link_up e" "pg_role p = DarControl" "parse_uuid e = cn" "cn (pr_tenantId c) = Some (pr_tenantId c)" "pr_tenantId c \<noteq> []"
    "cn (rw_id row) = Some (rw_id row)" "tenant_exists (pg_db p) (pr_tenantId c)" "distinct (map rw_id (db_runs (pg_db p)))"
    "row \<in> set (db_runs (pg_db p))" "rw_tenant_id row = pr_tenantId c" "pg_ok cn (e, p)" "pg_authentic p c"
proof -
  show "parse_uuid e = cn" and T: "cn (pr_tenantId c) = Some (pr_tenantId c)"
    using assms pg_authentic_canonical [of p c cn] by (auto simp: decides_def pg_ok_def)
  with assms show "pr_tenantId c \<noteq> []" by (auto simp: decides_def)
  have "row \<in> set (db_runs (pg_db p))" "rw_tenant_id row = pr_tenantId c" "db_ok cn (pg_db p)"
    using assms by (auto simp: decides_def pg_ok_def)
  then show "cn (rw_id row) = Some (rw_id row)" "tenant_exists (pg_db p) (pr_tenantId c)" "distinct (map rw_id (db_runs (pg_db p)))"
    by (auto simp: db_ok_def runs_ok_def)
qed (use assms in \<open>auto simp: decides_def\<close>)

lemma transition_returns:
  assumes decides: "decides cn e p c row" and "assertTransition (rw_state row) target = Inr ()" and "length (ev_detail ev) \<le> 500"
  shows "\<exists>x e'. pg_transition c (rw_id row) target ev (e, p) = (Inr x, (e', p\<lparr>pg_db :=
    with_transition c (rw_id row) target ev (clock e (ticks e)) (pg_db p)\<rparr>))"
proof -
  note facts = decides_facts [OF decides]
  let ?e = "e\<lparr>ticks := Suc (ticks e), roundtrips := roundtrips e + 3\<rparr>" and ?s = "tenant_session p (pr_tenantId c) (clock e (ticks e))"
  have "\<exists>x z. transition_body c (rw_id row) target ev (?e, ?s) = (Inr x, z)"
    using facts assms(2,3) by (intro transition_body_link_up) (simp_all add: link_up_def)
  then obtain x e2 s where "transition_body c (rw_id row) target ev (?e, ?s) = (Inr x, (e2, s))"
    by auto
  from withTenant_link_up [OF facts(1) env_keeps_bodies(8) this]
  have result: "pg_transition c (rw_id row) target ev (e, p) =
      (Inr x, (e2\<lparr>roundtrips := Suc (roundtrips e2)\<rparr>, p\<lparr>pg_db := se_db s\<rparr>))"
    by (simp add: pg_transition_def)
  from facts(11,12) result show ?thesis
  proof (cases rule: pg_transition_cases)
    case (moved row')
    then have "row' = row"
      using facts(6) distinct_map_inj [OF facts(8) _ facts(9)] by simp
    with moved result show ?thesis by auto
  qed simp
qed

lemma readRun_returns:
  assumes "decides cn e p c row"
  shows "\<exists>run e'. pg_readRun c (rw_id row) (e, p) = (Inr (Some run), (e', p)) \<and> run_state run = rw_state row"
proof -
  note facts = decides_facts [OF assms]
  let ?e = "e\<lparr>ticks := Suc (ticks e), roundtrips := roundtrips e + 3\<rparr>" and ?s = "tenant_session p (pr_tenantId c) (clock e (ticks e))"
  let ?t = "pr_tenantId c" and ?i = "rw_id row"
  let ?body = "io_bind (query [(Select, T_runs)] (select_runs_by_id ?i ?t)) (\<lambda>rows.
     case rows of
       [] \<Rightarrow> io_return None
     | row # _ \<Rightarrow> io_bind (readRunInTransaction ?t row) (\<lambda>run. io_return (Some run)))"
  have seen: "visible e' ?s u \<longleftrightarrow> u = ?t" if "parse_uuid e' = cn" for e' u
    using that facts by (simp add: control_visible)
  have "filter (\<lambda>r. rw_tenant_id r = ?t \<and> rw_id r = ?i \<and> rw_tenant_id r = ?t) (db_runs (pg_db p)) = filter (\<lambda>r. rw_id r = ?i) (db_runs (pg_db p))"
    using facts(10) distinct_map_inj [OF facts(8) _ facts(9)] by (intro filter_cong) auto
  then have "select_runs_by_id ?i ?t (?e\<lparr>roundtrips := Suc (roundtrips ?e)\<rparr>) ?s = Inr ([row], pg_db p)"
    using facts distinct_id_filter [OF facts(8,9)]
    by (simp add: select_runs_by_id_def as_uuid_def seen)
  with query_at [of ?e ?s "[(Select, T_runs)]" "select_runs_by_id ?i ?t" "[row]" "pg_db p" ?s] facts
  obtain e1 where 1: "query [(Select, T_runs)] (select_runs_by_id ?i ?t) (?e, ?s) = (Inr [row], (e1, ?s))" "same_sources ?e e1"
    by (auto simp: link_up_def)
  then have "link_up e1" "parse_uuid e1 = cn"
    using facts by (auto simp: same_sources_def link_up_def)
  with readRun_at [of e1 ?t row ?s] facts obtain events e2 where
    "readRunInTransaction ?t row (e1, ?s) = (Inr (run_of row events), (e2, ?s))"
    by auto
  with 1(1) have "?body (?e, ?s) = (Inr (Some (run_of row events)), (e2, ?s))"
    by (simp add: io_bind_def io_return_def)
  moreover have "env_keeps ?body"
    by (intro env_rules)
  ultimately show ?thesis
    using withTenant_link_up [OF facts(1), of ?body p ?t "Inr (Some (run_of row events))" e2 ?s]
    by (simp add: pg_readRun_def)
qed

lemma authenticate_returns:
  assumes "link_up e" and "pg_role p = DarControl" and "key \<noteq> []" and "holds_key (pg_db p) slug (sha256_hex e key) c0"
  shows "\<exists>c e'. pg_authenticate slug (Some key) (e, p) = (Inr (Some c), (e', p)) \<and> holds_key (pg_db p) slug (sha256_hex e key) c"
proof -
  obtain rows d where rows: "select_credentials slug (e\<lparr>roundtrips := Suc (roundtrips e), ticks := Suc (ticks e)\<rparr>)
      ((open_session p)\<lparr>se_now := clock e (ticks e)\<rparr>) = Inr (rows, d)"
    by (simp add: select_credentials_def Let_def)
  have "\<exists>x w. pg_authenticate slug (Some key) (e, p) = (Inr x, w)"
    using pool_query_performed [of e p "[(Select, T_api_keys), (Select, T_principals), (Select, T_tenants)]" "select_credentials slug", OF _ _ rows] assms(1-3)
    by (simp add: pg_authenticate_def truthy_def io_bind_def hashApiKey_def io_env_def io_return_def link_up_def)
  then obtain x e' p' where auth: "pg_authenticate slug (Some key) (e, p) = (Inr x, (e', p'))" by auto
  from pg_authenticate_result [OF auth] assms(3,4) show ?thesis
    using auth by (auto simp: truthy_def split: option.splits)
qed


section \<open>The request\<close>

text \<open>The request asks for the approval of the run, with an API key of the tenant.\<close>

definition approval_request :: "http_request \<Rightarrow> uuid \<Rightarrow> string \<Rightarrow> string \<Rightarrow> bool" where
  "approval_request rq i slug key \<longleftrightarrow> rq_route rq = R_approve i \<and> \<not> open_url (rq_url rq) \<and>
     header_string (rq_headers rq ''x-tenant-id'') = Some slug \<and> header_string (rq_headers rq ''x-api-key'') = Some key \<and>
     slug \<noteq> [] \<and> key \<noteq> []"

text \<open>The key opens the tenant: it is listed, and only for its owners and operators.\<close>

definition opens :: "env \<Rightarrow> db \<Rightarrow> string \<Rightarrow> string \<Rightarrow> uuid \<Rightarrow> bool" where
  "opens e d slug key t \<longleftrightarrow> (\<exists>c. holds_key d slug (sha256_hex e key) c) \<and>
     (\<forall>c. holds_key d slug (sha256_hex e key) c \<longrightarrow> pr_tenantId c = t \<and> pr_role c \<in> {Owner, Operator})"

lemma approve_served:
  assumes link: "link_up e" and ok: "pg_ok cn (e, as_store a)" and "cn [] = None" and role: "pg_role (as_store a) = DarControl"
    and row: "row \<in> set (db_runs (pg_db (as_store a)))" "rw_state row = Awaiting_approval"
    and rq: "approval_request rq (rw_id row) slug key" and opens: "opens e (pg_db (as_store a)) slug key (rw_tenant_id row)"
  shows "\<exists>rp e' a' c ev now. serve PostgresDurableStore cf rq (e, a) = (Inr rp, (e', a')) \<and> rp_code rp = 200 \<and>
    as_store a' = (as_store a)\<lparr>pg_db := with_transition c (rw_id row) Queued ev now (pg_db (as_store a))\<rparr> \<and>
    ev_type ev = Ev_approved \<and> pr_tenantId c = rw_tenant_id row"
proof -
  let ?p = "as_store a" and ?i = "rw_id row"
  obtain c0 where c0: "holds_key (pg_db ?p) slug (sha256_hex e key) c0"
    using opens by (auto simp: opens_def)
  have "key \<noteq> []" using rq by (simp add: approval_request_def)
  from authenticate_returns [OF link role this c0] obtain c e1 where
    auth: "pg_authenticate slug (Some key) (e, ?p) = (Inr (Some c), (e1, ?p))" and key: "holds_key (pg_db ?p) slug (sha256_hex e key) c"
    by blast
  have c: "pr_tenantId c = rw_tenant_id row" "pr_role c \<in> {Owner, Operator}"
    using opens key by (simp_all add: opens_def)
  have "pg_authentic ?p c"
    using key by (auto simp: holds_key_def pg_authentic_def)
  note c = c this
  have decides: "decides cn e' ?p c row" if "same_sources e e'" for e'
    using that assms(1-5) c link_up_sources [OF that] pg_ok_env [OF ok that] by (simp add: decides_def)
  have e1: "same_sources e e1"
    using env_keepsD [of "pg_authenticate slug (Some key)", OF _ auth] by (simp add: env_keeps_readers)
  obtain run e2 where read: "pg_readRun c ?i (e1, ?p) = (Inr (Some run), (e2, ?p))" "run_state run = Awaiting_approval"
    using readRun_returns [OF decides [OF e1]] row(2) by auto
  have e2: "same_sources e e2"
    using same_sources_trans [OF e1 env_keepsD [of "pg_readRun c ?i", OF _ read(1)]] by (simp add: env_keeps_readers)
  let ?ev = "\<lparr>ev_at = clock e2 (ticks e2), ev_type = Ev_approved, ev_detail = ''Approval recorded; run re-queued'', ev_traceId = None\<rparr>"
  let ?e3 = "e2\<lparr>ticks := Suc (ticks e2)\<rparr>"
  have "same_sources e ?e3"
    using e2 by (simp add: same_sources_def)
  from transition_returns [OF decides [OF this], of Queued ?ev] obtain x e4 where
    trans: "pg_transition c ?i Queued ?ev (?e3, ?p) = (Inr x, (e4, ?p\<lparr>pg_db :=
      with_transition c ?i Queued ?ev (clock ?e3 (ticks ?e3)) (pg_db ?p)\<rparr>))"
    using row(2) by (auto simp: assertTransition_def)
  have put: "a\<lparr>as_store := as_store a\<rparr> = a" by simp
  have "\<exists>rp w. serve PostgresDurableStore cf rq (e, a) = (Inr rp, w) \<and> rp_code rp = 200 \<and>
      as_store (snd w) = ?p\<lparr>pg_db := with_transition c ?i Queued ?ev (clock ?e3 (ticks ?e3)) (pg_db ?p)\<rparr>"
    using auth read trans c(2) rq
    by (auto simp: serve_def preHandler_def approval_request_def truthy_def io_defs approve_run_def requirePrincipal_def
        requireRole_def privilegedRoles_def runEvent_def count_def send_def onResponse_def Let_def put)
  with c(1) show ?thesis
    by (metis prod.collapse run_event.select_convs(2))
qed

end
