(* ===== verification/WorkerRuns.thy ===== *)
theory WorkerRuns
  imports WorkerSystem ApprovalPath
begin

text \<open>
  A delivery from its claim to its end: what it answers, what becomes of the run, whom it calls. Alone and with every
  round trip performed, the run ends where its workflow puts it; a failed step does not change
  that, because the loop goes on after \<open>fail\<close> and \<open>uncertain\<close>. A delivery of a run another
  worker holds leaves no trace.
\<close>

section \<open>Undisturbed steps\<close>

text \<open>\<open>p\<close> returns, for a worker that serves the run at the step, and relates the tables before and after by \<open>R\<close>.\<close>

definition completes ::
  "(string \<Rightarrow> uuid option) \<Rightarrow> leased_run \<Rightarrow> nat \<Rightarrow> ('x worker, 'a) prog \<Rightarrow>
   ('a \<Rightarrow> worker_tables \<Rightarrow> worker_tables \<Rightarrow> bool) \<Rightarrow> bool" where
  "completes cn run index p R \<longleftrightarrow>
     (\<forall>e s. link_up e \<longrightarrow> worker_inv cn (e, s) \<longrightarrow> serves run index (e, s) \<longrightarrow>
        (\<exists>x e' s'. run_prog p (e, s) = (Inr x, (e', s')) \<and> same_sources e e' \<and> worker_inv cn (e', s') \<and>
           serves run index (e', s') \<and> R x (wk_tables s) (wk_tables s')))"

lemma completesI:
  fixes p :: "('x worker, 'a) prog"
  assumes "upholds cn run index p"
    and "\<And>e s. link_up e \<Longrightarrow> worker_inv cn (e, s) \<Longrightarrow> serves run index (e, s) \<Longrightarrow>
      \<exists>x e' s'. run_prog p (e, s) = (Inr x, (e', s')) \<and> R x (wk_tables s) (wk_tables s')"
  shows "completes cn run index p R"
  unfolding completes_def
proof (intro allI impI)
  fix e and s :: "'x worker"
  assume calm: "link_up e" "worker_inv cn (e, s)" "serves run index (e, s)"
  then obtain x e' s' where p: "run_prog p (e, s) = (Inr x, (e', s'))" "R x (wk_tables s) (wk_tables s')"
    using assms(2) by blast
  have "workers.meets cn (\<lambda>_. serves run index) p (e, s)"
    using assms(1) calm(3) by (simp add: upholds_def)
  from workers.meets_run [OF this calm(2) p(1)] p
  show "\<exists>x e' s'. run_prog p (e, s) = (Inr x, (e', s')) \<and> same_sources e e' \<and> worker_inv cn (e', s') \<and>
      serves run index (e', s') \<and> R x (wk_tables s) (wk_tables s')"
    by (auto simp: worker_rely_def)
qed

lemma completes_then:
  fixes p :: "('x worker, 'a) prog"
  assumes "completes cn run index p Q" and "\<And>x. completes cn run index (f x) R"
    and "\<And>x y t t1 t2. Q x t t1 \<Longrightarrow> R y t1 t2 \<Longrightarrow> S y t t2"
  shows "completes cn run index (and_then p f) S"
  unfolding completes_def
proof (intro allI impI)
  fix e and s :: "'x worker"
  assume calm: "link_up e" "worker_inv cn (e, s)" "serves run index (e, s)"
  with assms(1) obtain x e1 s1 where p: "run_prog p (e, s) = (Inr x, (e1, s1))" "same_sources e e1"
      "worker_inv cn (e1, s1)" "serves run index (e1, s1)" "Q x (wk_tables s) (wk_tables s1)"
    unfolding completes_def by blast
  with link_up_sources [OF p(2)] calm(1) assms(2) [of x] obtain y e2 s2 where
    f: "run_prog (f x) (e1, s1) = (Inr y, (e2, s2))" "same_sources e1 e2" "worker_inv cn (e2, s2)"
      "serves run index (e2, s2)" "R y (wk_tables s1) (wk_tables s2)"
    unfolding completes_def by blast
  then show "\<exists>x e' s'. run_prog (and_then p f) (e, s) = (Inr x, (e', s')) \<and> same_sources e e' \<and> worker_inv cn (e', s') \<and>
      serves run index (e', s') \<and> S x (wk_tables s) (wk_tables s')"
    using p assms(3) same_sources_trans [OF p(2) f(2)] by (auto simp: io_bind_def)
qed

lemma completes_weaken:
  "completes cn run index p Q \<Longrightarrow> (\<And>x t t'. Q x t t' \<Longrightarrow> R x t t') \<Longrightarrow> completes cn run index p R"
  unfolding completes_def by (meson)

lemma completes_Done: "(\<And>t. R x t t) \<Longrightarrow> completes cn run index (Done (Inr x)) R"
  unfolding completes_def same_sources_def by simp


subsection \<open>What single actions do\<close>

lemma pool_exec_performed:
  assumes "link_up e" and "q (e\<lparr>roundtrips := Suc (roundtrips e), ticks := Suc (ticks e)\<rparr>) (clock e (ticks e)) (wk_tables s) = Inr (x, t)"
  shows "pool_exec q (e, s) =
    (Inr x, (e\<lparr>roundtrips := Suc (roundtrips e), ticks := Suc (ticks e)\<rparr>, s\<lparr>wk_tables := t\<rparr>))"
proof -
  have "e\<lparr>ticks := Suc (ticks e), roundtrips := Suc (roundtrips e)\<rparr> = e\<lparr>roundtrips := Suc (roundtrips e), ticks := Suc (ticks e)\<rparr>"
    by simp
  with assms show ?thesis
    by (simp add: pool_exec_def perform_def io_defs link_up_def)
qed

text \<open>What a delivery leaves alone: who may log in, the workflows and the outbox.\<close>

definition frame :: "db \<Rightarrow> tenant_row list \<times> principal_row list \<times> api_key_row list \<times> workflow_row list \<times> outbox_row list" where
  "frame d = (db_tenants d, db_principals d, db_api_keys d, db_workflows d, db_outbox d)"

lemma frame_same [simp]:
  "frame (update_runs P f d) = frame d" "frame (with_event u i y x tr now d) = frame d"
  by (simp_all add: frame_def update_runs_def with_event_def)

text \<open>Events and effects that were there stay there.\<close>

definition adds :: "worker_tables \<Rightarrow> worker_tables \<Rightarrow> bool" where
  "adds t t' \<longleftrightarrow> set (db_events (wt_db t)) \<subseteq> set (db_events (wt_db t')) \<and> set (wt_effects t) \<subseteq> set (wt_effects t') \<and>
     frame (wt_db t') = frame (wt_db t)"

lemma adds_refl [simp]: "adds t t"
  by (simp add: adds_def)

lemma adds_trans: "adds t t1 \<Longrightarrow> adds t1 t2 \<Longrightarrow> adds t t2"
  unfolding adds_def by auto

text \<open>The tables of runs and effects are the same, and events only more.\<close>

definition same_runs :: "worker_tables \<Rightarrow> worker_tables \<Rightarrow> bool" where
  "same_runs t t' \<longleftrightarrow> adds t t' \<and> db_runs (wt_db t') = db_runs (wt_db t)"

text \<open>The run a worker serves, and how it was changed last.\<close>

definition run_is :: "leased_run \<Rightarrow> (run_row \<Rightarrow> bool) \<Rightarrow> worker_tables \<Rightarrow> bool" where
  "run_is run P t \<longleftrightarrow> (\<exists>r \<in> set (db_runs (wt_db t)). rw_id r = lr_id run \<and> P r)"

definition event_of :: "leased_run \<Rightarrow> event_type \<Rightarrow> string \<Rightarrow> worker_tables \<Rightarrow> bool" where
  "event_of run type detail t \<longleftrightarrow>
     (\<exists>x \<in> set (db_events (wt_db t)). er_run_id x = lr_id run \<and> er_event_type x = type \<and> er_detail x = detail)"

lemma event_of_adds: "event_of run type detail t \<Longrightarrow> adds t t' \<Longrightarrow> event_of run type detail t'"
  unfolding event_of_def adds_def by blast

lemma run_is_same: "run_is run P t \<Longrightarrow> same_runs t t' \<Longrightarrow> run_is run P t'"
  by (simp add: run_is_def same_runs_def)

lemma served:
  assumes "worker_inv cn (e, s)" and "serves run index (e, s)"
  shows "parse_uuid e = cn" and "cn (lr_id run) = Some (lr_id run)" and "cn (lr_tenantId run) = Some (lr_tenantId run)"
    and "tenant_exists (db_of s) (lr_tenantId run)" and "lr_id run \<in> rw_id ` set (db_runs (db_of s))"
proof -
  have ok: "schema_ok cn (db_of s)" and ex: "executes (db_of s) (lr_id run) (lr_tenantId run) (lr_definition run)"
    using assms by (simp_all add: worker_inv_def ledger_ok_def serves_def)
  from executes_row [OF ex ok] ok show "cn (lr_id run) = Some (lr_id run)" "cn (lr_tenantId run) = Some (lr_tenantId run)"
      "tenant_exists (db_of s) (lr_tenantId run)" "lr_id run \<in> rw_id ` set (db_runs (db_of s))"
    by (auto simp: run_refs_def schema_ok_def db_ok_def runs_ok_def)
  show "parse_uuid e = cn" using assms(1) by (simp add: worker_inv_def)
qed

lemma completes_exec:
  assumes "upholds cn run index (atomic (pool_exec q) :: ('x worker, 'a) prog)"
    and "\<And>e now t. parse_uuid e = cn \<Longrightarrow> cn (lr_id run) = Some (lr_id run) \<Longrightarrow> cn (lr_tenantId run) = Some (lr_tenantId run) \<Longrightarrow>
      tenant_exists (wt_db t) (lr_tenantId run) \<Longrightarrow> lr_id run \<in> rw_id ` set (db_runs (wt_db t)) \<Longrightarrow>
      \<exists>x t'. q e now t = Inr (x, t') \<and> R x t t'"
  shows "completes cn run index (atomic (pool_exec q) :: ('x worker, 'a) prog) R"
proof (rule completesI [OF assms(1)])
  fix e and s :: "'x worker"
  assume "link_up e" and inv: "worker_inv cn (e, s)" "serves run index (e, s)"
  let ?e = "e\<lparr>roundtrips := Suc (roundtrips e), ticks := Suc (ticks e)\<rparr>"
  obtain x t' where q: "q ?e (clock e (ticks e)) (wk_tables s) = Inr (x, t')" "R x (wk_tables s) t'"
    using assms(2) [of ?e "wk_tables s" "clock e (ticks e)"] served [OF inv] by auto
  from pool_exec_performed [of e q s x t'] \<open>link_up e\<close> q
  show "\<exists>x e' s'. run_prog (atomic (pool_exec q)) (e, s) = (Inr x, (e', s')) \<and> R x (wk_tables s) (wk_tables s')"
    by simp
qed

lemma completes_recordStep: "completes cn run index (recordStep run n kind status label) (\<lambda>_. same_runs)"
  unfolding recordStep_def
  by (rule completes_exec [OF upholds_recordStep [unfolded recordStep_def]])
     (auto simp: insert_result_def as_uuid_def ensure_def same_runs_def adds_def)

lemma completes_add_event:
  assumes "type \<noteq> Ev_approved" and "length detail \<le> 500"
  shows "completes cn run index (add_event run type detail) (\<lambda>_ t t'. same_runs t t' \<and> event_of run type detail t')"
  unfolding add_event_def exec_db_def
proof (rule completes_exec [OF upholds_add_event [OF assms(1), unfolded add_event_def exec_db_def]], goal_cases)
  case (1 e now t)
  then have "insert_event (lr_tenantId run) (lr_id run) type detail None e (worker_session now (wt_db t)) =
      Inr ((), with_event (lr_tenantId run) (lr_id run) type detail None now (wt_db t))"
    using assms(2)
    by (simp add: insert_event_def as_uuid_def ensure_def rls_check_def visible_def Let_def worker_session_def with_event_def)
  then show ?case
    by (simp add: on_db_def same_runs_def adds_def event_of_def) (auto simp: with_event_def)
qed

lemma completes_update_run:
  assumes "upholds cn run index (update_run run f :: ('x worker, unit) prog)" and "\<And>now r. rw_id (f now r) = rw_id r"
    and "\<And>now r. P (f now r)"
  shows "completes cn run index (update_run run f :: ('x worker, unit) prog) (\<lambda>_ t t'. adds t t' \<and> run_is run P t')"
  unfolding update_run_def exec_db_def
proof (rule completes_exec [OF assms(1) [unfolded update_run_def exec_db_def]], goal_cases)
  case (1 e now t)
  let ?d = "update_runs (\<lambda>r. rw_id r = lr_id run) (f now) (wt_db t)"
  from 1 obtain r where r: "r \<in> set (db_runs (wt_db t))" "rw_id r = lr_id run" by auto
  then have "f now r \<in> set (db_runs ?d)"
    unfolding update_runs_fields set_map by (intro image_eqI [of _ _ r]) simp_all
  then have "run_is run P (t\<lparr>wt_db := ?d\<rparr>)"
    using assms(2,3) r(2) unfolding run_is_def by (intro bexI [of _ "f now r"]) simp_all
  with 1(1,2) show ?case
    by (simp add: on_db_def set_run_def as_uuid_def worker_session_def adds_def)
qed

lemma completes_effect:
  assumes "index < length (gd_steps (lr_definition run))" and "writes_ticket (gd_steps (lr_definition run) ! index)"
  shows "completes cn run index (atomic (pool_exec
      (insert_effect (lr_tenantId run) (lr_id run) index (effect_key (lr_id run) index))))
    (\<lambda>_ t t'. adds t t' \<and> db_runs (wt_db t') = db_runs (wt_db t) \<and> (lr_tenantId run, effect_key (lr_id run) index) \<in>
       (\<lambda>x. (ef_tenant_id x, ef_effect_key x)) ` set (wt_effects t'))"
  by (rule completes_exec [OF upholds_effect [OF assms]])
     (auto simp: insert_effect_def as_uuid_def ensure_def adds_def)

lemma completes_count: "completes cn run index (atomic (count_worker f)) (\<lambda>_. same_runs)"
  by (rule completesI [OF upholds_count]) (simp add: count_worker_def io_modify_def same_runs_def)

lemma completes_http: "completes cn run index (http_do cfg rq) (\<lambda>_. same_runs)"
  by (rule completesI [OF upholds_http]) (auto simp: http_do_def same_runs_def split: prod.splits)


subsection \<open>What a step does\<close>

named_theorems completes_rules \<open>parts of a step that return and only add\<close>

lemma completes_adds_then [completes_rules]:
  assumes "completes cn run index p (\<lambda>_. adds)" and "\<And>x. completes cn run index (f x) (\<lambda>_. adds)"
  shows "completes cn run index (and_then p f) (\<lambda>_. adds)"
  by (rule completes_then [OF assms]) (rule adds_trans)

lemma completes_adds_branch [completes_rules]:
  "(b \<Longrightarrow> completes cn run index p R) \<Longrightarrow> (\<not> b \<Longrightarrow> completes cn run index q R) \<Longrightarrow> completes cn run index (if b then p else q) R"
  "completes cn run index p R \<Longrightarrow> (\<And>x. completes cn run index (f x) R) \<Longrightarrow>
     completes cn run index (case o' of None \<Rightarrow> p | Some x \<Rightarrow> f x) R"
  "completes cn run index (Done (Inr x)) (\<lambda>_. adds)"
  by (auto split: option.split intro: completes_Done)

lemma same_runs_adds: "same_runs t t' \<Longrightarrow> adds t t'"
  by (simp add: same_runs_def)

lemma completes_plain [completes_rules]:
  "completes cn run index (recordStep run n kind status label) (\<lambda>_. adds)"
  "completes cn run index (atomic (count_worker f)) (\<lambda>_. adds)"
  "completes cn run index (http_do cfg rq) (\<lambda>_. adds)"
  by (rule completes_weaken [OF completes_recordStep same_runs_adds] completes_weaken [OF completes_count same_runs_adds]
      completes_weaken [OF completes_http same_runs_adds]; assumption)+

text \<open>An update of the run, then an event, then a counter.\<close>

lemma completes_ending:
  assumes "upholds cn run index (update_run run f :: ('x worker, unit) prog)" and "\<And>now r. rw_id (f now r) = rw_id r"
    and "\<And>now r. P (f now r)" and "type \<noteq> Ev_approved" and "length detail \<le> 500"
  shows "completes cn run index (and_then (update_run run f) (\<lambda>_. and_then (add_event run type detail) (\<lambda>_. count_terminal st)) :: ('x worker, unit) prog)
    (\<lambda>_ t t'. adds t t' \<and> run_is run P t' \<and> event_of run type detail t')"
  unfolding count_terminal_def
proof (rule completes_then [OF completes_update_run [where P = P, OF assms(1)]])
  show "completes cn run index (and_then (add_event run type detail) (\<lambda>_. atomic (count_worker g)) :: ('x worker, unit) prog)
      (\<lambda>_ t t'. same_runs t t' \<and> event_of run type detail t')" for g
    by (rule completes_then [OF completes_add_event [OF assms(4,5)] completes_count])
       (auto simp: same_runs_def intro: adds_trans event_of_adds)
qed (auto simp: assms(2,3) same_runs_def intro: adds_trans run_is_same)

lemma completes_end_with:
  assumes "type \<noteq> Ev_approved" and "length errorCode \<le> 500"
  shows "completes cn run index (end_with st type run errorCode)
    (\<lambda>_ t t'. adds t t' \<and> run_is run (\<lambda>r. rw_state r = st) t' \<and> event_of run type errorCode t')"
  unfolding end_with_def
  by (rule completes_then [OF completes_plain(2) completes_ending [where P = "\<lambda>r. rw_state r = st"]])
     (use assms in \<open>auto simp: run_updates intro: upholds_rules adds_trans\<close>)

lemma completes_fail [completes_rules]:
  "length errorCode \<le> 500 \<Longrightarrow> completes cn run index (fail run errorCode) (\<lambda>_. adds)"
  "length errorCode \<le> 500 \<Longrightarrow> completes cn run index (uncertain run errorCode) (\<lambda>_. adds)"
  unfolding fail_def uncertain_def by (rule completes_weaken [OF completes_end_with]; simp)+

lemma completes_complete:
  "completes cn run index (complete run)
     (\<lambda>_ t t'. adds t t' \<and> run_is run (\<lambda>r. rw_state r = Succeeded) t' \<and>
       event_of run Ev_succeeded ''All workflow steps completed'' t')"
  unfolding complete_def by (rule completes_ending) (simp_all add: upholds_updates run_updates)

lemma completes_awaitApproval:
  "completes cn run index (awaitApproval run index)
     (\<lambda>_ t t'. adds t t' \<and> run_is run (\<lambda>r. rw_state r = Awaiting_approval \<and> rw_current_step r = index) t')"
  unfolding awaitApproval_def
proof (rule completes_then [OF completes_plain(1)])
  show "completes cn run index (and_then (update_run run (park_run index))
        (\<lambda>_. add_event run Ev_approval_requested ''Configured side effect requires approval''))
      (\<lambda>_ t t'. adds t t' \<and> run_is run (\<lambda>r. rw_state r = Awaiting_approval \<and> rw_current_step r = index) t')"
    by (rule completes_then [OF completes_update_run [where P = "\<lambda>r. rw_state r = Awaiting_approval \<and> rw_current_step r = index"]
          completes_add_event])
       (auto simp: run_updates upholds_updates same_runs_def intro: adds_trans run_is_same upholds_updates)
qed (auto intro: adds_trans)

lemma completes_provider [completes_rules]:
  "completes cn run index (executeProviderModel cfg run index current) (\<lambda>_. adds)"
  unfolding executeProviderModel_def callOpenAICompatible_def by (intro completes_rules; simp)

lemma completes_fetched [completes_rules]: "completes cn run index (judge_fetched cfg run index r) (\<lambda>_. adds)"
  unfolding judge_fetched_def by (intro completes_rules; simp)

text \<open>The ledger has the effect of a step.\<close>

definition committed :: "leased_run \<Rightarrow> nat \<Rightarrow> worker_tables \<Rightarrow> bool" where
  "committed run k t \<longleftrightarrow>
     (\<exists>x \<in> set (wt_effects t). ef_tenant_id x = lr_tenantId run \<and> ef_effect_key x = effect_key (lr_id run) k)"

lemma committed_adds: "committed run k t \<Longrightarrow> adds t t' \<Longrightarrow> committed run k t'"
  unfolding committed_def adds_def by blast

text \<open>A step that fetches an address its workflow does not allow.\<close>

definition refused_fetch :: "'x worker_config \<Rightarrow> leased_run \<Rightarrow> json \<Rightarrow> bool" where
  "refused_fetch cfg run raw \<longleftrightarrow>
     (case decode_step raw of
        None \<Rightarrow> False
      | Some s \<Rightarrow> gs_kind s = ''tool'' \<and> gs_tool s = ''allowlisted_http_fetch'' \<and>
          \<not> validateURL cfg (fetch_target run) (gd_allowedHosts (lr_definition run)))"

text \<open>What a step leaves behind.\<close>

definition traced :: "'x worker_config \<Rightarrow> leased_run \<Rightarrow> nat \<Rightarrow> worker_tables \<Rightarrow> bool" where
  "traced cfg run k t \<longleftrightarrow> (let raw = gd_steps (lr_definition run) ! k in
     (writes_ticket raw \<longrightarrow> committed run k t) \<and>
     (refused_fetch cfg run raw \<longrightarrow> event_of run Ev_failed ''http_url_not_allowed'' t))"

lemma traced_adds: "traced cfg run k t \<Longrightarrow> adds t t' \<Longrightarrow> traced cfg run k t'"
  unfolding traced_def Let_def using committed_adds event_of_adds by blast

lemma completes_tool:
  assumes "index < length (gd_steps (lr_definition run))" and "decode_step (gd_steps (lr_definition run) ! index) = Some current"
    and "gs_kind current = ''tool''"
  shows "completes cn run index (executeTool cfg run index current) (\<lambda>_ t t'. adds t t' \<and> traced cfg run index t')"
proof (cases "gs_tool current = ''mock_ticket_write''")
  case True
  with assms have ticket: "writes_ticket (gd_steps (lr_definition run) ! index)"
      "\<not> refused_fetch cfg run (gd_steps (lr_definition run) ! index)"
    by (simp_all add: writes_ticket_def refused_fetch_def)
  have "completes cn run index (and_then (atomic (pool_exec
          (insert_effect (lr_tenantId run) (lr_id run) index (effect_key (lr_id run) index)))) (\<lambda>rows.
        if rows = 0 then
          and_then (atomic (count_worker (\<lambda>m. m\<lparr>wm_effectReplays := Suc (wm_effectReplays m)\<rparr>))) (\<lambda>_.
          recordStep run index ''tool'' ''succeeded'' ''mock-ticket-replayed'')
        else recordStep run index ''tool'' ''succeeded'' ''mock-ticket-committed''))
      (\<lambda>_ t t'. adds t t' \<and> committed run index t')"
    by (rule completes_then [where R = "\<lambda>_. adds", OF completes_effect [OF assms(1) ticket(1)]], intro completes_rules)
       (auto simp: committed_def adds_def)
  with True ticket show ?thesis by (simp add: executeTool_def traced_def)
next
  case no_ticket: False
  show ?thesis
  proof (cases "refused_fetch cfg run (gd_steps (lr_definition run) ! index)")
    case True
    with assms have refused: "gs_tool current = ''allowlisted_http_fetch''"
        "\<not> validateURL cfg (fetch_target run) (gd_allowedHosts (lr_definition run))"
      by (simp_all add: refused_fetch_def)
    with completes_end_with [of Ev_failed "''http_url_not_allowed''" cn run index Failed] no_ticket assms(2)
    show ?thesis
      by (auto simp: executeTool_def traced_def fail_def writes_ticket_def elim!: completes_weaken)
  next
    case False
    with no_ticket assms(2) have "traced cfg run index t" for t
      by (simp add: traced_def writes_ticket_def)
    moreover from no_ticket have "completes cn run index (executeTool cfg run index current) (\<lambda>_. adds)"
      unfolding executeTool_def if_not_P [OF no_ticket] by (intro completes_rules; simp)
    ultimately show ?thesis by simp
  qed
qed

lemma completes_step:
  assumes "index < length (gd_steps (lr_definition run))" and "decode_step (gd_steps (lr_definition run) ! index) = Some current"
  shows "completes cn run index (execute_step cfg run index current) (\<lambda>_ t t'. adds t t' \<and> traced cfg run index t')"
proof (cases "gs_kind current = ''tool''")
  case True
  with completes_tool [OF assms True] show ?thesis
    by (simp add: execute_step_def)
next
  case False
  then have "completes cn run index (execute_step cfg run index current) (\<lambda>_. adds)"
    unfolding execute_step_def by (intro completes_rules; simp)
  moreover have "traced cfg run index t" for t
    using False assms(2) by (simp add: traced_def writes_ticket_def refused_fetch_def)
  ultimately show ?thesis by simp
qed


section \<open>Where a run ends\<close>

text \<open>The first approval step from the current one on, or the number of steps.\<close>

definition stop_of :: "json list \<Rightarrow> nat \<Rightarrow> nat" where
  "stop_of steps n = n + length (takeWhile (\<lambda>raw. \<not> needs_approval raw) (drop n steps))"

lemma stop_of_here: "n < length steps \<Longrightarrow> needs_approval (steps ! n) \<Longrightarrow> stop_of steps n = n"
  by (simp add: stop_of_def Cons_nth_drop_Suc [symmetric])

lemma stop_of_next: "n < length steps \<Longrightarrow> \<not> needs_approval (steps ! n) \<Longrightarrow> stop_of steps n = stop_of steps (Suc n)"
  by (simp add: stop_of_def Cons_nth_drop_Suc [symmetric])

definition ended :: "'x worker_config \<Rightarrow> leased_run \<Rightarrow> nat \<Rightarrow> worker_tables \<Rightarrow> bool" where
  "ended cfg run n t \<longleftrightarrow> (let steps = gd_steps (lr_definition run); stop = stop_of steps n in
     run_is run (\<lambda>r. if stop < length steps then rw_state r = Awaiting_approval \<and> rw_current_step r = stop
                     else rw_state r = Succeeded) t \<and>
     (\<forall>k. n \<le> k \<and> k < stop \<and> k < length steps \<longrightarrow> traced cfg run k t))"

lemma execute_from_ends:
  fixes cfg :: "'x worker_config"
  assumes "rest = drop index (gd_steps (lr_definition run))" and "\<forall>raw \<in> set rest. decode_step raw \<noteq> None"
    and "link_up e" and "worker_inv cn (e, s)" and "serves run index (e, s)"
  shows "\<exists>e' s'. run_prog (execute_from cfg run index rest) (e, s) = (Inr (), (e', s')) \<and> same_sources e e' \<and>
    adds (wk_tables s) (wk_tables s') \<and> ended cfg run index (wk_tables s')"
  using assms
proof (induction rest arbitrary: index e s)
  case Nil
  let ?steps = "gd_steps (lr_definition run)"
  from completes_complete [of cn run index] Nil.prems(3-5) obtain x e' s' where
    "run_prog (complete run) (e, s) = (Inr x, (e', s'))" "same_sources e e'" "adds (wk_tables s) (wk_tables s')"
    "run_is run (\<lambda>r. rw_state r = Succeeded) (wk_tables s')"
    unfolding completes_def by blast
  moreover have "stop_of ?steps index = index" "\<not> index < length ?steps"
    using Nil.prems(1) by (simp_all add: stop_of_def)
  ultimately show ?case by (auto simp: ended_def Let_def)
next
  case (Cons raw rest)
  let ?steps = "gd_steps (lr_definition run)"
  have here: "index < length ?steps"
    using Cons.prems(1) by (rule contrapos_pp) simp
  have "raw # rest = ?steps ! index # drop (Suc index) ?steps"
    unfolding Cons.prems(1) by (rule Cons_nth_drop_Suc [OF here, symmetric])
  with here have index: "?steps ! index = raw" "rest = drop (Suc index) ?steps"
    by simp_all
  obtain current where dec: "decode_step raw = Some current"
    using Cons.prems(2) by auto
  show ?case
  proof (cases "gs_kind current = ''approval''")
    case True
    with dec index(1) here have "stop_of ?steps index = index"
      by (simp add: stop_of_here needs_approval_def)
    moreover from completes_awaitApproval [of cn run index] Cons.prems(3-5) obtain x e' s' where
      "run_prog (awaitApproval run index) (e, s) = (Inr x, (e', s'))" "same_sources e e'" "adds (wk_tables s) (wk_tables s')"
      "run_is run (\<lambda>r. rw_state r = Awaiting_approval \<and> rw_current_step r = index) (wk_tables s')"
      unfolding completes_def by blast
    ultimately show ?thesis
      using True dec here by (auto simp: ended_def Let_def)
  next
    case False
    with dec index(1) have plain: "\<not> needs_approval (?steps ! index)"
      by (simp add: needs_approval_def)
    have "completes cn run index (and_then (execute_step cfg run index current) (\<lambda>_. update_run run (advance_run index)))
        (\<lambda>_ t t'. adds t t' \<and> traced cfg run index t')"
      by (rule completes_then [OF completes_step completes_update_run [where P = "\<lambda>_. True", OF upholds_advance [OF plain]]])
         (use here dec index(1) in \<open>auto simp: run_updates intro: adds_trans traced_adds\<close>)
    with Cons.prems(3-5) obtain x e1 s1 where first:
      "run_prog (and_then (execute_step cfg run index current) (\<lambda>_. update_run run (advance_run index))) (e, s) = (Inr x, (e1, s1))"
      "same_sources e e1" "worker_inv cn (e1, s1)" "serves run index (e1, s1)" "adds (wk_tables s) (wk_tables s1)"
      "traced cfg run index (wk_tables s1)"
      unfolding completes_def by blast
    have "serves run (Suc index) (e1, s1)"
      using first(4) here plain by (simp add: serves_def approvals_before_Suc)
    with Cons.IH [OF index(2) _ _ first(3)] Cons.prems(2,3) link_up_sources [OF first(2)] obtain e' s' where rest:
      "run_prog (execute_from cfg run (Suc index) rest) (e1, s1) = (Inr (), (e', s'))" "same_sources e1 e'"
      "adds (wk_tables s1) (wk_tables s')" "ended cfg run (Suc index) (wk_tables s')"
      by auto
    have "run_prog (execute_from cfg run index (raw # rest)) (e, s) = (Inr (), (e', s'))"
      using first(1) rest(1) dec False by (auto simp: io_bind_assoc [symmetric]) (simp add: io_bind_def)
    moreover have "ended cfg run index (wk_tables s')"
      unfolding ended_def Let_def stop_of_next [OF here plain]
    proof (intro conjI allI impI)
      show "run_is run (\<lambda>r. if stop_of ?steps (Suc index) < length ?steps
          then rw_state r = Awaiting_approval \<and> rw_current_step r = stop_of ?steps (Suc index)
          else rw_state r = Succeeded) (wk_tables s')"
        using rest(4) by (simp only: ended_def Let_def)
      fix k
      assume k: "index \<le> k \<and> k < stop_of ?steps (Suc index) \<and> k < length ?steps"
      show "traced cfg run k (wk_tables s')"
      proof (cases "k = index")
        case True
        with k first(6) traced_adds [OF _ rest(3)] show ?thesis by simp
      next
        case False
        with k rest(4) show ?thesis by (simp add: ended_def Let_def)
      qed
    qed
    ultimately show ?thesis
      using same_sources_trans [OF first(2) rest(2)] adds_trans [OF first(5) rest(3)] by blast
  qed
qed


section \<open>The claim\<close>

lemma insert_event_performed:
  assumes "parse_uuid e u = Some u" and "parse_uuid e i = Some i" and "tenant_exists d u"
    and "i \<in> rw_id ` set (db_runs d)" and "length detail \<le> 500"
  shows "insert_event u i type detail None e (worker_session now d) = Inr ((), with_event u i type detail None now d)"
  using assms
  by (simp add: insert_event_def as_uuid_def ensure_def rls_check_def visible_def Let_def worker_session_def with_event_def)

lemma claim_row_performed:
  assumes "link_up e" and "parse_uuid e i = Some i" and "parse_uuid e (rw_tenant_id row) = Some (rw_tenant_id row)"
    and "tenant_exists d (rw_tenant_id row)" and "i \<in> rw_id ` set (db_runs d)"
    and "decode_definition (wr_definition w) = Some g"
  shows "\<exists>z. claim_row i workerId row w (e, worker_session now d) = (Inr (Some (row, g)), z)"
proof -
  let ?d1 = "update_runs (\<lambda>r. rw_id r = i) (take_run workerId now) d" and ?u = "rw_tenant_id row"
  let ?e1 = "e\<lparr>roundtrips := Suc (roundtrips e)\<rparr>" and ?e2 = "e\<lparr>roundtrips := Suc (Suc (roundtrips e))\<rparr>"
  let ?d2 = "with_event ?u i Ev_leased ''Worker lease acquired'' None now ?d1"
  have next_session: "worker_session now d1\<lparr>se_db := d2\<rparr> = worker_session now d2" "se_role (worker_session now d1) = DarWorker"
      "se_now (worker_session now d1) = now" "se_db (worker_session now d1) = d1" for d1 d2
    by (simp_all add: worker_session_def)
  have there: "i \<in> rw_id ` set (db_runs ?d1)"
    using assms(5) by (subst update_runs_ids) (simp_all add: take_run_def)
  have "insert_event ?u i Ev_leased ''Worker lease acquired'' None ?e2 (worker_session now ?d1) = Inr ((), ?d2)"
    using assms there by (intro insert_event_performed) simp_all
  moreover have "insert_event ?u i Ev_started ''Worker execution started'' None ?e2 (worker_session now ?d2) =
      Inr ((), with_event ?u i Ev_started ''Worker execution started'' None now ?d2)"
    using assms there by (intro insert_event_performed) simp_all
  ultimately have "insert_started ?u i ?e2 (worker_session now ?d1) =
      Inr ((), with_event ?u i Ev_started ''Worker execution started'' None now ?d2)"
    by (simp add: insert_started_def next_session)
  then have second: "query [(Insert, T_events)] (insert_started ?u i) (?e1, worker_session now ?d1) =
      (Inr (), (?e2, worker_session now (with_event ?u i Ev_started ''Worker execution started'' None now ?d2)))"
    using assms(1) by (subst query_link_up) (simp_all add: link_up_def next_session)
  have first: "query [(Update, T_runs), (Select, T_runs)] (set_run i (take_run workerId)) (e, worker_session now d) =
      (Inr (), (?e1, worker_session now ?d1))"
    using assms(1,2) by (subst query_link_up) (simp_all add: next_session set_run_def as_uuid_def)
  show ?thesis
    by (simp add: claim_row_def io_bind_def first second assms(6) io_return_def)
qed

lemma claim_performed:
  assumes "link_up e" and "worker_inv cn (e, s)" and "row \<in> set (db_runs (db_of s))" and "claimable (clock e (ticks e)) row"
  shows "\<exists>lr e' s' w. claim (rw_id row) workerId (e, s) = (Inr (Some lr), (e', s')) \<and> lr_id lr = rw_id row \<and>
    lr_tenantId lr = rw_tenant_id row \<and> lr_currentStep lr = rw_current_step row \<and> lr_input lr = rw_input row \<and>
    w \<in> set (db_workflows (db_of s)) \<and> wr_id w = rw_workflow_id row \<and>
    decode_definition (wr_definition w) = Some (lr_definition lr) \<and>
    wk_tables s' = (wk_tables s)\<lparr>wt_db := with_claim workerId (clock e (ticks e)) row (db_of s)\<rparr>"
proof -
  let ?now = "clock e (ticks e)" and ?d = "db_of s"
  let ?p = "\<lparr>pg_role = DarWorker, pg_db = ?d\<rparr>" and ?s = "worker_session ?now ?d"
  let ?e1 = "e\<lparr>roundtrips := Suc (roundtrips e), ticks := Suc (ticks e)\<rparr>"
  let ?e2 = "?e1\<lparr>roundtrips := Suc (roundtrips ?e1)\<rparr>"
  have ok: "parse_uuid e = cn" "cn (rw_id row) = Some (rw_id row)" "cn (rw_tenant_id row) = Some (rw_tenant_id row)"
      "tenant_exists ?d (rw_tenant_id row)" "distinct (map rw_id (db_runs ?d))" "distinct (map wr_id (db_workflows ?d))"
      "definitions_ok ?d" "\<exists>w \<in> set (db_workflows ?d). wr_id w = rw_workflow_id row"
    using assms(2,3) by (auto simp: worker_inv_def ledger_ok_def schema_ok_def db_ok_def runs_ok_def principals_ok_def)
  let ?found = "[(r, w). r \<leftarrow> db_runs ?d, rw_id r = rw_id row \<and> claimable ?now r, w \<leftarrow> db_workflows ?d, wr_id w = rw_workflow_id r]"
  from ok(8) obtain w0 where "(row, w0) \<in> set ?found"
    using assms(3,4) by auto
  then obtain r w ws where found: "?found = (r, w) # ws"
    by (cases ?found) auto
  then have "(r, w) \<in> set ?found" by simp
  then have r: "r \<in> set (db_runs ?d)" "rw_id r = rw_id row" and w: "w \<in> set (db_workflows ?d)" "wr_id w = rw_workflow_id r"
    by auto
  with distinct_map_inj [OF ok(5) r(1) assms(3)] have "r = row" by simp
  with found w have found: "?found = (row, w) # ws" and w: "w \<in> set (db_workflows ?d)" "wr_id w = rw_workflow_id row"
    by simp_all
  from ok(7) w(1) obtain g where g: "decode_definition (wr_definition w) = Some g"
    by (auto simp: definitions_ok_def decode_definition_json)
  have "select_claim (rw_id row) ?e2 ?s = Inr ((row, w) # ws, ?d)"
    unfolding found [symmetric] using ok(1,2) by (simp add: select_claim_def as_uuid_def worker_session_def cong: if_cong)
  then have select: "query [(Select, T_runs), (Select, T_workflows), (Update, T_runs)] (select_claim (rw_id row)) (?e1, ?s) =
      (Inr ((row, w) # ws), (?e2, ?s))"
    using assms(1) by (subst query_link_up) (simp_all add: link_up_def worker_session_def)
  obtain e3 s3 where claimed: "claim_row (rw_id row) workerId row w (?e2, ?s) = (Inr (Some (row, g)), (e3, s3))"
    using claim_row_performed [of ?e2 "rw_id row" row ?d w g workerId ?now] assms(1,3) ok g by (auto simp: link_up_def)
  then have s3: "se_db s3 = with_claim workerId ?now row ?d"
    using claim_row_completed [OF claimed] ok by simp
  have body: "claim_body (rw_id row) workerId (?e1, ?s) = (Inr (Some (row, g)), (e3, s3))"
    using claimed by (simp add: claim_body_def io_bind_def select)
  have "env_keeps (claim_row (rw_id row) workerId row w)"
    unfolding claim_row_def by (intro env_rules)
  from env_keepsD [OF this claimed] assms(1) have "fates e3 (roundtrips e3) = Performed"
    by (simp add: same_sources_def link_up_def)
  then have tx: "go_transaction (claim_body (rw_id row) workerId) (e, ?p) =
      (Inr (Some (row, g)), (e3\<lparr>roundtrips := Suc (roundtrips e3)\<rparr>, ?p\<lparr>pg_db := se_db s3\<rparr>))"
    using body assms(1)
    by (simp add: go_transaction_def begin_transaction_def io_defs roundtrip_eq link_up_def go_commit_def open_session_def worker_session_def)
  show ?thesis
    using tx g w s3 by (auto simp: claim_def in_db_def io_defs count_worker_def)
qed


section \<open>Where a delivery leaves its run\<close>

text \<open>The first approval step of a workflow from the given step on, or the number of its steps.\<close>

definition resting_step :: "workflow_definition \<Rightarrow> nat \<Rightarrow> nat" where
  "resting_step wd n = n + length (takeWhile (\<lambda>st. \<not> is_approval st) (drop n (wf_steps wd)))"

lemma stop_of_json: "stop_of (map step_json (wf_steps wd)) n = resting_step wd n"
  by (simp add: stop_of_def resting_step_def drop_map takeWhile_map comp_def needs_approval_json)

lemma refused_fetch_json:
  "refused_fetch cfg run (step_json st) \<longleftrightarrow> (\<exists>b. st = Tool Allowlisted_http_fetch b) \<and>
     \<not> validateURL cfg (fetch_target run) (gd_allowedHosts (lr_definition run))"
proof (cases st)
  case (Tool tool b)
  then show ?thesis unfolding refused_fetch_def decode_step_json by (cases tool) simp_all
qed (simp_all add: refused_fetch_def decode_step_json del: step_json.simps)

lemma ended_json:
  assumes "ended cfg run n t" and "gd_steps (lr_definition run) = map step_json (wf_steps wd)"
  shows "run_is run (\<lambda>r. if resting_step wd n < length (wf_steps wd)
      then rw_state r = Awaiting_approval \<and> rw_current_step r = resting_step wd n else rw_state r = Succeeded) t"
    and "n \<le> k \<Longrightarrow> k < resting_step wd n \<Longrightarrow> k < length (wf_steps wd) \<Longrightarrow> wf_steps wd ! k = Tool Mock_ticket_write b \<Longrightarrow>
      committed run k t"
    and "n \<le> k \<Longrightarrow> k < resting_step wd n \<Longrightarrow> k < length (wf_steps wd) \<Longrightarrow> wf_steps wd ! k = Tool Allowlisted_http_fetch b \<Longrightarrow>
      \<not> validateURL cfg (fetch_target run) (gd_allowedHosts (lr_definition run)) \<Longrightarrow>
      event_of run Ev_failed ''http_url_not_allowed'' t"
  using assms(1) unfolding ended_def Let_def assms(2) stop_of_json
  by (simp_all add: traced_def assms(2) writes_ticket_json refused_fetch_json del: step_json.simps)

text \<open>A delivery of a run that can be claimed, with every round trip performed.\<close>

lemma process_ends:
  fixes cfg :: "'x worker_config" and s :: "'x worker"
  assumes "link_up e" and inv: "worker_inv (parse_uuid e) (e, s)" and "decode_queued cfg data = Some (rw_id row)"
    and "isUUID (rw_id row)" and row: "row \<in> set (db_runs (db_of s))" and can: "claimable (clock e (ticks e)) row"
    and w: "w \<in> set (db_workflows (db_of s))" "wr_id w = rw_workflow_id row"
    and wd: "wr_definition w = definition_json wd" "valid_definition wd"
  shows "\<exists>lr e' s'. run_prog (process cfg workerId data) (e, s) = (Inr Processed, (e', s')) \<and> lr_id lr = rw_id row \<and>
    lr_tenantId lr = rw_tenant_id row \<and> lr_input lr = rw_input row \<and> gd_allowedHosts (lr_definition lr) = wf_allowedHosts wd \<and>
    gd_steps (lr_definition lr) = map step_json (wf_steps wd) \<and> ended cfg lr (rw_current_step row) (wk_tables s') \<and>
    worker_inv (parse_uuid e) (e', s') \<and> worker_rely (e, s) (e', s') \<and> adds (wk_tables s) (wk_tables s')"
proof -
  let ?cn = "parse_uuid e"
  obtain lr e1 s1 w' where claimed: "claim (rw_id row) workerId (e, s) = (Inr (Some lr), (e1, s1))"
    and lr: "lr_id lr = rw_id row" "lr_tenantId lr = rw_tenant_id row" "lr_currentStep lr = rw_current_step row" "lr_input lr = rw_input row"
    and w': "w' \<in> set (db_workflows (db_of s))" "wr_id w' = rw_workflow_id row"
      "decode_definition (wr_definition w') = Some (lr_definition lr)"
    and tables: "wk_tables s1 = (wk_tables s)\<lparr>wt_db := with_claim workerId (clock e (ticks e)) row (db_of s)\<rparr>"
    using claim_performed [OF assms(1) inv row can, of workerId] by blast
  have ok: "distinct (map wr_id (db_workflows (db_of s)))" "?cn (rw_id row) = Some (rw_id row)"
    using inv row by (auto simp: worker_inv_def ledger_ok_def schema_ok_def db_ok_def runs_ok_def principals_ok_def)
  have "w' = w"
    using distinct_map_inj [OF ok(1) w'(1) w(1)] w'(2) w(2) by simp
  with w'(3) wd(1) have "lr_definition lr = \<lparr>gd_schemaVersion = wf_schemaVersion wd, gd_allowedHosts = wf_allowedHosts wd,
      gd_steps = map step_json (wf_steps wd)\<rparr>"
    by (simp add: decode_definition_json)
  then have def_lr: "gd_steps (lr_definition lr) = map step_json (wf_steps wd)"
      "gd_allowedHosts (lr_definition lr) = wf_allowedHosts wd" "gd_schemaVersion (lr_definition lr) = wf_schemaVersion wd"
    by simp_all
  from claim_keeps [OF inv ok(2) claimed] have kept: "worker_inv ?cn (e1, s1)" "serves lr (rw_current_step row) (e1, s1)"
    by (auto simp: lr(3))
  have "link_up e1"
    using link_up_sources [OF env_keepsD [OF env_keeps_claim_run claimed]] assms(1) by simp
  moreover have "\<forall>raw \<in> set (drop (rw_current_step row) (gd_steps (lr_definition lr))). decode_step raw \<noteq> None"
    using set_drop_subset [of "rw_current_step row" "gd_steps (lr_definition lr)"]
    by (auto simp: def_lr(1) decode_step_json simp del: step_json.simps)
  ultimately obtain e2 s2 where rest:
    "run_prog (execute_from cfg lr (rw_current_step row) (drop (rw_current_step row) (gd_steps (lr_definition lr)))) (e1, s1) =
      (Inr (), (e2, s2))" "ended cfg lr (rw_current_step row) (wk_tables s2)" "adds (wk_tables s1) (wk_tables s2)"
    using execute_from_ends [OF refl _ _ kept, of cfg] by blast
  have "supportedWorkflowSchema (gd_schemaVersion (lr_definition lr))"
    using wd(2) by (simp add: def_lr(3) supportedWorkflowSchema_def valid_definition_def)
  with rest(1) have "run_prog (execute cfg lr) (e1, s1) = (Inr (), (e2, s2))"
    by (simp add: execute_def lr(3))
  with claimed have run: "run_prog (process cfg workerId data) (e, s) = (Inr Processed, (e2, s2))"
    using assms(3,4) by (simp add: process_def io_bind_def)
  have "workers.fine ?cn (process cfg workerId data) (e, s)"
    by (rule process_fine) (use assms(3) ok(2) in simp)
  from workers.meets_run [OF this [unfolded workers.fine_def] inv run]
  have "worker_inv ?cn (e2, s2)" "worker_rely (e, s) (e2, s2)" by simp_all
  moreover have "adds (wk_tables s) (wk_tables s1)"
    unfolding tables by (simp add: adds_def with_claim_def) (auto simp: with_event_def)
  then have "adds (wk_tables s) (wk_tables s2)"
    using rest(3) by (rule adds_trans)
  ultimately show ?thesis
    using run rest(2) lr def_lr by blast
qed


text \<open>
  C13. A run whose step failed ends as succeeded. When no approval step is left and one of the steps fetches an address
  the workflow does not allow, the delivery records the event \<open>failed\<close> with the code
  \<open>http_url_not_allowed\<close>, goes on with the steps after it and leaves the run as succeeded.
\<close>
theorem failed_step_still_succeeds:
  fixes cfg :: "'x worker_config" and s :: "'x worker"
  assumes "link_up e" and "worker_inv (parse_uuid e) (e, s)" and "decode_queued cfg data = Some (rw_id row)"
    and "isUUID (rw_id row)" and "row \<in> set (db_runs (db_of s))" and "claimable (clock e (ticks e)) row"
    and "w \<in> set (db_workflows (db_of s))" and "wr_id w = rw_workflow_id row"
    and "wr_definition w = definition_json wd" and "valid_definition wd"
    and "resting_step wd (rw_current_step row) = length (wf_steps wd)"
    and "rw_current_step row \<le> k" and "k < length (wf_steps wd)" and "wf_steps wd ! k = Tool Allowlisted_http_fetch b"
    and "map_of (rw_input row) ''url'' = Some (JStr url)" and "\<not> validateURL cfg url (wf_allowedHosts wd)"
  shows "\<exists>e' s'. run_prog (process cfg workerId data) (e, s) = (Inr Processed, (e', s')) \<and>
    (\<exists>x \<in> set (db_events (db_of s')). er_run_id x = rw_id row \<and> er_event_type x = Ev_failed \<and>
       er_detail x = ''http_url_not_allowed'') \<and>
    (\<exists>r \<in> set (db_runs (db_of s')). rw_id r = rw_id row \<and> rw_state r = Succeeded)"
proof -
  from process_ends [OF assms(1-10), of workerId] obtain lr e' s' where
    run: "run_prog (process cfg workerId data) (e, s) = (Inr Processed, (e', s'))"
    and lr: "lr_id lr = rw_id row" "lr_input lr = rw_input row" "gd_steps (lr_definition lr) = map step_json (wf_steps wd)"
      "gd_allowedHosts (lr_definition lr) = wf_allowedHosts wd"
    and ended: "ended cfg lr (rw_current_step row) (wk_tables s')"
    by blast
  have "event_of lr Ev_failed ''http_url_not_allowed'' (wk_tables s')"
    using assms(11-16) by (intro ended_json(3) [OF ended lr(3)]) (simp_all add: lr fetch_target_def)
  moreover have "run_is lr (\<lambda>r. rw_state r = Succeeded) (wk_tables s')"
    using ended_json(1) [OF ended lr(3)] assms(11) by simp
  ultimately show ?thesis
    using run lr(1) by (auto simp: event_of_def run_is_def)
qed


subsection \<open>A sample\<close>

text \<open>A queued run of a workflow that fetches an address which is not allowed, then writes the ticket.\<close>

definition ticket_definition :: workflow_definition where
  "ticket_definition = sample_definition\<lparr>wf_steps := [Tool Allowlisted_http_fetch False, Tool Mock_ticket_write False]\<rparr>"

definition ticket_id :: uuid where
  "ticket_id = ''00000000-0000-4000-8000-00000000000a''"

definition ticket_run :: run_row where
  "ticket_run = new_run_row ticket_id ''t'' ''w'' sample_key [(''url'', JStr ''ftp://example'')] 100 None 0"

definition ticket_message :: outbox_row where
  "ticket_message = \<lparr>ob_id = 1, ob_tenant_id = ''t'', ob_run_id = ticket_id, ob_subject = ''dar.run.queued'',
     ob_payload = [(''runId'', JStr ticket_id)], ob_published_at = None, ob_attempts = 0\<rparr>"

definition ticket_workflow :: workflow_row where
  "ticket_workflow = \<lparr>wr_id = ''w'', wr_tenant_id = ''t'', wr_name = ''research-demo'', wr_version = ''v1'',
     wr_definition = definition_json ticket_definition, wr_budget_cents = 100, wr_created_at = 0\<rparr>"

definition ticket_db :: db where
  "ticket_db = sample_db\<lparr>db_runs := [ticket_run], db_workflows := [ticket_workflow], db_outbox := [ticket_message],
     db_outbox_seq := 2\<rparr>"

definition ticket_worker :: "unit worker" where
  "ticket_worker = \<lparr>wk_tables = \<lparr>wt_db = ticket_db, wt_effects = [], wt_results = []\<rparr>,
     wk_metrics = \<lparr>wm_leaseRecoveries = 0, wm_effectReplays = 0, wm_runTerminals = (\<lambda>_. 0), wm_workerFailures = (\<lambda>_. 0)\<rparr>,
     wk_calls = [], wk_outside = ()\<rparr>"

definition ticket_config :: "unit worker_config" where
  "ticket_config = \<lparr>wc_getenv = (\<lambda>_. []), wc_do = (\<lambda>_ x. (None, x)), wc_parseURL = (\<lambda>_. None), wc_mediaType = (\<lambda>_. None),
     wc_unmarshal = (\<lambda>_. Some (JObj (snd (encode (to_message ticket_message))))), wc_decode = (\<lambda>_. None)\<rparr>"

lemma ticket_definition_valid: "valid_definition ticket_definition"
  using sample_definition_valid by (simp add: ticket_definition_def valid_definition_def superRefine_issues_def)

lemma ticket_row:
  "ticket_run \<in> set (db_runs (db_of ticket_worker))" "claimable now ticket_run" "rw_id ticket_run = ticket_id"
  "rw_tenant_id ticket_run = ''t''" "rw_current_step ticket_run = 0" "map_of (rw_input ticket_run) ''url'' = Some (JStr ''ftp://example'')"
  "ticket_workflow \<in> set (db_workflows (db_of ticket_worker))" "wr_id ticket_workflow = rw_workflow_id ticket_run"
  "wr_definition ticket_workflow = definition_json ticket_definition"
  by (simp_all add: ticket_worker_def ticket_db_def ticket_run_def new_run_row_def claimable_def ticket_workflow_def)

lemma ticket_isUUID: "isUUID (rw_id ticket_run)"
  unfolding ticket_row ticket_id_def by code_simp

lemma ticket_tables: "schema_ok Some (db_of ticket_worker)"
  using ticket_definition_valid
  by (auto simp: ticket_worker_def ticket_db_def schema_ok_def db_ok_defs definitions_ok_def tenant_exists_def sample_db_def
      ticket_run_def new_run_row_def ticket_message_def ticket_workflow_def)

lemma ticket_inv: "worker_inv (parse_uuid sample_env) (sample_env, ticket_worker)"
  using ticket_tables
  by (simp add: worker_inv_def ledger_ok_def approved_ok_def step_limit_def)
     (simp add: ticket_worker_def ticket_db_def ticket_run_def new_run_row_def)

lemma ticket_queued: "decode_queued ticket_config data = Some (rw_id ticket_run)"
  by (simp add: ticket_row decode_queued_def ticket_config_def encode_def to_message_def with_tenantId_def equal_fold_def ticket_message_def)

lemma ticket_link_up: "link_up sample_env"
  by (simp add: link_up_def sample_env_def)

lemmas ticket_premises = ticket_link_up ticket_inv ticket_queued ticket_isUUID ticket_row(1,2,7-9) ticket_definition_valid

lemma ticket_resting: "resting_step ticket_definition (rw_current_step ticket_run) = length (wf_steps ticket_definition)"
  by (simp add: ticket_row resting_step_def ticket_definition_def)


theorem failed_step_still_succeeds_witness:
  "\<exists>e' s'. run_prog (process ticket_config ''one'' []) (sample_env, ticket_worker) = (Inr Processed, (e', s')) \<and>
    (\<exists>x \<in> set (db_events (db_of s')). er_event_type x = Ev_failed) \<and>
    (\<exists>r \<in> set (db_runs (db_of s')). rw_id r = ticket_id \<and> rw_state r = Succeeded)"
proof -
  have "wf_steps ticket_definition ! 0 = Tool Allowlisted_http_fetch False" "0 < length (wf_steps ticket_definition)"
      "\<not> validateURL ticket_config ''ftp://example'' hosts" for hosts
    by (simp_all add: ticket_definition_def validateURL_def ticket_config_def)
  with failed_step_still_succeeds [OF ticket_premises ticket_resting, of 0 False "''ftp://example''" "''one''" "[]"]
  show ?thesis
    unfolding ticket_row by blast
qed

theorem effects_once_and_approved_witness:
  "\<exists>ts e' s'. (runtime_step ticket_config sample_config)\<^sup>*\<^sup>* ([], (sample_env, ticket_worker)) (ts, (e', s')) \<and>
     wt_effects (wk_tables s') \<noteq> [] \<and>
     distinct (map (\<lambda>x. (ef_tenant_id x, ef_run_id x, ef_step_index x)) (wt_effects (wk_tables s')))"
proof -
  let ?p = "process ticket_config ''one'' []"
  obtain lr e' s' where run: "run_prog ?p (sample_env, ticket_worker) = (Inr Processed, (e', s'))"
    and lr: "gd_steps (lr_definition lr) = map step_json (wf_steps ticket_definition)" "ended ticket_config lr 0 (wk_tables s')"
    using process_ends [OF ticket_premises, of "''one''" "[]"] by (auto simp: ticket_row)
  have "committed lr 1 (wk_tables s')"
    using ended_json(2) [OF lr(2,1), of 1 False] ticket_resting by (simp add: ticket_row ticket_definition_def)
  then have effects: "wt_effects (wk_tables s') \<noteq> []"
    by (auto simp: committed_def)
  have "runtime_step ticket_config sample_config ([], (sample_env, ticket_worker)) ([?p], (sample_env, ticket_worker))"
    using runtime_step.deliver [of ticket_message ticket_worker ticket_config "[]" sample_config "[]" sample_env "''one''"]
    by (simp add: ticket_worker_def ticket_db_def ticket_config_def)
  moreover from run_prog_interleave [OF run]
  have "(runtime_step ticket_config sample_config)\<^sup>*\<^sup>* ([?p], (sample_env, ticket_worker)) ([Done (Inr Processed)], (e', s'))"
    by (rule rtranclp_mono [THEN predicate2D, rotated]) (auto intro: runtime_step.work)
  ultimately have steps: "(runtime_step ticket_config sample_config)\<^sup>*\<^sup>* ([], (sample_env, ticket_worker)) ([Done (Inr Processed)], (e', s'))"
    by (rule converse_rtranclp_into_rtranclp)
  from effects_once_and_approved [OF steps] ticket_tables
  have "distinct (map (\<lambda>x. (ef_tenant_id x, ef_run_id x, ef_step_index x)) (wt_effects (wk_tables s')))"
    by (simp add: ticket_worker_def ticket_db_def ticket_run_def new_run_row_def)
  with steps effects show ?thesis by blast
qed

end
