(* ===== verification/WorkerLimits.thy ===== *)
theory WorkerLimits
  imports WorkerRuns
begin

text \<open>
  Limits of a worker. A delivery of a run that cannot be claimed changes nothing and is acknowledged. Whatever happens
  between its actions, a worker calls only the control plane, the configured provider and the addresses a
  workflow allows; these are the requests handed to the HTTP client, which follows redirects except for the last. What it does not respect is a change of state behind its back: it
  completes a run that was cancelled meanwhile.
\<close>

section \<open>Deliveries of runs that cannot be claimed\<close>

lemma claim_body_idle:
  assumes "claim_body i workerId (e, worker_session now d) = (r, z)"
    and "\<forall>row \<in> set (db_runs d). parse_uuid e i = Some (rw_id row) \<longrightarrow> \<not> claimable now row"
  shows "r \<noteq> Inr (Some x)"
proof
  assume "r = Inr (Some x)"
  with assms(1) obtain rows e1 s1 where
    sel: "query [(Select, T_runs), (Select, T_workflows), (Update, T_runs)] (select_claim i) (e, worker_session now d) = (Inr rows, (e1, s1))"
    and rest: "(case rows of [] \<Rightarrow> io_return None | (row, workflow) # _ \<Rightarrow> claim_row i workerId row workflow) (e1, s1) = (Inr (Some x), z)"
    by (auto simp: claim_body_def io_bind_eq_Inr)
  from rest obtain p ps where "rows = p # ps"
    by (cases rows) (auto simp: io_return_def)
  then have "p \<in> set rows" by simp
  moreover from sel have "\<forall>p \<in> set rows. fst p \<in> set (db_runs d) \<and> parse_uuid e i = Some (rw_id (fst p)) \<and> claimable now (fst p)"
    by (auto simp: query_Inr select_claim_def as_uuid_Inr worker_session_def split: if_splits)
  ultimately show False using assms(2) by blast
qed

lemma claim_idle:
  assumes "claim i workerId (e, s) = (r, (e', s'))"
    and "\<forall>row \<in> set (db_runs (db_of s)). parse_uuid e i = Some (rw_id row) \<longrightarrow> \<not> claimable (clock e (ticks e)) row"
  shows "s' = s \<and> (\<forall>run. r \<noteq> Inr (Some run))"
proof -
  let ?p = "\<lparr>pg_role = DarWorker, pg_db = db_of s\<rparr>"
  obtain y e1 p1 where tx: "go_transaction (claim_body i workerId) (e, ?p) = (y, (e1, p1))"
    using prod_cases3 by blast
  from tx have idle: "p1 = ?p \<and> (\<forall>x. y \<noteq> Inr (Some x))"
  proof (cases rule: go_transaction_cases)
    case (committed e2 x e3 s3)
    have "(open_session ?p)\<lparr>se_now := clock e (ticks e)\<rparr> = worker_session (clock e (ticks e)) (db_of s)"
      by (simp add: open_session_def worker_session_def)
    with committed(1,2) claim_body_idle [of i workerId e2 "clock e (ticks e)" "db_of s" "Inr (Some x)" _ x] assms(2)
    show ?thesis by (simp add: same_sources_def)
  qed simp
  have "in_db (go_transaction (claim_body i workerId)) (e, s) = (y, (e1, s))"
    using tx idle by (simp add: in_db_def io_zoom_def)
  with assms(1) idle show ?thesis
    by (cases y) (auto simp: claim_def io_bind_def io_return_def split: option.splits)
qed

text \<open>With every round trip performed the transaction that found nothing ends without an error.\<close>

lemma claim_idle_returns:
  assumes "link_up e" and "parse_uuid e i = Some j"
    and "\<forall>row \<in> set (db_runs (db_of s)). rw_id row = j \<longrightarrow> \<not> claimable (clock e (ticks e)) row"
  shows "\<exists>z. claim i workerId (e, s) = (Inr None, z)"
proof -
  let ?p = "\<lparr>pg_role = DarWorker, pg_db = db_of s\<rparr>" and ?now = "clock e (ticks e)"
  let ?e1 = "e\<lparr>roundtrips := Suc (roundtrips e), ticks := Suc (ticks e)\<rparr>" and ?s = "worker_session (clock e (ticks e)) (db_of s)"
  let ?e2 = "?e1\<lparr>roundtrips := Suc (roundtrips ?e1)\<rparr>"
  have "[(r, w). r \<leftarrow> db_runs (db_of s), rw_id r = j \<and> claimable ?now r, w \<leftarrow> db_workflows (db_of s), wr_id w = rw_workflow_id r] = []"
    using assms(3) by auto
  then have "select_claim i ?e2 ?s = Inr ([], db_of s)"
    using assms(2) by (simp add: select_claim_def as_uuid_def worker_session_def cong: if_cong)
  then have "query [(Select, T_runs), (Select, T_workflows), (Update, T_runs)] (select_claim i) (?e1, ?s) = (Inr [], (?e2, ?s))"
    using assms(1) by (subst query_link_up) (simp_all add: link_up_def worker_session_def)
  then have "claim_body i workerId (?e1, ?s) = (Inr None, (?e2, ?s))"
    by (simp add: claim_body_def io_bind_def io_return_def)
  then show ?thesis
    using assms(1)
    by (simp add: claim_def in_db_def go_transaction_def begin_transaction_def io_defs roundtrip_eq link_up_def
        deferred_rollback_def open_session_def worker_session_def)
qed

text \<open>
  C14. A delivery of a run that cannot be claimed is dropped. If the run of a message is finished, cancelled, waiting for
  approval, or leased to a worker and the lease has not expired, then the delivery changes
  nothing at all, whatever fails; and with every round trip performed it is acknowledged, so that the
  stream will not offer it again. A delivery that was refused and comes back before the lease of the
  first attempt has expired is lost in this way.
\<close>
theorem held_run_delivery_dropped:
  fixes cfg :: "'x worker_config" and s :: "'x worker"
  assumes "run_prog (process cfg workerId data) (e, s) = (r, (e', s'))" and "decode_queued cfg data = Some i"
    and "parse_uuid e i = Some j"
    and "\<forall>row \<in> set (db_runs (db_of s)). rw_id row = j \<longrightarrow> rw_state row \<noteq> Queued \<and>
      (rw_state row \<in> {Leased, Running} \<longrightarrow> (\<exists>x. rw_lease_expires_at row = Some x \<and> clock e (ticks e) \<le> x))"
  shows "s' = s \<and> (link_up e \<longrightarrow> acknowledgement_of r = Ack)"
proof (cases "isUUID i")
  case False
  with assms(1,2) show ?thesis by (auto simp: process_def)
next
  case True
  have idle: "\<forall>row \<in> set (db_runs (db_of s)). rw_id row = j \<longrightarrow> \<not> claimable (clock e (ticks e)) row"
    using assms(4) by (fastforce simp: claimable_def)
  obtain y e1 s1 where claim: "claim i workerId (e, s) = (y, (e1, s1))"
    using prod_cases3 by blast
  from claim_idle [OF claim] idle assms(3) have 1: "s1 = s" "y \<noteq> Inr (Some run)" for run
    by auto
  have 2: "link_up e \<Longrightarrow> y = Inr None"
    using claim_idle_returns [OF _ assms(3) idle, of workerId] claim by auto
  from claim 1(2) assms(1,2) True have "s' = s1 \<and> (r = Inr Processed \<or> (\<exists>err. y = Inl err))"
    by (cases y) (auto simp: process_def io_bind_def split: option.splits)
  with 1(1) 2 show ?thesis by auto
qed


text \<open>The run of the sample, held by a worker whose lease has not expired.\<close>

definition held_worker :: "unit worker" where
  "held_worker = ticket_worker\<lparr>wk_tables := (wk_tables ticket_worker)\<lparr>wt_db := ticket_db\<lparr>db_runs :=
     [ticket_run\<lparr>rw_state := Running, rw_lease_owner := Some ''one'', rw_lease_expires_at := Some 30000\<rparr>]\<rparr>\<rparr>\<rparr>"

theorem held_run_delivery_dropped_witness:
  "\<exists>r e'. run_prog (process ticket_config ''two'' []) (sample_env, held_worker) = (r, (e', held_worker)) \<and>
     acknowledgement_of r = Ack"
proof -
  obtain r e' s' where run: "run_prog (process ticket_config ''two'' []) (sample_env, held_worker) = (r, (e', s'))"
    using prod_cases3 by blast
  have "decode_queued ticket_config [] = Some ticket_id" "parse_uuid sample_env ticket_id = Some ticket_id"
    using ticket_queued [of "[]"] by (simp_all add: ticket_row)
  from held_run_delivery_dropped [OF run this] ticket_link_up run show ?thesis
    by (auto simp: held_worker_def)
qed


section \<open>The calls of a worker\<close>

text \<open>
  \<open>may_do p w w'\<close>: whatever the world does between the actions of the program, one of its actions may be taken
  in the world \<open>w\<close> and lead to \<open>w'\<close>.
\<close>

inductive may_do :: "('s, 'a) prog \<Rightarrow> 's world \<Rightarrow> 's world \<Rightarrow> bool" where
  first: "may_do (Act g) w (snd (g w))"
| later: "may_do (fst (g w0)) w w' \<Longrightarrow> may_do (Act g) w w'"

inductive_cases may_do_ActE: "may_do (Act g) w w'"
inductive_cases may_do_DoneE [elim!]: "may_do (Done r) w w'"

lemma may_do_atomic: "may_do (atomic m) w w' \<longleftrightarrow> w' = snd (m w)"
  unfolding atomic_def
proof
  assume "may_do (Act (\<lambda>w. case m w of (r, w') \<Rightarrow> (Done r, w'))) w w'"
  then show "w' = snd (m w)"
    by (rule may_do_ActE) (auto split: prod.splits)
next
  assume "w' = snd (m w)"
  with may_do.first [of "\<lambda>w. case m w of (r, w') \<Rightarrow> (Done r, w')" w]
  show "may_do (Act (\<lambda>w. case m w of (r, w') \<Rightarrow> (Done r, w'))) w w'"
    by (simp split: prod.splits)
qed

lemma may_do_then: "may_do (and_then p f) w w' \<Longrightarrow> may_do p w w' \<or> (\<exists>x. may_do (f x) w w')"
proof (induction p)
  case (Done r)
  then show ?case by (cases r) auto
next
  case (Act g)
  from Act.prems consider "w' = snd (g w)" | w0 where "may_do (and_then (fst (g w0)) f) w w'"
    unfolding and_then.simps by (auto elim!: may_do_ActE)
  then show ?case
  proof cases
    case 1
    then show ?thesis by (auto intro: may_do.first)
  next
    case (2 w0)
    with Act.IH [of "g w0" "fst (g w0)"] have "may_do (fst (g w0)) w w' \<or> (\<exists>x. may_do (f x) w w')"
      by (cases "g w0") (auto, metis rangeI)
    then show ?thesis by (auto intro: may_do.later)
  qed
qed

text \<open>An action that is scheduled is one the program may do, and what is left of the program may do no more than before.\<close>

lemma interleave_may_do:
  assumes "interleave (ts, w) (ts', w')" and "\<And>p w1 w2. p \<in> set ts \<Longrightarrow> may_do p w1 w2 \<Longrightarrow> P w1 w2"
  shows "P w w'" and "p' \<in> set ts' \<Longrightarrow> may_do p' w1 w2 \<Longrightarrow> P w1 w2"
proof -
  from assms(1) obtain i g p where step: "ts' = ts[i := p]" "Act g \<in> set ts" "g w = (p, w')"
    by (rule interleaveE) (metis nth_mem)
  with assms(2) [OF step(2) may_do.first [of g w]] show "P w w'" by simp
  assume "p' \<in> set ts'" and p': "may_do p' w1 w2"
  then consider "p' = p" | "p' \<in> set ts"
    using step(1) set_update_subset_insert [of ts i p] by blast
  then show "P w1 w2"
  proof cases
    case 1
    with p' step(3) have "may_do (Act g) w1 w2" by (auto intro: may_do.later [of g w])
    with assms(2) step(2) show ?thesis by blast
  qed (use assms(2) p' in blast)
qed

text \<open>Every action makes at most one call, and that one satisfies \<open>P\<close>.\<close>

definition calls_only :: "(go_request \<Rightarrow> bool) \<Rightarrow> ('x worker, 'a) prog \<Rightarrow> bool" where
  "calls_only P p \<longleftrightarrow> (\<forall>w w'. may_do p w w' \<longrightarrow>
     wk_calls (snd w') = wk_calls (snd w) \<or> (\<exists>rq. P rq \<and> wk_calls (snd w') = wk_calls (snd w) @ [rq]))"

named_theorems calls_rules \<open>parts of a worker that call only what they may\<close>

lemma calls_only_Done [calls_rules]: "calls_only P (Done r)"
  by (auto simp: calls_only_def)

lemma calls_only_then [calls_rules]:
  "calls_only P p \<Longrightarrow> (\<And>x. calls_only P (f x)) \<Longrightarrow> calls_only P (and_then p f)"
  unfolding calls_only_def using may_do_then by metis

lemma calls_only_branch [calls_rules]:
  "(b \<Longrightarrow> calls_only P p) \<Longrightarrow> (\<not> b \<Longrightarrow> calls_only P q) \<Longrightarrow> calls_only P (if b then p else q)"
  "(o' = None \<Longrightarrow> calls_only P p) \<Longrightarrow> (\<And>x. o' = Some x \<Longrightarrow> calls_only P (f x)) \<Longrightarrow>
     calls_only P (case o' of None \<Rightarrow> p | Some x \<Rightarrow> f x)"
  by (auto split: option.split)

lemma calls_only_quiet:
  "(\<And>e s. wk_calls (snd (snd (m (e, s)))) = wk_calls s) \<Longrightarrow> calls_only P (atomic m)"
  by (auto simp: calls_only_def may_do_atomic)

lemma pool_exec_quiet [calls_rules]: "calls_only P (atomic (pool_exec q))"
  by (rule calls_only_quiet)
     (auto simp: pool_exec_def perform_def io_defs split: db_fate.splits sum.splits prod.splits)

lemma count_quiet [calls_rules]: "calls_only P (atomic (count_worker f))"
  by (rule calls_only_quiet) (simp add: count_worker_def io_modify_def)

lemma http_calls [calls_rules]: "P rq \<Longrightarrow> calls_only P (http_do cfg rq)"
  by (auto simp: calls_only_def http_do_def may_do_atomic split: prod.splits)

lemma plain_calls [calls_rules]:
  "calls_only P (recordStep run index kind status label)" "calls_only P (update_run run f)"
  "calls_only P (add_event run type detail)" "calls_only P (count_terminal st)"
  unfolding recordStep_def update_run_def add_event_def exec_db_def count_terminal_def by (intro calls_rules)+

lemma ending_calls [calls_rules]:
  "calls_only P (fail run errorCode)" "calls_only P (uncertain run errorCode)" "calls_only P (complete run)"
  "calls_only P (awaitApproval run index)"
  unfolding fail_def uncertain_def end_with_def complete_def awaitApproval_def by (intro calls_rules)+

lemma fetched_calls [calls_rules]: "calls_only P (judge_fetched cfg run index r)"
  unfolding judge_fetched_def by (intro calls_rules)

text \<open>The calls a worker may make for a run.\<close>

definition run_call :: "'x worker_config \<Rightarrow> leased_run \<Rightarrow> go_request \<Rightarrow> bool" where
  "run_call cfg run rq \<longleftrightarrow>
     rq = fetch_request (fetch_target run) \<and> validateURL cfg (fetch_target run) (gd_allowedHosts (lr_definition run)) \<or>
     (\<exists>handle. lr_credentialHandle run = Some handle \<and> rq = consume_request cfg handle) \<and> wc_getenv cfg ''DAR_INTERNAL_TOKEN'' \<noteq> [] \<or>
     (\<exists>credential prompt. lr_credentialHandle run \<noteq> None \<and> credential \<noteq> [] \<and>
        provider_allowed cfg (wc_getenv cfg ''OPENAI_COMPATIBLE_BASE_URL'') \<and>
        rq = provider_request (wc_getenv cfg ''OPENAI_COMPATIBLE_BASE_URL'') (wc_getenv cfg ''OPENAI_COMPATIBLE_MODEL'') credential prompt)"

lemma provider_calls [calls_rules]: "calls_only (run_call cfg run) (executeProviderModel cfg run index current)"
  unfolding executeProviderModel_def callOpenAICompatible_def
  by (intro calls_rules) (auto simp: run_call_def)

lemma tool_calls [calls_rules]: "calls_only (run_call cfg run) (executeTool cfg run index current)"
  unfolding executeTool_def by (intro calls_rules) (auto simp: run_call_def)

lemma step_calls [calls_rules]: "calls_only (run_call cfg run) (execute_step cfg run index current)"
  unfolding execute_step_def by (intro calls_rules)

lemma execute_from_calls [calls_rules]: "calls_only (run_call cfg run) (execute_from cfg run index rest)"
  by (induction rest arbitrary: index) (simp_all add: calls_rules split: option.split)



lemma may_do_left: "may_do p w w' \<Longrightarrow> may_do (and_then p f) w w'"
proof (induction rule: may_do.induct)
  case (first g w)
  from may_do.first [of "\<lambda>w. map_prod (\<lambda>p. and_then p f) id (g w)" w] show ?case by simp
next
  case (later g w0 w w')
  from later.IH show ?case
    by (auto intro: may_do.later [of "\<lambda>w. map_prod (\<lambda>p. and_then p f) id (g w)" w0])
qed

definition fetch_config :: "unit worker_config" where
  "fetch_config = ticket_config\<lparr>wc_parseURL := (\<lambda>_. Some \<lparr>gu_scheme = ''https'', gu_hostname = ''example.test''\<rparr>)\<rparr>"

definition fetch_run :: leased_run where
  "fetch_run = \<lparr>lr_id = ticket_id, lr_tenantId = ''t'', lr_currentStep = 0, lr_input = [(''url'', JStr ''https://example.test/'')],
     lr_definition = \<lparr>gd_schemaVersion = ''1'', gd_allowedHosts = [''example.test''],
       gd_steps = [JObj [(''kind'', JStr ''tool''), (''tool'', JStr ''allowlisted_http_fetch'')]]\<rparr>,
     lr_credentialHandle = None\<rparr>"



section \<open>Changes behind a worker's back\<close>

text \<open>
  C22. A run cancelled under a worker is completed. A worker that serves a run and has no step left marks the run as succeeded
  and records the event, although the run was cancelled meanwhile: the update names the run
  and looks neither at its state nor at the owner of its lease. \<open>cancelled\<close> is a final state of the
  transition table.
\<close>
theorem cancelled_run_completed:
  fixes s :: "'x worker"
  assumes "link_up e" and "worker_inv (parse_uuid e) (e, s)" and "serves run n (e, s)"
    and "row \<in> set (db_runs (db_of s))" and "rw_id row = lr_id run" and "rw_state row = Cancelled"
  shows "\<exists>e' s'. run_prog (complete run) (e, s) = (Inr (), (e', s')) \<and>
    (\<exists>r \<in> set (db_runs (db_of s')). rw_id r = rw_id row \<and> rw_state r = Succeeded) \<and>
    (\<exists>x \<in> set (db_events (db_of s')). er_run_id x = rw_id row \<and> er_event_type x = Ev_succeeded) \<and>
    Succeeded \<notin> set (allowedTransitions (rw_state row))"
proof -
  from completes_complete [of "parse_uuid e" run n] assms(1-3) obtain x e' s' where
    "run_prog (complete run) (e, s) = (Inr x, (e', s'))" "run_is run (\<lambda>r. rw_state r = Succeeded) (wk_tables s')"
    "event_of run Ev_succeeded ''All workflow steps completed'' (wk_tables s')"
    unfolding completes_def by blast
  with assms(5,6) show ?thesis
    by (auto simp: run_is_def event_of_def)
qed

text \<open>The run of the sample, taken by a worker and then cancelled.\<close>

definition cancelled_worker :: "unit worker" where
  "cancelled_worker = ticket_worker\<lparr>wk_tables := (wk_tables ticket_worker)\<lparr>wt_db := ticket_db\<lparr>db_runs :=
     [ticket_run\<lparr>rw_state := Cancelled, rw_current_step := 2\<rparr>]\<rparr>\<rparr>\<rparr>"

definition cancelled_run :: leased_run where
  "cancelled_run = \<lparr>lr_id = ticket_id, lr_tenantId = ''t'', lr_currentStep = 0, lr_input = [],
     lr_definition = \<lparr>gd_schemaVersion = ''1'', gd_allowedHosts = [''example.test''],
       gd_steps = map step_json (wf_steps ticket_definition)\<rparr>, lr_credentialHandle = None\<rparr>"

theorem cancelled_run_completed_witness:
  "\<exists>e' s'. run_prog (complete cancelled_run) (sample_env, cancelled_worker) = (Inr (), (e', s')) \<and>
     map rw_state (db_runs (db_of cancelled_worker)) = [Cancelled] \<and> (\<exists>r \<in> set (db_runs (db_of s')). rw_state r = Succeeded)"
proof -
  have limit: "approvals_before (map step_json (wf_steps ticket_definition)) n = 0" for n
    unfolding approvals_before_json by (cases n; cases "n - 1"; simp add: ticket_definition_def)
  have "schema_ok Some (db_of cancelled_worker)"
    using ticket_definition_valid
    by (auto simp: cancelled_worker_def ticket_db_def schema_ok_def db_ok_defs definitions_ok_def tenant_exists_def sample_db_def
        ticket_run_def new_run_row_def ticket_message_def ticket_workflow_def)
  moreover have "approved_ok (db_of cancelled_worker)"
    by (simp add: approved_ok_def cancelled_worker_def step_limit_def ticket_db_def ticket_workflow_def steps_of_def
        decode_definition_json limit)
  ultimately have inv: "worker_inv (parse_uuid sample_env) (sample_env, cancelled_worker)"
    by (simp add: worker_inv_def ledger_ok_def) (simp add: cancelled_worker_def ticket_worker_def)
  have serves: "serves cancelled_run 2 (sample_env, cancelled_worker)"
    by (simp add: serves_def executes_def cancelled_run_def cancelled_worker_def ticket_db_def ticket_workflow_def
        run_keys_def ticket_run_def new_run_row_def decode_definition_json limit)
       (simp add: ticket_definition_def sample_definition_def)
  from cancelled_run_completed [OF ticket_link_up inv serves, of "ticket_run\<lparr>rw_state := Cancelled, rw_current_step := 2\<rparr>"]
  show ?thesis
    by (auto simp: cancelled_worker_def ticket_row cancelled_run_def)
qed


section \<open>Settings\<close>

text \<open>Whatever the variables hold, the pool and the drain stay within their bounds.\<close>

lemma settings_bounded:
  "0 < workerConcurrency parsed \<and> workerConcurrency parsed \<le> 128"
  "1000000000 \<le> workerDrainTimeout parsed \<and> workerDrainTimeout parsed \<le> 120000000000"
  by (auto simp: workerConcurrency_def workerDrainTimeout_def split: option.splits)

end
