(* ===== verification/Ledger.thy ===== *)
theory Ledger
  imports WorkerSystem
begin

text \<open>
  The interface of an effect ledger (\<open>internal/effects/effects.go\<close>): \<open>Commit\<close> of a key answers whether
  the key was new, and the ledger holds it afterwards. Clients of the interface see every key
  committed once, however often it is offered and in whatever order; this is proved once and holds
  of the \<open>MemoryLedger\<close> and of the table the worker writes.
\<close>

section \<open>The interface\<close>

text \<open>Attempts one after another, with their answers; a mutex and a unique index give an order to concurrent ones.\<close>

primrec run_commits :: "('a \<Rightarrow> 'l \<Rightarrow> bool \<times> 'l) \<Rightarrow> 'a list \<Rightarrow> 'l \<Rightarrow> bool list \<times> 'l" where
  "run_commits commit [] l = ([], l)"
| "run_commits commit (a # as) l =
     (case commit a l of (b, l1) \<Rightarrow> case run_commits commit as l1 of (bs, l2) \<Rightarrow> (b # bs, l2))"

text \<open>The answers a ledger owes to keys offered in a row, when it holds \<open>H\<close>.\<close>

primrec answers :: "'k list \<Rightarrow> 'k set \<Rightarrow> bool list" where
  "answers [] H = []"
| "answers (k # ks) H = (k \<notin> H) # answers ks (insert k H)"

lemma answers_map:
  assumes "inj_on f (set ks \<union> H)"
  shows "answers (map f ks) (f ` H) = answers ks H"
  using assms
proof (induction ks arbitrary: H)
  case (Cons k ks)
  then have "f k \<in> f ` H \<longleftrightarrow> k \<in> H"
    by (auto simp: inj_on_def)
  with Cons.IH [of "insert k H"] Cons.prems show ?case by simp
qed simp

lemma answers_without:
  "set ks \<inter> H' = {} \<Longrightarrow> answers ks (H \<union> H') = answers ks H"
  by (induction ks arbitrary: H) (auto simp: Un_insert_left [symmetric] simp del: Un_insert_left)

text \<open>A key is answered as new once, if it was offered and was not held.\<close>

lemma answers_once:
  "length (filter (\<lambda>(k', b). b \<and> k' = k) (zip ks (answers ks H))) = (if k \<in> set ks - H then 1 else 0)"
proof (induction ks arbitrary: H)
  case (Cons k' ks)
  with Cons.IH [of "insert k' H"] show ?case
    by (auto simp del: length_0_conv)
qed simp

locale effect_ledger =
  fixes commit :: "'a \<Rightarrow> 'l \<Rightarrow> bool \<times> 'l"
    and key_of :: "'a \<Rightarrow> 'k"
    and held :: "'l \<Rightarrow> 'k set"
    and accepts :: "'l \<Rightarrow> 'a \<Rightarrow> bool"
  assumes commit_answer: "accepts l a \<Longrightarrow> commit a l = (b, l') \<Longrightarrow> b \<longleftrightarrow> key_of a \<notin> held l"
    and commit_held: "accepts l a \<Longrightarrow> commit a l = (b, l') \<Longrightarrow> held l' = insert (key_of a) (held l)"
    and commit_accepts: "accepts l a \<Longrightarrow> accepts l a' \<Longrightarrow> commit a l = (b, l') \<Longrightarrow> accepts l' a'"
begin

lemma commits_refine:
  assumes "run_commits commit as l = (bs, l')" and "\<forall>a \<in> set as. accepts l a"
  shows "bs = answers (map key_of as) (held l) \<and> held l' = key_of ` set as \<union> held l"
  using assms
proof (induction as arbitrary: l bs)
  case (Cons a as)
  obtain b l1 where a: "commit a l = (b, l1)" by (rule prod.exhaust)
  obtain bs1 where rest: "run_commits commit as l1 = (bs1, l')" "bs = b # bs1"
    using Cons.prems(1) a by (auto split: prod.splits)
  with Cons.IH [OF rest(1)] Cons.prems(2) commit_held [OF _ a] commit_accepts [OF _ _ a] commit_answer [OF _ a] show ?case
    by auto
qed simp

end


section \<open>The ledger in memory\<close>

record ledger_key =
  lk_tenantId :: string
  lk_runId :: string
  lk_stepIndex :: int
  lk_effectKey :: string

record ledger_commit =
  lc_key :: ledger_key
  lc_outcome :: string

type_synonym memory_ledger = "ledger_key \<rightharpoonup> string"

definition newMemoryLedger :: memory_ledger where
  "newMemoryLedger = Map.empty"

definition memory_commit :: "ledger_commit \<Rightarrow> memory_ledger \<Rightarrow> bool \<times> memory_ledger" where
  "memory_commit c l =
     (case l (lc_key c) of
        Some _ \<Rightarrow> (False, l)
      | None \<Rightarrow> (True, l(lc_key c \<mapsto> lc_outcome c)))"

interpretation memory: effect_ledger memory_commit lc_key dom "\<lambda>_ _. True"
  by unfold_locales (auto simp: memory_commit_def split: option.splits)


section \<open>The ledger in the database\<close>

text \<open>An attempt names the tenant, the run, the step and the key of the effect.\<close>

type_synonym effect_attempt = "string \<times> string \<times> nat \<times> string"

definition table_commit :: "env \<Rightarrow> timestamp \<Rightarrow> effect_attempt \<Rightarrow> worker_tables \<Rightarrow> bool \<times> worker_tables" where
  "table_commit e now = (\<lambda>(tenant, runId, index, key) t.
     case insert_effect tenant runId index key e now t of
       Inl err \<Rightarrow> (False, t)
     | Inr (n, t') \<Rightarrow> (n = 1, t'))"

definition attempt_key :: "env \<Rightarrow> effect_attempt \<Rightarrow> uuid option \<times> string" where
  "attempt_key e = (\<lambda>(tenant, runId, index, key). (parse_uuid e tenant, key))"

definition effect_keys :: "worker_tables \<Rightarrow> (uuid option \<times> string) set" where
  "effect_keys t = (\<lambda>x. (Some (ef_tenant_id x), ef_effect_key x)) ` set (wt_effects t)"

text \<open>The references of the row exist.\<close>

definition attempt_ok :: "env \<Rightarrow> worker_tables \<Rightarrow> effect_attempt \<Rightarrow> bool" where
  "attempt_ok e t = (\<lambda>(tenant, runId, index, key). \<exists>u i. parse_uuid e tenant = Some u \<and> parse_uuid e runId = Some i \<and>
     tenant_exists (wt_db t) u \<and> i \<in> set (map rw_id (db_runs (wt_db t))))"

lemma table_commit_cases:
  assumes "attempt_ok e t (tenant, runId, index, key)" and "table_commit e now (tenant, runId, index, key) t = (b, t')"
  obtains u where "parse_uuid e tenant = Some u" and "(Some u, key) \<in> effect_keys t" and "t' = t" and "\<not> b"
  | u i where "parse_uuid e tenant = Some u" and "(Some u, key) \<notin> effect_keys t" and "b"
      and "t' = t\<lparr>wt_effects := wt_effects t @ [\<lparr>ef_tenant_id = u, ef_run_id = i, ef_step_index = index,
        ef_effect_key = key, ef_committed_at = now\<rparr>]\<rparr>"
proof -
  from assms(1) obtain u i where ui: "parse_uuid e tenant = Some u" "parse_uuid e runId = Some i"
      "tenant_exists (wt_db t) u" "i \<in> set (map rw_id (db_runs (wt_db t)))"
    by (auto simp: attempt_ok_def)
  have "(u, key) \<in> set (map (\<lambda>x. (ef_tenant_id x, ef_effect_key x)) (wt_effects t)) \<longleftrightarrow> (Some u, key) \<in> effect_keys t"
    by (force simp: effect_keys_def)
  note here = this
  show thesis
  proof (cases "(Some u, key) \<in> effect_keys t")
    case True
    with here ui have "insert_effect tenant runId index key e now t = Inr (0, t)"
      by (simp add: insert_effect_def as_uuid_def)
    with assms(2) that(1) [OF ui(1) True] show thesis
      by (simp add: table_commit_def)
  next
    case False
    let ?t' = "t\<lparr>wt_effects := wt_effects t @ [\<lparr>ef_tenant_id = u, ef_run_id = i, ef_step_index = index,
      ef_effect_key = key, ef_committed_at = now\<rparr>]\<rparr>"
    from False here ui have "insert_effect tenant runId index key e now t = Inr (1, ?t')"
      by (simp add: insert_effect_def as_uuid_def ensure_def)
    with assms(2) have "b" "t' = ?t'"
      by (simp_all add: table_commit_def)
    then show thesis
      by (rule that(2) [OF ui(1) False])
  qed
qed

interpretation table: effect_ledger "table_commit e now" "attempt_key e" effect_keys "attempt_ok e"
  for e :: env and now :: timestamp
proof
  fix l l' :: worker_tables and a a' :: effect_attempt and b
  obtain tenant runId index key where a: "a = (tenant, runId, index, key)" by (rule prod_cases4)
  assume ok: "attempt_ok e l a" and commit: "table_commit e now a l = (b, l')"
  note cases = table_commit_cases [OF ok [unfolded a] commit [unfolded a]]
  from cases show "b \<longleftrightarrow> attempt_key e a \<notin> effect_keys l"
    by cases (simp_all add: a attempt_key_def)
  from cases show "effect_keys l' = insert (attempt_key e a) (effect_keys l)"
    by cases (auto simp: a attempt_key_def effect_keys_def)
  assume "attempt_ok e l a'"
  with cases show "attempt_ok e l' a'"
    by cases (simp_all add: attempt_ok_def)
qed


section \<open>Agreement\<close>

definition commit_of :: "effect_attempt \<Rightarrow> ledger_commit" where
  "commit_of = (\<lambda>(tenant, runId, index, key).
     \<lparr>lc_key = \<lparr>lk_tenantId = tenant, lk_runId = runId, lk_stepIndex = int index, lk_effectKey = key\<rparr>, lc_outcome = []\<rparr>)"



definition ledger_tables :: worker_tables where
  "ledger_tables = \<lparr>wt_db = pg_db sample_queue, wt_effects = [], wt_results = []\<rparr>"


end
