(* ===== verification/Lifecycle.thy ===== *)
theory Lifecycle
  imports WorkerRuns
begin

text \<open>
  The whole life of a run. From any state the system can reach, a queued run can be brought to its end: a worker takes
  its message and executes it up to an approval step, an owner or operator approves, which queues
  the run again with a new message, and so on. Under this schedule, with every round trip
  performed, the run succeeds and every ticket of its workflow is written.
\<close>

section \<open>A delivery among others\<close>

lemma interleave_beside: "interleave (ps, w) (ps', w') \<Longrightarrow> interleave (ts @ ps, w) (ts @ ps', w')"
proof (erule interleaveE)
  fix i g p
  assume step: "ps' = ps[i := p]" "i < length ps" "ps ! i = Act g" "g w = (p, w')"
  with interleave.act [of "length ts + i" "ts @ ps" g w p w'] show "interleave (ts @ ps, w) (ts @ ps', w')"
    by (simp add: nth_append list_update_append)
qed

lemma interleaves_beside:
  assumes "interleave\<^sup>*\<^sup>* x y"
  shows "interleave\<^sup>*\<^sup>* (ts @ fst x, snd x) (ts @ fst y, snd y)"
  using assms
proof (induction rule: rtranclp_induct)
  case (step y z)
  with interleave_beside [of "fst y" "snd y" "fst z" "snd z" ts] show ?case
    by (auto intro: rtranclp.rtrancl_into_rtrancl)
qed simp

lemma delivered_alone:
  assumes "row \<in> set (db_outbox (db_of s))" and "wc_unmarshal cfg data = Some (JObj (snd (encode (to_message row))))"
    and "run_prog (process cfg workerId data) (e, s) = (r, (e', s'))"
  shows "(runtime_step cfg cf)\<^sup>*\<^sup>* (ts, (e, s)) (ts @ [Done r], (e', s'))"
proof -
  have "interleave\<^sup>*\<^sup>* (ts @ [process cfg workerId data], (e, s)) (ts @ [Done r], (e', s'))"
    using interleaves_beside [OF run_prog_interleave [OF assms(3)], of ts] by simp
  then have rest: "(runtime_step cfg cf)\<^sup>*\<^sup>* (ts @ [process cfg workerId data], (e, s)) (ts @ [Done r], (e', s'))"
    by (rule rtranclp_mono [THEN predicate2D, rotated]) (auto intro: runtime_step.work)
  have "runtime_step cfg cf (ts, (e, s)) (ts @ [process cfg workerId data], (e, s))"
    using assms(1,2) by (rule runtime_step.deliver)
  from this rest show ?thesis
    by (rule converse_rtranclp_into_rtranclp)
qed

section \<open>One round\<close>

lemma resting_approval:
  assumes "resting_step wd n < length (wf_steps wd)"
  shows "is_approval (wf_steps wd ! resting_step wd n)"
proof -
  let ?xs = "drop n (wf_steps wd)" and ?m = "length (takeWhile (\<lambda>st. \<not> is_approval st) (drop n (wf_steps wd)))"
  have "?m < length ?xs"
    using assms by (simp add: resting_step_def)
  then have "is_approval (?xs ! ?m)"
    using nth_length_takeWhile by blast
  with assms show ?thesis
    by (simp add: resting_step_def)
qed

text \<open>A queued run with its workflow, its message and a key that opens its tenant.\<close>

definition startable :: "env \<Rightarrow> db \<Rightarrow> run_row \<Rightarrow> workflow_definition \<Rightarrow> string \<Rightarrow> string \<Rightarrow> bool" where
  "startable e d row wd slug key \<longleftrightarrow> row \<in> set (db_runs d) \<and> rw_state row = Queued \<and>
     (\<exists>x \<in> set (db_outbox d). ob_run_id x = rw_id row) \<and>
     (\<exists>w \<in> set (db_workflows d). wr_id w = rw_workflow_id row \<and> wr_definition w = definition_json wd) \<and>
     opens e d slug key (rw_tenant_id row)"

text \<open>Every message about the run has a text that decodes to it.\<close>

definition delivers :: "'x worker_config \<Rightarrow> uuid \<Rightarrow> bool" where
  "delivers cfg i \<longleftrightarrow> (\<forall>t. \<exists>data. wc_unmarshal cfg data = Some (JObj [(''runId'', JStr i), (''tenantId'', JStr t)]))"

definition written :: "run_row \<Rightarrow> nat \<Rightarrow> worker_tables \<Rightarrow> bool" where
  "written row k t \<longleftrightarrow>
     (\<exists>x \<in> set (wt_effects t). ef_tenant_id x = rw_tenant_id row \<and> ef_effect_key x = effect_key (rw_id row) k)"

lemma same_key_row:
  assumes "run_keys d \<subseteq> run_keys d'" and "distinct (map rw_id (db_runs d'))" and "row \<in> set (db_runs d)"
    and "r \<in> set (db_runs d')" and "rw_id r = rw_id row"
  shows "rw_tenant_id r = rw_tenant_id row \<and> rw_workflow_id r = rw_workflow_id row"
proof -
  have "(rw_id row, rw_tenant_id row, rw_workflow_id row) \<in> run_keys d'"
    using assms(1,3) by (auto simp: run_keys_def)
  then obtain r' where "r' \<in> set (db_runs d')" "rw_id r' = rw_id row" "rw_tenant_id r' = rw_tenant_id row"
      "rw_workflow_id r' = rw_workflow_id row"
    by (auto simp: run_keys_def)
  with distinct_map_inj [OF assms(2) _ assms(4)] assms(5) show ?thesis by metis
qed

lemma worker_inv_db:
  assumes "worker_inv (parse_uuid e) (e, s)"
  shows "distinct (map rw_id (db_runs (db_of s)))" "pg_ok (parse_uuid e) (e, \<lparr>pg_role = DarControl, pg_db = db_of s\<rparr>)"
    "x \<in> set (db_outbox (db_of s)) \<Longrightarrow> ob_payload x = [(''runId'', JStr (ob_run_id x))]"
  using assms by (auto simp: worker_inv_def ledger_ok_def schema_ok_def db_ok_def runs_ok_def pg_ok_def outbox_ok_def)

lemma opens_frame: "opens e d slug key t \<Longrightarrow> frame d' = frame d \<Longrightarrow> sha256_hex e' = sha256_hex e \<Longrightarrow> opens e' d' slug key t"
  by (simp add: opens_def holds_key_def frame_def)

text \<open>A worker takes the message and brings the run to rest.\<close>

lemma round_of_worker:
  fixes cfg :: "'x worker_config" and s :: "'x worker"
  assumes "link_up e" and inv: "worker_inv (parse_uuid e) (e, s)" and start: "startable e (db_of s) row wd slug key"
    and "isUUID (rw_id row)" and wd: "valid_definition wd" and texts: "delivers cfg (rw_id row)"
  shows "\<exists>ts' e' s' r. (runtime_step cfg cf)\<^sup>*\<^sup>* (ts, (e, s)) (ts', (e', s')) \<and> same_sources e e' \<and>
    worker_inv (parse_uuid e) (e', s') \<and> frame (db_of s') = frame (db_of s) \<and>
    set (wt_effects (wk_tables s)) \<subseteq> set (wt_effects (wk_tables s')) \<and>
    r \<in> set (db_runs (db_of s')) \<and> rw_id r = rw_id row \<and> rw_tenant_id r = rw_tenant_id row \<and> rw_workflow_id r = rw_workflow_id row \<and>
    (if resting_step wd (rw_current_step row) < length (wf_steps wd)
     then rw_state r = Awaiting_approval \<and> rw_current_step r = resting_step wd (rw_current_step row) else rw_state r = Succeeded) \<and>
    (\<forall>k b. rw_current_step row \<le> k \<and> k < resting_step wd (rw_current_step row) \<and> k < length (wf_steps wd) \<and>
       wf_steps wd ! k = Tool Mock_ticket_write b \<longrightarrow> written row k (wk_tables s'))"
proof -
  obtain x w where row: "row \<in> set (db_runs (db_of s))" "rw_state row = Queued"
    and x: "x \<in> set (db_outbox (db_of s))" "ob_run_id x = rw_id row"
    and w: "w \<in> set (db_workflows (db_of s))" "wr_id w = rw_workflow_id row" "wr_definition w = definition_json wd"
    using start by (auto simp: startable_def)
  have "snd (encode (to_message x)) = [(''runId'', JStr (rw_id row)), (''tenantId'', JStr (ob_tenant_id x))]"
    using worker_inv_db(3) [OF inv x(1)] x(2) by (simp add: encode_def to_message_def with_tenantId_def)
  with texts obtain data where data: "wc_unmarshal cfg data = Some (JObj (snd (encode (to_message x))))"
    by (auto simp: delivers_def)
  with worker_inv_db(3) [OF inv x(1)] x(2) have queued: "decode_queued cfg data = Some (rw_id row)"
    by (simp add: decode_queued_def encode_def to_message_def with_tenantId_def equal_fold_def)
  have "claimable (clock e (ticks e)) row"
    using row(2) by (simp add: claimable_def)
  from process_ends [OF assms(1) inv queued assms(4) row(1) this w wd, of "''worker''"] obtain lr e' s' where
    run: "run_prog (process cfg ''worker'' data) (e, s) = (Inr Processed, (e', s'))"
    and lr: "lr_id lr = rw_id row" "lr_tenantId lr = rw_tenant_id row" "gd_steps (lr_definition lr) = map step_json (wf_steps wd)"
    and ended: "ended cfg lr (rw_current_step row) (wk_tables s')"
    and kept: "worker_inv (parse_uuid e) (e', s')" "worker_rely (e, s) (e', s')" "adds (wk_tables s) (wk_tables s')"
    by blast
  from kept(2) have sources: "same_sources e e'" and grown: "grows (db_of s) (db_of s')"
    by (simp_all add: worker_rely_def)
  from ended_json(1) [OF ended lr(3)] obtain r where r: "r \<in> set (db_runs (db_of s'))" "rw_id r = rw_id row"
      "if resting_step wd (rw_current_step row) < length (wf_steps wd)
       then rw_state r = Awaiting_approval \<and> rw_current_step r = resting_step wd (rw_current_step row) else rw_state r = Succeeded"
    by (auto simp: run_is_def lr(1))
  have "parse_uuid e' = parse_uuid e"
    using sources by (simp add: same_sources_def)
  with kept(1) worker_inv_db(1) [of e' s'] have "distinct (map rw_id (db_runs (db_of s')))" by simp
  with same_key_row [of "db_of s" "db_of s'" row r] grown row(1) r have same: "rw_tenant_id r = rw_tenant_id row"
      "rw_workflow_id r = rw_workflow_id row"
    by (simp_all add: grows_def)
  have written: "written row k (wk_tables s')"
    if "rw_current_step row \<le> k \<and> k < resting_step wd (rw_current_step row) \<and> k < length (wf_steps wd) \<and>
      wf_steps wd ! k = Tool Mock_ticket_write b" for k b
    using that ended_json(2) [OF ended lr(3), of k b] by (simp add: committed_def written_def lr(1,2))
  have adds: "frame (db_of s') = frame (db_of s)" "set (wt_effects (wk_tables s)) \<subseteq> set (wt_effects (wk_tables s'))"
    using kept(3) by (simp_all add: adds_def)
  show ?thesis
    by (intro exI [of _ "ts @ [Done (Inr Processed)]"] exI [of _ e'] exI [of _ s'] exI [of _ r] conjI allI impI
        delivered_alone [OF x(1) data run] sources kept(1) r same adds)
       (rule written)
qed

text \<open>An owner or operator approves, and the run can start again behind the approval step.\<close>

lemma round_of_owner:
  fixes s :: "'x worker"
  assumes "link_up e" and inv: "worker_inv (parse_uuid e) (e, s)" and "parse_uuid e [] = None"
    and r: "r \<in> set (db_runs (db_of s))" "rw_state r = Awaiting_approval"
    and w: "\<exists>w \<in> set (db_workflows (db_of s)). wr_id w = rw_workflow_id r \<and> wr_definition w = definition_json wd"
    and opens: "opens e (db_of s) slug key (rw_tenant_id r)" and rq: "approval_request rq (rw_id r) slug key"
  shows "\<exists>e' s' r'. runtime_step cfg cf (ts, (e, s)) (ts, (e', s')) \<and> same_sources e e' \<and> worker_inv (parse_uuid e) (e', s') \<and>
    startable e' (db_of s') r' wd slug key \<and> rw_id r' = rw_id r \<and> rw_tenant_id r' = rw_tenant_id r \<and>
    rw_current_step r' = Suc (rw_current_step r) \<and> wt_effects (wk_tables s') = wt_effects (wk_tables s)"
proof -
  let ?p = "\<lparr>pg_role = DarControl, pg_db = db_of s\<rparr>"
  obtain a :: "pg app_state" where a: "as_store a = ?p"
    by (metis app_state.select_convs(1))
  obtain rp e' a' c ev now where serve: "serve PostgresDurableStore cf rq (e, a) = (Inr rp, (e', a'))"
    and a': "as_store a' = ?p\<lparr>pg_db := with_transition c (rw_id r) Queued ev now (db_of s)\<rparr>"
    and ev: "ev_type ev = Ev_approved" "pr_tenantId c = rw_tenant_id r"
    using approve_served [of e "parse_uuid e" a r rq slug key cf] assms worker_inv_db(2) [OF inv] a by auto
  let ?d = "with_transition c (rw_id r) Queued ev now (db_of s)"
  let ?s = "s\<lparr>wk_tables := (wk_tables s)\<lparr>wt_db := ?d\<rparr>\<rparr>"
  have system: "system_step cf (e, db_of s) (e', pg_db (as_store a'))"
    using a serve by (intro system_step.request) auto
  from system have step: "runtime_step cfg cf (ts, (e, s)) (ts, (e', ?s))" for ts
    using a' by (intro runtime_step.system) simp
  from runtime_step_ok [OF step [of "[]"], of "parse_uuid e"] inv have kept: "worker_inv (parse_uuid e) (e', ?s)"
    by (simp add: runtime_ok_def)
  have "system_step cf (e, db_of s) (e', ?d)"
    using system a' by simp
  from system_step_approved [OF this, of "parse_uuid e"] inv have sources: "same_sources e e'"
    by (simp add: worker_inv_def ledger_ok_def)
  let ?r = "r\<lparr>rw_state := Queued, rw_current_step := Suc (rw_current_step r), rw_updated_at := now\<rparr>"
  have "?r \<in> set (db_runs ?d)"
    using r(1) ev(1) by (auto simp: with_transition_def Let_def) 
  moreover have "\<exists>x \<in> set (db_outbox ?d). ob_run_id x = rw_id r"
    using ev(1) by (auto simp: with_transition_def Let_def with_audit_def with_message_def queued_message_def)
  moreover have access: "db_tenants ?d = db_tenants (db_of s)" "db_principals ?d = db_principals (db_of s)"
      "db_api_keys ?d = db_api_keys (db_of s)" "db_workflows ?d = db_workflows (db_of s)"
    by (simp_all add: with_transition_def Let_def with_audit_def with_message_def with_event_def update_runs_def)
  moreover have "opens e' ?d slug key (rw_tenant_id r)"
    using opens sources access by (simp add: opens_def holds_key_def same_sources_def)
  ultimately have "startable e' ?d ?r wd slug key"
    using w by (simp add: startable_def)
  then show ?thesis
    by (intro exI [of _ e'] exI [of _ ?s] exI [of _ ?r] conjI step sources kept) simp_all
qed


section \<open>All rounds\<close>

lemma run_finishes:
  fixes cfg :: "'x worker_config" and s :: "'x worker"
  assumes "link_up e" and "worker_inv (parse_uuid e) (e, s)" and "parse_uuid e [] = None"
    and "startable e (db_of s) row wd slug key" and "isUUID (rw_id row)" and wd: "valid_definition wd"
    and "approval_request rq (rw_id row) slug key" and "delivers cfg (rw_id row)"
  shows "\<exists>ts' e' s'. (runtime_step cfg cf)\<^sup>*\<^sup>* (ts, (e, s)) (ts', (e', s')) \<and>
    (\<exists>r \<in> set (db_runs (db_of s')). rw_id r = rw_id row \<and> rw_state r = Succeeded) \<and>
    set (wt_effects (wk_tables s)) \<subseteq> set (wt_effects (wk_tables s')) \<and>
    (\<forall>k b. rw_current_step row \<le> k \<and> k < length (wf_steps wd) \<and> wf_steps wd ! k = Tool Mock_ticket_write b \<longrightarrow>
       written row k (wk_tables s'))"
  using assms(1-5,7,8)
proof (induction "length (wf_steps wd) - rw_current_step row" arbitrary: ts e s row rule: less_induct)
  case (less row)
  let ?rest = "resting_step wd (rw_current_step row)"
  obtain ts1 e1 s1 r where steps: "(runtime_step cfg cf)\<^sup>*\<^sup>* (ts, (e, s)) (ts1, (e1, s1))" and e1: "same_sources e e1"
    and inv: "worker_inv (parse_uuid e) (e1, s1)" and frame: "frame (db_of s1) = frame (db_of s)"
    and effects: "set (wt_effects (wk_tables s)) \<subseteq> set (wt_effects (wk_tables s1))"
    and r: "r \<in> set (db_runs (db_of s1))" "rw_id r = rw_id row" "rw_tenant_id r = rw_tenant_id row" "rw_workflow_id r = rw_workflow_id row"
      "if ?rest < length (wf_steps wd) then rw_state r = Awaiting_approval \<and> rw_current_step r = ?rest else rw_state r = Succeeded"
    and written: "\<forall>k b. rw_current_step row \<le> k \<and> k < ?rest \<and> k < length (wf_steps wd) \<and>
       wf_steps wd ! k = Tool Mock_ticket_write b \<longrightarrow> written row k (wk_tables s1)"
    using round_of_worker [OF less.prems(1,2,4,5) wd less.prems(7), where cf = cf and ts = ts] by blast
  show ?case
  proof (cases "?rest < length (wf_steps wd)")
    case False
    then have "\<exists>r \<in> set (db_runs (db_of s1)). rw_id r = rw_id row \<and> rw_state r = Succeeded"
      using r by auto
    moreover have "\<forall>k b. rw_current_step row \<le> k \<and> k < length (wf_steps wd) \<and> wf_steps wd ! k = Tool Mock_ticket_write b \<longrightarrow>
        written row k (wk_tables s1)"
      using written False by simp
    ultimately show ?thesis
      using steps effects by blast
  next
    case True
    then have waits: "rw_state r = Awaiting_approval" "rw_current_step r = ?rest"
      using r(5) by simp_all
    have sources: "parse_uuid e1 = parse_uuid e" "sha256_hex e1 = sha256_hex e"
      using e1 by (simp_all add: same_sources_def)
    have w: "\<exists>w \<in> set (db_workflows (db_of s1)). wr_id w = rw_workflow_id r \<and> wr_definition w = definition_json wd"
      using less.prems(4) frame r(4) by (simp add: startable_def frame_def)
    have opens: "opens e1 (db_of s1) slug key (rw_tenant_id r)"
      using less.prems(4) opens_frame [OF _ frame sources(2)] r(3) by (simp add: startable_def)
    have link: "link_up e1"
      using link_up_sources [OF e1] less.prems(1) by simp
    from inv sources(1) less.prems(3,6) r(2) have "worker_inv (parse_uuid e1) (e1, s1)" "parse_uuid e1 [] = None"
        "approval_request rq (rw_id r) slug key"
      by simp_all
    from round_of_owner [OF link this(1,2) r(1) waits(1) w opens this(3), where cfg = cfg and cf = cf and ts = ts1]
    obtain e2 s2 r' where step: "runtime_step cfg cf (ts1, (e1, s1)) (ts1, (e2, s2))" and e2: "same_sources e1 e2"
      and inv2: "worker_inv (parse_uuid e1) (e2, s2)" and start: "startable e2 (db_of s2) r' wd slug key"
      and r': "rw_id r' = rw_id r" "rw_tenant_id r' = rw_tenant_id r" "rw_current_step r' = Suc (rw_current_step r)"
      and same: "wt_effects (wk_tables s2) = wt_effects (wk_tables s1)"
      by blast
    have sources2: "parse_uuid e2 = parse_uuid e"
      using e2 sources by (simp add: same_sources_def)
    have bound: "rw_current_step row \<le> ?rest"
      by (simp add: resting_step_def)
    have shorter: "length (wf_steps wd) - rw_current_step r' < length (wf_steps wd) - rw_current_step row"
      using True bound r'(3) waits(2) by simp
    have link2: "link_up e2" using link_up_sources [OF e2] link by simp
    have inv3: "worker_inv (parse_uuid e2) (e2, s2)" "parse_uuid e2 [] = None" "isUUID (rw_id r')"
        "approval_request rq (rw_id r') slug key" "delivers cfg (rw_id r')"
      using inv2 sources(1) sources2 less.prems(3,5-7) r'(1) r(2) by simp_all
    from less.hyps [OF shorter link2 inv3(1,2) start inv3(3,4,5), of ts1] obtain ts3 e3 s3 where
      steps3: "(runtime_step cfg cf)\<^sup>*\<^sup>* (ts1, (e2, s2)) (ts3, (e3, s3))"
      and final: "\<exists>r \<in> set (db_runs (db_of s3)). rw_id r = rw_id r' \<and> rw_state r = Succeeded"
      and effects3: "set (wt_effects (wk_tables s2)) \<subseteq> set (wt_effects (wk_tables s3))"
      and written3: "\<forall>k b. rw_current_step r' \<le> k \<and> k < length (wf_steps wd) \<and> wf_steps wd ! k = Tool Mock_ticket_write b \<longrightarrow>
        written r' k (wk_tables s3)"
      by blast
    have "(runtime_step cfg cf)\<^sup>*\<^sup>* (ts, (e, s)) (ts3, (e3, s3))"
      using rtranclp_trans [OF rtranclp.rtrancl_into_rtrancl [OF steps step] steps3] .
    moreover have "written row k (wk_tables s3)"
      if k: "rw_current_step row \<le> k \<and> k < length (wf_steps wd) \<and> wf_steps wd ! k = Tool Mock_ticket_write b" for k b
    proof -
      have "k \<noteq> ?rest"
        using resting_approval [OF True] k by auto
      then consider "k < ?rest" | "Suc ?rest \<le> k" by linarith
      then show ?thesis
      proof cases
        case 1
        with written k have "written row k (wk_tables s1)" by blast
        with effects3 same show ?thesis by (auto simp: written_def)
      next
        case 2
        with written3 k r'(3) waits(2) have "written r' k (wk_tables s3)" by auto
        with r'(1,2) r(2,3) show ?thesis by (simp add: written_def)
      qed
    qed
    moreover have "set (wt_effects (wk_tables s)) \<subseteq> set (wt_effects (wk_tables s3))"
      using effects effects3 same by auto
    ultimately show ?thesis
      using final r'(1) r(2) by (intro exI conjI) auto
  qed
qed



text \<open>The run of a workflow that reads, waits for approval and writes the ticket.\<close>

definition approval_worker :: "unit worker" where
  "approval_worker = ticket_worker\<lparr>wk_tables := (wk_tables ticket_worker)\<lparr>wt_db := ticket_db\<lparr>db_workflows :=
     [ticket_workflow\<lparr>wr_definition := definition_json sample_definition\<rparr>]\<rparr>\<rparr>\<rparr>"

definition approval_config :: "unit worker_config" where
  "approval_config = ticket_config\<lparr>wc_unmarshal := (\<lambda>data. Some (JObj [(''runId'', JStr ticket_id), (''tenantId'', JStr data)]))\<rparr>"

definition approval_http :: http_request where
  "approval_http = sample_http\<lparr>rq_route := R_approve ticket_id\<rparr>"

lemma approval_inv: "worker_inv (parse_uuid strict_env) (strict_env, approval_worker)"
proof -
  have "schema_ok (parse_uuid strict_env) (db_of approval_worker)"
    using sample_definition_valid
    by (auto simp: approval_worker_def ticket_db_def schema_ok_def db_ok_defs definitions_ok_def tenant_exists_def sample_db_def
        ticket_run_def new_run_row_def ticket_message_def ticket_workflow_def ticket_id_def)
  moreover have "approved_ok (db_of approval_worker)"
    by (simp add: approved_ok_def step_limit_def approval_worker_def ticket_db_def ticket_run_def new_run_row_def)
  ultimately show ?thesis
    by (simp add: worker_inv_def ledger_ok_def) (simp add: approval_worker_def ticket_worker_def)
qed

lemma approval_startable: "startable strict_env (db_of approval_worker) ticket_run sample_definition ''demo-tenant'' ''secret''"
  by (simp add: startable_def approval_worker_def ticket_db_def ticket_message_def ticket_workflow_def ticket_run_def
      new_run_row_def opens_def holds_key_def sample_db_def)


end
